(* ===== verification/Prelude.thy ===== *)
theory Prelude
  imports Main "HOL-Library.Word" "HOL-Library.Code_Target_Nat"
begin

section \<open>Shared types, results and lemmas\<close>

text \<open>
  The types every component uses: bytes, the result of a Go function that may return an error or
  panic, and the sentinel errors of the packages under src/. A Go call
  \<^verbatim>\<open>v, err := f(x)\<close> is a value of type \<open>'a res\<close>: \<open>Ok v\<close>, \<open>Err e\<close> for a non-nil error and
  \<open>Panic\<close> for a run-time panic (nil dereference, index or subslice out of range). An error that is
  wrapped with \<^verbatim>\<open>%w\<close> or \<^verbatim>\<open>errors.Wrap\<close> is represented by the sentinel it wraps, which is what
  \<^verbatim>\<open>errors.Is\<close> looks for.
\<close>

type_synonym byte = "8 word"
type_synonym bytes = "8 word list"

datatype go_error =
    ErrUnexpectedEOF | EOF
  | ErrChecksumMismatch | ErrMixedCompression | ErrMaxFrameCountExceeded | ErrMtuTooSmall
  | ErrFrameStreamUuidMismatch | ErrNotTerminated | ErrNoFrames
  | ErrTargetNotFound | ErrClusterEmpty
  | ErrPoolEmpty
  | ErrMissingProof | ErrInvalidProof | ErrTreeUninitialized
  | ErrIdentityNotFound | ErrEventRecordNotFound
  | ErrDBNotFound
  | ErrEventAlreadyStored | ErrInvalidFilter
  | ErrABCIQueryFailed | ErrEventNotFound | ErrNotEnoughNodes | ErrPolicyMismatch
  | ErrPrincipalNotFound
  | ErrInvalidPolicyType | ErrMultipleCountFilters | ErrInvalidRuleGrouping
  | ErrNoDocuments
  | OtherError string

datatype 'a res = Ok 'a | Err go_error | Panic

definition bind_res :: "'a res \<Rightarrow> ('a \<Rightarrow> 'b res) \<Rightarrow> 'b res" where
  "bind_res r k = (case r of Ok v \<Rightarrow> k v | Err e \<Rightarrow> Err e | Panic \<Rightarrow> Panic)"

fun is_ok :: "'a res \<Rightarrow> bool" where
  "is_ok (Ok _) = True"
| "is_ok _ = False"

fun map_res :: "('a \<Rightarrow> 'b) \<Rightarrow> 'a res \<Rightarrow> 'b res" where
  "map_res f (Ok v) = Ok (f v)"
| "map_res f (Err e) = Err e"
| "map_res f Panic = Panic"

named_theorems codec_simps \<open>round trips of the byte and text encodings\<close>

lemma bind_res_simps [simp]:
  "bind_res (Ok v) k = k v"
  "bind_res (Err e) k = Err e"
  "bind_res Panic k = Panic"
  by (simp_all add: bind_res_def)

lemma bind_res_eq_Ok: "bind_res r k = Ok w \<longleftrightarrow> (\<exists>v. r = Ok v \<and> k v = Ok w)"
  by (cases r) simp_all

lemma bind_res_split_Ok [elim!]:
  assumes "bind_res r k = Ok w"
  obtains v where "r = Ok v" and "k v = Ok w"
  using assms by (auto simp: bind_res_eq_Ok)

lemma map_res_eq_Ok [simp]: "map_res f r = Ok w \<longleftrightarrow> (\<exists>v. r = Ok v \<and> w = f v)"
  by (cases r) auto

lemma is_ok_iff: "is_ok r \<longleftrightarrow> (\<exists>v. r = Ok v)"
  by (cases r) simp_all

text \<open>\<^verbatim>\<open>if v, err := f(); err != nil { ... }\<close>: the handler of an error, and the rest.\<close>

definition on_err :: "'a res \<Rightarrow> (go_error \<Rightarrow> 'b res) \<Rightarrow> ('a \<Rightarrow> 'b res) \<Rightarrow> 'b res" where
  "on_err r h k = (case r of Ok v \<Rightarrow> k v | Err e \<Rightarrow> h e | Panic \<Rightarrow> Panic)"

lemma on_err_simps [simp]:
  "on_err (Ok v) h k = k v" "on_err (Err e) h k = h e" "on_err Panic h k = Panic"
  by (simp_all add: on_err_def)

lemma on_err_eq_Ok:
  "on_err r h k = Ok w \<longleftrightarrow> (\<exists>v. r = Ok v \<and> k v = Ok w) \<or> (\<exists>e. r = Err e \<and> h e = Ok w)"
  by (cases r) simp_all

lemma on_errE:
  assumes "on_err r h k = Ok w"
  obtains v where "r = Ok v" "k v = Ok w" | e where "r = Err e" "h e = Ok w"
  using assms by (auto simp: on_err_eq_Ok)

subsection \<open>Lists\<close>

lemma take_append_exact [simp]: "length xs = n \<Longrightarrow> take n (xs @ ys) = xs"
  by simp

lemma drop_append_exact [simp]: "length xs = n \<Longrightarrow> drop n (xs @ ys) = ys"
  by simp

text \<open>\<open>subslice xs lo hi\<close> is the Go slice expression \<^verbatim>\<open>xs[lo:hi]\<close> for \<open>lo \<le> hi \<le> len xs\<close>.\<close>

definition subslice :: "'a list \<Rightarrow> nat \<Rightarrow> nat \<Rightarrow> 'a list" where
  "subslice xs lo hi = take (hi - lo) (drop lo xs)"

lemma length_subslice [simp]: "hi \<le> length xs \<Longrightarrow> length (subslice xs lo hi) = hi - lo"
  by (simp add: subslice_def)

lemma subslice_append_right: "length xs \<le> lo \<Longrightarrow> subslice (xs @ ys) lo hi = subslice ys (lo - length xs) (hi - length xs)"
  by (simp add: subslice_def)

lemma subslice_append_exact: "length xs = lo \<Longrightarrow> length ys = hi - lo \<Longrightarrow> subslice (xs @ ys @ zs) lo hi = ys"
  by (simp add: subslice_def)

lemma subslice_0: "subslice xs 0 hi = take hi xs"
  by (simp add: subslice_def)

lemma take_subslice: "lo \<le> hi \<Longrightarrow> take hi xs = take lo xs @ subslice xs lo hi"
  by (metis subslice_def le_add_diff_inverse take_add)

lemma subslice_single: "lo < length xs \<Longrightarrow> subslice xs lo (Suc lo) = [xs ! lo]"
  by (simp add: subslice_def take_Suc hd_drop_conv_nth)

text \<open>\<^verbatim>\<open>utils.Contains\<close> of wineventchain/internal/utils/slice.go.\<close>

fun Contains :: "'a list \<Rightarrow> 'a \<Rightarrow> bool" where
  "Contains [] item = False"
| "Contains (i # is) item = (if i = item then True else Contains is item)"

lemma Contains_iff [simp]: "Contains xs x \<longleftrightarrow> x \<in> set xs"
  by (induction xs) auto

subsection \<open>Codecs\<close>

text \<open>
  The contract of an encoder and its decoder. \<open>codec\<close>: decoding undoes encoding on well-formed
  values; \<open>prefix_codec\<close>: also when other bytes follow, so that an encoding is self-delimiting.
\<close>

locale codec =
  fixes enc :: "'a \<Rightarrow> 'b" and dec :: "'b \<Rightarrow> 'a res" and wf :: "'a \<Rightarrow> bool"
  assumes dec_enc: "wf x \<Longrightarrow> dec (enc x) = Ok x"
begin

lemma enc_inj: "wf x \<Longrightarrow> wf y \<Longrightarrow> enc x = enc y \<longleftrightarrow> x = y"
  by (metis dec_enc res.inject(1))

lemma inj_on_enc: "inj_on enc {x. wf x}"
  by (rule inj_onI) (simp add: enc_inj)

end

locale prefix_codec =
  fixes enc :: "'a \<Rightarrow> 'c list" and dec :: "'c list \<Rightarrow> 'a res" and wf :: "'a \<Rightarrow> bool"
  assumes dec_enc_append: "wf x \<Longrightarrow> dec (enc x @ rest) = Ok x"
begin

lemma prefix_free: "wf x \<Longrightarrow> wf y \<Longrightarrow> enc x @ r = enc y @ s \<Longrightarrow> x = y \<and> r = s"
  by (metis dec_enc_append res.inject(1) same_append_eq)

end

sublocale prefix_codec \<subseteq> codec enc dec wf
proof
  show "dec (enc x) = Ok x" if "wf x" for x
    using dec_enc_append [OF that, of "[]"] by (simp only: append_Nil2)
qed

subsection \<open>Sequences of commands\<close>

text \<open>
  A component executes commands one after the other and stops at the first error. \<open>simulation\<close> is the
  contract of a component with an abstract specification: every command that returns moves the
  abstraction as the specification says. The invariant also sees the commands that are still to come.
\<close>

fun run_steps :: "('c \<Rightarrow> 's \<Rightarrow> 's res) \<Rightarrow> 'c list \<Rightarrow> 's \<Rightarrow> 's res" where
  "run_steps step [] s = Ok s"
| "run_steps step (c # cs) s = bind_res (step c s) (run_steps step cs)"

locale simulation =
  fixes step :: "'c \<Rightarrow> 's \<Rightarrow> 's res" and spec :: "'c \<Rightarrow> 'a \<Rightarrow> 'a" and inv :: "'c list \<Rightarrow> 's \<Rightarrow> bool" and abs :: "'s \<Rightarrow> 'a"
  assumes step_sim: "inv (c # cs) s \<Longrightarrow> step c s = Ok s' \<Longrightarrow> inv cs s' \<and> abs s' = spec c (abs s)"
begin

lemma run_sim: "inv cs s \<Longrightarrow> run_steps step cs s = Ok s' \<Longrightarrow> inv [] s' \<and> abs s' = fold spec cs (abs s)"
proof (induction cs arbitrary: s)
  case (Cons c cs)
  then obtain s1 where 1: "step c s = Ok s1" "run_steps step cs s1 = Ok s'" by auto
  from step_sim [OF Cons.prems(1) 1(1)] Cons.IH [OF _ 1(2)] show ?case by simp
qed simp

end

subsection \<open>Machine words\<close>

lemma unat_word_bounds:
  "unat (w8 :: 8 word) < 256" "unat (w16 :: 16 word) < 65536"
  "unat (w32 :: 32 word) < 4294967296" "unat (w64 :: 64 word) < 18446744073709551616"
  using unsigned_less [of w8, where 'a = nat] unsigned_less [of w16, where 'a = nat]
    unsigned_less [of w32, where 'a = nat] unsigned_less [of w64, where 'a = nat]
  by simp_all

lemma unat_mod_simps [simp]:
  "unat (w8 :: 8 word) mod 256 = unat w8" "unat (w16 :: 16 word) mod 65536 = unat w16"
  "unat (w32 :: 32 word) mod 4294967296 = unat w32"
  "unat (w64 :: 64 word) mod 18446744073709551616 = unat w64"
  using unat_word_bounds by simp_all

end
