(* ===== verification/GoLib.thy ===== *)
theory GoLib
  imports Prelude
begin

section \<open>The parts of the Go standard library the program uses\<close>

text \<open>
  Go strings and byte slices (a Go string is a byte sequence, here a \<open>string\<close>), the little-endian
  integers of encoding/binary, encoding/hex, strconv, strings and the JSON values of
  encoding/json. A \<open>json\<close> value stands for the compact text that \<^verbatim>\<open>json.Marshal\<close> prints for it
  (\<open>render\<close>), so a \<^verbatim>\<open>json.RawMessage\<close> is a \<open>json\<close> value. Cryptographic primitives, and the RFC
  3339 text of a time stamp, are the fields of the parameter record \<open>crypto\<close>.
\<close>

subsection \<open>Strings and byte slices\<close>

definition bz :: "string \<Rightarrow> bytes" where
  "bz s = map (\<lambda>c. word_of_nat (of_char c)) s"

definition go_string :: "bytes \<Rightarrow> string" where
  "go_string b = map (\<lambda>w. char_of (unat w)) b"

definition HasPrefix :: "string \<Rightarrow> string \<Rightarrow> bool" where
  "HasPrefix s p = (take (length p) s = p)"

definition TrimPrefix :: "string \<Rightarrow> string \<Rightarrow> string" where
  "TrimPrefix s p = (if HasPrefix s p then drop (length p) s else s)"

fun Split :: "char \<Rightarrow> string \<Rightarrow> string list" where
  "Split sep [] = [[]]"
| "Split sep (c # cs) =
     (if c = sep then [] # Split sep cs
      else (case Split sep cs of [] \<Rightarrow> [[c]] | p # ps \<Rightarrow> (c # p) # ps))"

text \<open>\<^verbatim>\<open>strings.ToLower\<close> on ASCII; other bytes are left as they are.\<close>

definition to_lower_char :: "char \<Rightarrow> char" where
  "to_lower_char c = (if 65 \<le> (of_char c :: nat) \<and> (of_char c :: nat) \<le> 90
     then char_of ((of_char c :: nat) + 32) else c)"

definition ToLower :: "string \<Rightarrow> string" where
  "ToLower s = map to_lower_char s"

subsection \<open>Little-endian integers (encoding/binary)\<close>

fun put_le :: "nat \<Rightarrow> nat \<Rightarrow> bytes" where
  "put_le 0 x = []"
| "put_le (Suc n) x = word_of_nat (x mod 256) # put_le n (x div 256)"

fun get_le :: "bytes \<Rightarrow> nat" where
  "get_le [] = 0"
| "get_le (b # bs) = unat b + 256 * get_le bs"

definition PutUint16 :: "16 word \<Rightarrow> bytes" where "PutUint16 w = put_le 2 (unat w)"
definition PutUint32 :: "32 word \<Rightarrow> bytes" where "PutUint32 w = put_le 4 (unat w)"
definition PutUint64 :: "64 word \<Rightarrow> bytes" where "PutUint64 w = put_le 8 (unat w)"
definition Uint16 :: "bytes \<Rightarrow> 16 word" where "Uint16 b = word_of_nat (get_le b)"
definition Uint32 :: "bytes \<Rightarrow> 32 word" where "Uint32 b = word_of_nat (get_le b)"
definition Uint64 :: "bytes \<Rightarrow> 64 word" where "Uint64 b = word_of_nat (get_le b)"

subsection \<open>Hexadecimal text (encoding/hex)\<close>

definition hex_digit :: "nat \<Rightarrow> char" where
  "hex_digit n = (if n < 10 then char_of (48 + n) else char_of (87 + n))"

definition hex_value :: "char \<Rightarrow> nat option" where
  "hex_value c = (let n = of_char c :: nat in
     if 48 \<le> n \<and> n \<le> 57 then Some (n - 48)
     else if 97 \<le> n \<and> n \<le> 102 then Some (n - 87)
     else if 65 \<le> n \<and> n \<le> 70 then Some (n - 55)
     else None)"

fun hex_EncodeToString :: "bytes \<Rightarrow> string" where
  "hex_EncodeToString [] = []"
| "hex_EncodeToString (b # bs) =
     hex_digit (unat b div 16) # hex_digit (unat b mod 16) # hex_EncodeToString bs"

fun hex_DecodeString :: "string \<Rightarrow> bytes res" where
  "hex_DecodeString [] = Ok []"
| "hex_DecodeString [c] =
     (case hex_value c of None \<Rightarrow> Err (OtherError ''invalid byte'')
      | Some _ \<Rightarrow> Err (OtherError ''odd length hex string''))"
| "hex_DecodeString (c # d # cs) =
     (case hex_value c of None \<Rightarrow> Err (OtherError ''invalid byte'')
      | Some hi \<Rightarrow> (case hex_value d of None \<Rightarrow> Err (OtherError ''invalid byte'')
          | Some lo \<Rightarrow> map_res (\<lambda>bs. word_of_nat (16 * hi + lo) # bs) (hex_DecodeString cs)))"

subsection \<open>Decimal numbers (strconv)\<close>

definition is_digit :: "char \<Rightarrow> bool" where
  "is_digit c = (48 \<le> (of_char c :: nat) \<and> (of_char c :: nat) \<le> 57)"

definition digit_val :: "char \<Rightarrow> nat" where
  "digit_val c = (of_char c :: nat) - 48"

definition digits_val :: "string \<Rightarrow> nat" where
  "digits_val ds = foldl (\<lambda>a c. 10 * a + digit_val c) 0 ds"

text \<open>
  \<^verbatim>\<open>strconv.Atoi(s)\<close> and \<^verbatim>\<open>strconv.ParseInt(s, 10, 64)\<close> on a 64-bit platform: an optional sign and
  at least one digit; a value that does not fit an int64 is an error.
\<close>

definition ParseInt :: "string \<Rightarrow> int res" where
  "ParseInt s =
     (let (neg, ds) = (case s of
          [] \<Rightarrow> (False, [])
        | c # cs \<Rightarrow> if c = CHR ''-'' then (True, cs) else if c = CHR ''+'' then (False, cs)
                   else (False, s))
      in if ds = [] \<or> \<not> list_all is_digit ds then Err (OtherError ''invalid syntax'')
         else let n = (if neg then - int (digits_val ds) else int (digits_val ds))
              in if n < - (2 ^ 63) \<or> 2 ^ 63 \<le> n then Err (OtherError ''value out of range'')
                 else Ok n)"

definition Atoi :: "string \<Rightarrow> int res" where
  "Atoi s = ParseInt s"

text \<open>The decimal text of a natural number, as \<^verbatim>\<open>%d\<close> and \<^verbatim>\<open>strconv.Itoa\<close> print it.\<close>

fun nat_dec :: "nat \<Rightarrow> string" where
  "nat_dec n = (if n < 10 then [char_of (48 + n)] else nat_dec (n div 10) @ [char_of (48 + n mod 10)])"

declare nat_dec.simps [simp del]

definition int_dec :: "int \<Rightarrow> string" where
  "int_dec i = (if i < 0 then CHR ''-'' # nat_dec (nat (- i)) else nat_dec (nat i))"

subsection \<open>JSON values (encoding/json)\<close>

text \<open>The zero value of \<^verbatim>\<open>time.Time\<close>: January 1, year 1, in nanoseconds relative to the Unix epoch.\<close>

definition time_zero :: int where
  "time_zero = - 62135596800 * 1000000000"

text \<open>
  \<open>JNum\<close> carries the number's literal, \<open>JStr\<close> the string it denotes, \<open>JTime\<close> stands for the
  string literal that \<^verbatim>\<open>time.Time.MarshalJSON\<close> prints for an instant (nanoseconds since the epoch)
  and \<open>JBytes\<close> for the base64 string literal of a \<^verbatim>\<open>[]byte\<close>.
\<close>

datatype json =
    JNull
  | JBool bool
  | JNum string
  | JStr string
  | JTime int
  | JBytes bytes
  | JArr "json list"
  | JObj "(string \<times> json) list"

definition b64_char :: "nat \<Rightarrow> char" where
  "b64_char n = (if n < 26 then char_of (65 + n) else if n < 52 then char_of (71 + n)
     else if n < 62 then char_of (n - 4) else if n = 62 then CHR ''+'' else CHR ''/'')"

fun b64_EncodeToString :: "bytes \<Rightarrow> string" where
  "b64_EncodeToString [] = []"
| "b64_EncodeToString [a] = [b64_char (unat a div 4), b64_char (unat a mod 4 * 16), CHR ''='', CHR ''='']"
| "b64_EncodeToString [a, b] = [b64_char (unat a div 4), b64_char (unat a mod 4 * 16 + unat b div 16),
     b64_char (unat b mod 16 * 4), CHR ''='']"
| "b64_EncodeToString (a # b # c # bs) = [b64_char (unat a div 4), b64_char (unat a mod 4 * 16 + unat b div 16),
     b64_char (unat b mod 16 * 4 + unat c div 64), b64_char (unat c mod 64)] @ b64_EncodeToString bs"

definition hex4 :: "nat \<Rightarrow> string" where
  "hex4 n = [hex_digit (n div 4096 mod 16), hex_digit (n div 256 mod 16), hex_digit (n div 16 mod 16), hex_digit (n mod 16)]"

text \<open>The escapes of encoding/json: quote, backslash, control characters and the HTML characters.\<close>

definition json_escape_char :: "char \<Rightarrow> string" where
  "json_escape_char c = (let n = of_char c :: nat in
     if n = 34 then [char_of (92::nat), c]
     else if n = 92 then [c, c]
     else if n = 8 then [char_of (92::nat), CHR ''b'']
     else if n = 12 then [char_of (92::nat), CHR ''f'']
     else if n = 10 then [char_of (92::nat), CHR ''n'']
     else if n = 13 then [char_of (92::nat), CHR ''r'']
     else if n = 9 then [char_of (92::nat), CHR ''t'']
     else if n < 32 \<or> n = 60 \<or> n = 62 \<or> n = 38 then char_of (92::nat) # CHR ''u'' # hex4 n
     else [c])"

definition dquote :: char where "dquote = char_of (34::nat)"

definition json_quote :: "string \<Rightarrow> string" where
  "json_quote s = dquote # concat (map json_escape_char s) @ [dquote]"

fun join_with :: "string \<Rightarrow> string list \<Rightarrow> string" where
  "join_with sep [] = []"
| "join_with sep [s] = s"
| "join_with sep (s # t # ts) = s @ sep @ join_with sep (t # ts)"

fun render :: "(int \<Rightarrow> string) \<Rightarrow> json \<Rightarrow> string" where
  "render ft JNull = ''null''"
| "render ft (JBool b) = (if b then ''true'' else ''false'')"
| "render ft (JNum lit) = lit"
| "render ft (JStr s) = json_quote s"
| "render ft (JTime t) = dquote # ft t @ [dquote]"
| "render ft (JBytes b) = dquote # b64_EncodeToString b @ [dquote]"
| "render ft (JArr js) = ''['' @ join_with '','' (map (render ft) js) @ '']''"
| "render ft (JObj fs) =
     ''{'' @ join_with '','' (map (\<lambda>(k, j). json_quote k @ '':'' @ render ft j) fs) @ ''}''"

text \<open>
  Decoding an object into a struct: every key of the object is matched with the field's tag without
  regard to case, and the last match wins; a \<^verbatim>\<open>null\<close> leaves a field that is not a pointer as it is.
\<close>

fun jlookup :: "string \<Rightarrow> (string \<times> json) list \<Rightarrow> json option" where
  "jlookup k [] = None"
| "jlookup k ((k', j) # fs) =
     (case jlookup k fs of Some j' \<Rightarrow> Some j'
      | None \<Rightarrow> if ToLower k' = ToLower k then Some j else None)"

fun jfields :: "json \<Rightarrow> (string \<times> json) list res" where
  "jfields (JObj fs) = Ok fs"
| "jfields JNull = Ok []"
| "jfields _ = Err (OtherError ''cannot unmarshal into struct'')"

definition jstring :: "string \<Rightarrow> (string \<times> json) list \<Rightarrow> string res" where
  "jstring k fs = (case jlookup k fs of
     None \<Rightarrow> Ok [] | Some JNull \<Rightarrow> Ok [] | Some (JStr s) \<Rightarrow> Ok s
   | Some _ \<Rightarrow> Err (OtherError ''cannot unmarshal into string''))"

definition jstring_ptr :: "string \<Rightarrow> (string \<times> json) list \<Rightarrow> string option res" where
  "jstring_ptr k fs = (case jlookup k fs of
     None \<Rightarrow> Ok None | Some JNull \<Rightarrow> Ok None | Some (JStr s) \<Rightarrow> Ok (Some s)
   | Some _ \<Rightarrow> Err (OtherError ''cannot unmarshal into string''))"

definition jint :: "string \<Rightarrow> (string \<times> json) list \<Rightarrow> int res" where
  "jint k fs = (case jlookup k fs of
     None \<Rightarrow> Ok 0 | Some JNull \<Rightarrow> Ok 0 | Some (JNum lit) \<Rightarrow> ParseInt lit
   | Some _ \<Rightarrow> Err (OtherError ''cannot unmarshal into int''))"

definition jint_ptr :: "string \<Rightarrow> (string \<times> json) list \<Rightarrow> int option res" where
  "jint_ptr k fs = (case jlookup k fs of
     None \<Rightarrow> Ok None | Some JNull \<Rightarrow> Ok None | Some (JNum lit) \<Rightarrow> map_res Some (ParseInt lit)
   | Some _ \<Rightarrow> Err (OtherError ''cannot unmarshal into int''))"

definition jtime :: "string \<Rightarrow> (string \<times> json) list \<Rightarrow> int res" where
  "jtime k fs = (case jlookup k fs of
     None \<Rightarrow> Ok time_zero | Some JNull \<Rightarrow> Ok time_zero | Some (JTime t) \<Rightarrow> Ok t
   | Some _ \<Rightarrow> Err (OtherError ''cannot parse time''))"

definition jbytes :: "string \<Rightarrow> (string \<times> json) list \<Rightarrow> bytes res" where
  "jbytes k fs = (case jlookup k fs of
     None \<Rightarrow> Ok [] | Some JNull \<Rightarrow> Ok [] | Some (JBytes b) \<Rightarrow> Ok b
   | Some _ \<Rightarrow> Err (OtherError ''illegal base64 data''))"

definition jraw :: "string \<Rightarrow> (string \<times> json) list \<Rightarrow> json option" where
  "jraw k fs = jlookup k fs"

definition jnum :: "int \<Rightarrow> json" where
  "jnum i = JNum (int_dec i)"

definition jptr :: "('a \<Rightarrow> json) \<Rightarrow> 'a option \<Rightarrow> json" where
  "jptr f p = (case p of None \<Rightarrow> JNull | Some v \<Rightarrow> f v)"

text \<open>
  A field whose type has its own \<^verbatim>\<open>UnmarshalJSON\<close> is decoded from the text of the value (\<open>ft\<close>
  prints time stamps); for a pointer, \<^verbatim>\<open>null\<close> is nil. A nested struct is decoded from its object; when
  the key is missing it keeps its zero value, which is what decoding \<^verbatim>\<open>null\<close> gives.
\<close>

definition jcustom :: "(int \<Rightarrow> string) \<Rightarrow> (string \<Rightarrow> 'a res) \<Rightarrow> 'a \<Rightarrow> string \<Rightarrow> (string \<times> json) list \<Rightarrow> 'a res" where
  "jcustom ft un zero k fs = (case jlookup k fs of None \<Rightarrow> Ok zero | Some j \<Rightarrow> un (render ft j))"

definition jcustom_ptr :: "(int \<Rightarrow> string) \<Rightarrow> (string \<Rightarrow> 'a res) \<Rightarrow> string \<Rightarrow> (string \<times> json) list \<Rightarrow> 'a option res" where
  "jcustom_ptr ft un k fs = (case jlookup k fs of
     None \<Rightarrow> Ok None | Some JNull \<Rightarrow> Ok None | Some j \<Rightarrow> map_res Some (un (render ft j)))"

definition jstruct :: "(json \<Rightarrow> 'a res) \<Rightarrow> string \<Rightarrow> (string \<times> json) list \<Rightarrow> 'a res" where
  "jstruct un k fs = un (case jlookup k fs of None \<Rightarrow> JNull | Some j \<Rightarrow> j)"

text \<open>A \<^verbatim>\<open>uint64\<close> field: a sign is not accepted.\<close>

definition juint64 :: "string \<Rightarrow> (string \<times> json) list \<Rightarrow> nat res" where
  "juint64 k fs = (case jlookup k fs of
     None \<Rightarrow> Ok 0 | Some JNull \<Rightarrow> Ok 0
   | Some (JNum lit) \<Rightarrow> (if lit = [] \<or> \<not> list_all is_digit lit then Err (OtherError ''invalid syntax'')
        else if 2 ^ 64 \<le> digits_val lit then Err (OtherError ''value out of range'')
        else Ok (digits_val lit))
   | Some _ \<Rightarrow> Err (OtherError ''cannot unmarshal into uint64''))"

text \<open>A slice field whose elements are decoded with \<open>un\<close>.\<close>

fun map_res_list :: "('a \<Rightarrow> 'b res) \<Rightarrow> 'a list \<Rightarrow> 'b list res" where
  "map_res_list f [] = Ok []"
| "map_res_list f (x # xs) = bind_res (f x) (\<lambda>y. map_res (\<lambda>ys. y # ys) (map_res_list f xs))"

definition jarray :: "(json \<Rightarrow> 'a res) \<Rightarrow> string \<Rightarrow> (string \<times> json) list \<Rightarrow> 'a list res" where
  "jarray un k fs = (case jlookup k fs of
     None \<Rightarrow> Ok [] | Some JNull \<Rightarrow> Ok [] | Some (JArr js) \<Rightarrow> map_res_list un js
   | Some _ \<Rightarrow> Err (OtherError ''cannot unmarshal into slice''))"

subsection \<open>Library functions that are parameters\<close>

text \<open>
  SHA-256, Ed25519 signing and verification, the RFC 3339 text of a time stamp and the text form of
  github.com/google/uuid are fields of a record that the definitions take as an argument.
  \<^verbatim>\<open>ed25519.Verify\<close> panics when the key is not 32 bytes long.
\<close>

record extlib =
  sha256 :: "bytes \<Rightarrow> bytes"
  ed25519_sign :: "bytes \<Rightarrow> bytes \<Rightarrow> bytes"
  ed25519_verify :: "bytes \<Rightarrow> bytes \<Rightarrow> bytes \<Rightarrow> bool"
  rfc3339 :: "int \<Rightarrow> string"
  uuid_String :: "bytes \<Rightarrow> string"
  uuid_Parse :: "string \<Rightarrow> bytes res"

definition ed25519_Verify :: "extlib \<Rightarrow> bytes \<Rightarrow> bytes \<Rightarrow> bytes \<Rightarrow> bool res" where
  "ed25519_Verify lib publicKey message sig =
     (if length publicKey \<noteq> 32 then Panic else Ok (ed25519_verify lib publicKey message sig))"

text \<open>
  What the documentation of the uuid package promises: \<^verbatim>\<open>String\<close> gives 36 hexadecimal digits and
  hyphens, \<^verbatim>\<open>Parse\<close> reads them back, also in braces, and a UUID has 16 bytes. A character is plain when JSON prints it as it is.
\<close>

definition plain_char :: "char \<Rightarrow> bool" where
  "plain_char c \<longleftrightarrow> json_escape_char c = [c]"

definition uuid_laws :: "extlib \<Rightarrow> bool" where
  "uuid_laws lib \<longleftrightarrow> (\<forall>u. length u = 16 \<longrightarrow> length (uuid_String lib u) = 36
      \<and> list_all plain_char (uuid_String lib u) \<and> uuid_Parse lib (uuid_String lib u) = Ok u
      \<and> uuid_Parse lib (''{'' @ uuid_String lib u @ ''}'') = Ok u)
    \<and> (\<forall>s u. uuid_Parse lib s = Ok u \<longrightarrow> length u = 16)"

subsection \<open>Lemmas\<close>

lemma length_bz [simp]: "length (bz s) = length s"
  by (simp add: bz_def)

lemma length_go_string [simp]: "length (go_string b) = length b"
  by (simp add: go_string_def)

lemma go_string_bz [simp, codec_simps]: "go_string (bz s) = s"
  by (simp add: bz_def go_string_def comp_def unat_of_nat map_idI)

lemma bz_go_string [simp, codec_simps]: "bz (go_string b) = b"
  by (simp add: bz_def go_string_def comp_def map_idI)

lemma bz_inj [simp]: "bz s = bz t \<longleftrightarrow> s = t"
  using go_string_bz by metis

lemma bz_append [simp]: "bz (s @ t) = bz s @ bz t"
  by (simp add: bz_def)

lemma length_put_le [simp]: "length (put_le n x) = n"
  by (induction n arbitrary: x) simp_all

lemma get_le_put_le [codec_simps]: "get_le (put_le n x) = x mod 256 ^ n"
proof (induction n arbitrary: x)
  case 0
  then show ?case by simp
next
  case (Suc n)
  have "x mod (256 * 256 ^ n) = 256 * (x div 256 mod 256 ^ n) + x mod 256"
    by (rule mod_mult2_eq)
  then show ?case by (simp add: Suc.IH unat_of_nat)
qed

lemma get_le_bound: "get_le b < 256 ^ length b"
proof (induction b)
  case (Cons x b)
  have "unat x < 256" by (rule unat_word_bounds)
  moreover have "get_le b + 1 \<le> 256 ^ length b" using Cons.IH by simp
  then have "256 * (get_le b + 1) \<le> 256 * 256 ^ length b" by (rule mult_left_mono) simp
  ultimately show ?case by simp
qed simp

lemma put_le_get_le [codec_simps]: "length b = n \<Longrightarrow> put_le n (get_le b) = b"
proof (induction b arbitrary: n)
  case (Cons x b)
  have "unat x < 256" by (rule unat_word_bounds)
  with Cons show ?case by auto
qed simp

lemma length_PutUint [simp]:
  "length (PutUint16 w) = 2" "length (PutUint32 v) = 4" "length (PutUint64 u) = 8"
  by (simp_all add: PutUint16_def PutUint32_def PutUint64_def)

lemma Uint16_PutUint16 [simp, codec_simps]: "Uint16 (PutUint16 w) = w"
  by (simp add: Uint16_def PutUint16_def get_le_put_le)

lemma Uint32_PutUint32 [simp, codec_simps]: "Uint32 (PutUint32 w) = w"
  by (simp add: Uint32_def PutUint32_def get_le_put_le)

lemma Uint64_PutUint64 [simp, codec_simps]: "Uint64 (PutUint64 w) = w"
  by (simp add: Uint64_def PutUint64_def get_le_put_le)

lemma PutUint16_Uint16 [codec_simps]: "length b = 2 \<Longrightarrow> PutUint16 (Uint16 b) = b"
  using get_le_bound [of b] by (simp add: Uint16_def PutUint16_def unat_of_nat put_le_get_le)

lemma PutUint32_Uint32 [codec_simps]: "length b = 4 \<Longrightarrow> PutUint32 (Uint32 b) = b"
  using get_le_bound [of b] by (simp add: Uint32_def PutUint32_def unat_of_nat put_le_get_le)

lemma PutUint64_Uint64 [codec_simps]: "length b = 8 \<Longrightarrow> PutUint64 (Uint64 b) = b"
  using get_le_bound [of b] by (simp add: Uint64_def PutUint64_def unat_of_nat put_le_get_le)

lemma hex_value_hex_digit [simp]: "n < 16 \<Longrightarrow> hex_value (hex_digit n) = Some n"
  by (auto simp: hex_value_def hex_digit_def Let_def)

lemma hex_roundtrip [simp, codec_simps]: "hex_DecodeString (hex_EncodeToString b) = Ok b"
proof (induction b)
  case (Cons w b)
  have "unat w < 256" by (rule unat_word_bounds)
  then have "unat w div 16 < 16" by simp
  moreover have "16 * (unat w div 16) + unat w mod 16 = unat w" by simp
  ultimately show ?case using Cons.IH by simp
qed simp

lemma hex_EncodeToString_inj [simp]: "hex_EncodeToString a = hex_EncodeToString b \<longleftrightarrow> a = b"
  using hex_roundtrip by (metis res.inject(1))

lemma length_hex_EncodeToString [simp]: "length (hex_EncodeToString b) = 2 * length b"
  by (induction b) simp_all

lemma is_digit_char_of [simp]: "(n :: nat) < 10 \<Longrightarrow> is_digit (char_of (48 + n))"
  by (simp add: is_digit_def)

lemma digit_val_char_of [simp]: "n < 10 \<Longrightarrow> digit_val (char_of (48 + n)) = n"
  by (simp add: digit_val_def)

lemma digits_val_snoc [simp]: "digits_val (ds @ [c]) = 10 * digits_val ds + digit_val c"
  by (simp add: digits_val_def)

lemma nat_dec_props: "nat_dec n \<noteq> [] \<and> list_all is_digit (nat_dec n) \<and> digits_val (nat_dec n) = n"
proof (induction n rule: nat_dec.induct)
  case (1 n)
  show ?case
  proof (cases "n < 10")
    case True
    then show ?thesis by (simp add: nat_dec.simps [of n] digits_val_def)
  next
    case False
    with "1.IH" show ?thesis by (simp add: nat_dec.simps [of n])
  qed
qed

lemmas nat_dec_nonempty [simp] = nat_dec_props [THEN conjunct1]
lemmas nat_dec_digits [simp] = nat_dec_props [THEN conjunct2, THEN conjunct1]
lemmas nat_dec_val [simp, codec_simps] = nat_dec_props [THEN conjunct2, THEN conjunct2]

lemma nat_dec_hd: "nat_dec n = c # cs \<Longrightarrow> is_digit c"
  using nat_dec_digits [of n] by simp

lemma ParseInt_int_dec [codec_simps]:
  assumes "- (2 ^ 63) \<le> i" and "i < 2 ^ 63"
  shows "ParseInt (int_dec i) = Ok i"
proof (cases "i < 0")
  case True
  with assms show ?thesis by (simp add: ParseInt_def int_dec_def)
next
  case False
  obtain c cs where d: "nat_dec (nat i) = c # cs" by (cases "nat_dec (nat i)") auto
  then have "is_digit c" by (rule nat_dec_hd)
  then have "c \<noteq> CHR ''-''" "c \<noteq> CHR ''+''" by (auto simp: is_digit_def)
  moreover have "list_all is_digit (c # cs)" "digits_val (c # cs) = nat i"
    using nat_dec_digits [of "nat i"] nat_dec_val [of "nat i"] by (simp_all add: d)
  ultimately show ?thesis using False assms by (simp add: ParseInt_def int_dec_def d)
qed

lemma TrimPrefix_append [simp]: "TrimPrefix (p @ s) p = s"
  by (simp add: TrimPrefix_def HasPrefix_def)

lemma HasPrefix_simps [simp]:
  "HasPrefix s [] = True" "HasPrefix [] (c # p) = False"
  "HasPrefix (d # s) (c # p) = (d = c \<and> HasPrefix s p)"
  by (auto simp: HasPrefix_def)

lemma HasPrefix_append [simp]: "HasPrefix (p @ s) p"
  by (simp add: HasPrefix_def)

lemma render_plain: "list_all plain_char s \<Longrightarrow> render ft (JStr s) = dquote # s @ [dquote]"
proof -
  assume "list_all plain_char s"
  then have "concat (map json_escape_char s) = s"
    by (induction s) (simp_all add: plain_char_def)
  then show ?thesis by (simp add: json_quote_def)
qed

lemma plain_hex_digit: "n < 16 \<Longrightarrow> plain_char (hex_digit n)"
  by (auto simp: plain_char_def json_escape_char_def hex_digit_def Let_def)

lemma plain_hex [simp]: "list_all plain_char (hex_EncodeToString b)"
proof (induction b)
  case (Cons w b)
  have "unat w < 256" by (rule unat_word_bounds)
  then have "unat w div 16 < 16" by simp
  with Cons show ?case by (simp add: plain_hex_digit)
qed simp

lemma map_res_list_map: "(\<And>x. x \<in> set xs \<Longrightarrow> f (g x) = Ok x) \<Longrightarrow> map_res_list f (map g xs) = Ok xs"
  by (induction xs) simp_all

lemma map_res_list_Ok_length: "map_res_list f xs = Ok ys \<Longrightarrow> length ys = length xs"
  by (induction xs arbitrary: ys) auto

lemma juint64_nat_dec:
  "jlookup k fs = Some (JNum (nat_dec n)) \<Longrightarrow> n < 2 ^ 64 \<Longrightarrow> juint64 k fs = Ok n"
  by (simp add: juint64_def)

lemma uuid_lawsD:
  assumes "uuid_laws lib" "length u = 16"
  shows "length (uuid_String lib u) = 36" "list_all plain_char (uuid_String lib u)"
    "uuid_Parse lib (uuid_String lib u) = Ok u" "uuid_Parse lib (''{'' @ uuid_String lib u @ ''}'') = Ok u"
  using assms by (auto simp: uuid_laws_def)

lemma uuid_Parse_length: "uuid_laws lib \<Longrightarrow> uuid_Parse lib s = Ok u \<Longrightarrow> length u = 16"
  by (simp add: uuid_laws_def)

text \<open>The facts that decode the object an encoder has built.\<close>

lemmas json_decode_simps =
  jstring_def jstring_ptr_def jint_def jint_ptr_def jtime_def jbytes_def jraw_def jnum_def jptr_def
  jcustom_def jcustom_ptr_def jstruct_def jarray_def ToLower_def to_lower_char_def

end
