(* ===== verification/Frames.thy ===== *)
theory Frames
  imports GoLib
begin

section \<open>Frames, frame queues and the stream decoder (transport/swim)\<close>

text \<open>
  The wire format of a gossip frame (frame.go), the queue that cuts a message into frames
  (frameset.go) and the decoder that puts a stream together again (framesetdecoder.go), with the
  round trip of a single frame, the exact inputs on which \<^verbatim>\<open>Unmarshal\<close> panics, and the round trip
  of a whole message for any order and repetition of its frames. The zlib functions are parameters.
\<close>

subsection \<open>frame.go\<close>

record frame =
  IsCompressed :: bool
  StreamId :: bytes
  FrameNumber :: "16 word"
  IsLast :: bool
  Source :: string
  Data :: bytes

definition newFrame :: "bool \<Rightarrow> bytes \<Rightarrow> 16 word \<Rightarrow> bool \<Rightarrow> string \<Rightarrow> bytes \<Rightarrow> frame" where
  "newFrame isCompressed streamId frameNumber isLast source data =
     \<lparr>IsCompressed = isCompressed, StreamId = streamId, FrameNumber = frameNumber,
      IsLast = isLast, Source = source, Data = data\<rparr>"

text \<open>\<^verbatim>\<open>crc32.ChecksumIEEE\<close>, the reflected CRC-32 with polynomial 0xEDB88320, one bit at a time.\<close>

unbundle bit_operations_syntax

definition crc_bit :: "32 word \<Rightarrow> 32 word" where
  "crc_bit c = (if odd c then drop_bit 1 c XOR 0xEDB88320 else drop_bit 1 c)"

definition crc_byte :: "32 word \<Rightarrow> byte \<Rightarrow> 32 word" where
  "crc_byte c b = (crc_bit ^^ 8) (c XOR ucast b)"

definition ChecksumIEEE :: "bytes \<Rightarrow> 32 word" where
  "ChecksumIEEE data = NOT (foldl crc_byte 0xFFFFFFFF data)"

definition flag_byte :: "bool \<Rightarrow> byte" where
  "flag_byte b = (if b then 1 else 0)"

definition frame_body :: "frame \<Rightarrow> bytes" where
  "frame_body f =
     [flag_byte (IsCompressed f)] @ StreamId f @ PutUint16 (FrameNumber f) @ [flag_byte (IsLast f)]
     @ PutUint16 (word_of_nat (length (bz (Source f)))) @ bz (Source f)
     @ PutUint32 (word_of_nat (length (Data f))) @ Data f"

definition frame_Marshal :: "frame \<Rightarrow> bytes" where
  "frame_Marshal f = (let buf = frame_body f in buf @ PutUint32 (ChecksumIEEE buf))"

text \<open>
  \<^verbatim>\<open>Unmarshal\<close> reads the data length with \<^verbatim>\<open>data[offset : offset+4]\<close> after checking for two bytes
  only. A slice expression is bounded by the capacity of the slice, the parameter \<open>cap\<close>: beyond it
  Go panics, between the length and the capacity the bytes that are read do not matter, because the
  next length check fails.
\<close>

definition frame_Unmarshal :: "nat \<Rightarrow> bytes \<Rightarrow> frame res" where
  "frame_Unmarshal cap data =
     (if length data < 27 then Err ErrUnexpectedEOF
      else
        let isCompressed = (data ! 0 = 1);
            streamId = subslice data 1 17;
            frameNumber = Uint16 (subslice data 17 19);
            isLast = (data ! 19 = 1);
            sourceLen = unat (Uint16 (subslice data 20 22))
        in if length data < 22 + sourceLen then Err ErrUnexpectedEOF
        else
          let source = go_string (subslice data 22 (22 + sourceLen));
              offset = 22 + sourceLen
          in if length data < offset + 2 then Err ErrUnexpectedEOF
          else if length data < offset + 4
            then (if cap < offset + 4 then Panic else Err ErrUnexpectedEOF)
          else
            let dataLen = unat (Uint32 (subslice data offset (offset + 4)))
            in if length data < offset + 4 + dataLen then Err ErrUnexpectedEOF
            else
              let fdata = subslice data (offset + 4) (offset + 4 + dataLen);
                  end = offset + 4 + dataLen
              in if length data < end + 4 then Err ErrUnexpectedEOF
              else if ChecksumIEEE (take end data) \<noteq> Uint32 (subslice data end (end + 4))
                then Err ErrChecksumMismatch
              else Ok \<lparr>IsCompressed = isCompressed, StreamId = streamId, FrameNumber = frameNumber,
                       IsLast = isLast, Source = source, Data = fdata\<rparr>)"

definition calculateMaxDataBytes :: "nat \<Rightarrow> string \<Rightarrow> nat res" where
  "calculateMaxDataBytes mtu sourceName =
     (let sourceBytes = length (bz sourceName);
          headerBytes = 1 + 16 + 2 + 1 + 2 + sourceBytes + 4 + 4
      in if mtu \<le> headerBytes then Err ErrMtuTooSmall else Ok (mtu - headerBytes))"

subsection \<open>frameset.go\<close>

record frameQueue =
  fq_id :: bytes
  fq_sourceName :: string
  fq_bytes :: bytes
  fq_compressed :: bool
  fq_offset :: nat
  fq_frameNumber :: "16 word"

definition MaxFrameCount :: nat where "MaxFrameCount = 64"

text \<open>\<^verbatim>\<open>uuid.New()\<close> is the argument \<open>uid\<close>.\<close>

definition newFrameQueue :: "bytes \<Rightarrow> string \<Rightarrow> bytes \<Rightarrow> frameQueue" where
  "newFrameQueue uid sourceName b =
     \<lparr>fq_id = uid, fq_sourceName = sourceName, fq_bytes = b, fq_compressed = False,
      fq_offset = 0, fq_frameNumber = 0\<rparr>"

definition ResetReader :: "frameQueue \<Rightarrow> frameQueue" where
  "ResetReader fq = fq\<lparr>fq_frameNumber := 0, fq_offset := 0\<rparr>"

text \<open>
  \<^verbatim>\<open>Next\<close>: the next frame and the advanced queue. Every error leaves the queue as it was. The
  offset and the MTU are Go uints, so their sum is taken modulo \<open>2 ^ 64\<close>.
\<close>

definition fq_Next :: "(bytes \<Rightarrow> bytes res) \<Rightarrow> frameQueue \<Rightarrow> nat \<Rightarrow> (frame \<times> frameQueue) res" where
  "fq_Next compress fq mtu =
     (if fq_offset fq \<ge> length (fq_bytes fq) then Err EOF
      else if unat (fq_frameNumber fq) \<ge> MaxFrameCount then Err ErrMaxFrameCountExceeded
      else
        let isFirstFrame = (fq_frameNumber fq = 0)
        in bind_res (calculateMaxDataBytes mtu (fq_sourceName fq)) (\<lambda>availBytes.
          if availBytes < 1 then Err ErrMtuTooSmall
          else
            bind_res
              (if isFirstFrame \<and> availBytes < length (fq_bytes fq) \<and> \<not> fq_compressed fq
               then map_res (\<lambda>c. fq\<lparr>fq_bytes := c, fq_compressed := True\<rparr>) (compress (fq_bytes fq))
               else Ok fq)
              (\<lambda>fq.
                let end = (fq_offset fq + availBytes) mod 2 ^ 64;
                    isLast = (end \<ge> length (fq_bytes fq));
                    end = (if end > length (fq_bytes fq) then length (fq_bytes fq) else end)
                in Ok (newFrame (fq_compressed fq) (fq_id fq) (fq_frameNumber fq) isLast
                         (fq_sourceName fq) (subslice (fq_bytes fq) (fq_offset fq) end),
                       fq\<lparr>fq_frameNumber := fq_frameNumber fq + 1, fq_offset := end\<rparr>))))"

text \<open>
  Reading a queue to its end, as the sender does: \<open>Next\<close> until \<^verbatim>\<open>io.EOF\<close>. A queue yields at most
  \<open>MaxFrameCount\<close> frames, so fuel \<open>MaxFrameCount + 1\<close> is always enough.
\<close>

fun fq_read :: "(bytes \<Rightarrow> bytes res) \<Rightarrow> nat \<Rightarrow> frameQueue \<Rightarrow> nat \<Rightarrow> frame list res" where
  "fq_read compress 0 fq mtu = Err ErrMaxFrameCountExceeded"
| "fq_read compress (Suc fuel) fq mtu =
     (case fq_Next compress fq mtu of
        Ok (f, fq') \<Rightarrow> map_res (\<lambda>fs. f # fs) (fq_read compress fuel fq' mtu)
      | Err e \<Rightarrow> (if e = EOF then Ok [] else Err e)
      | Panic \<Rightarrow> Panic)"

definition fq_all :: "(bytes \<Rightarrow> bytes res) \<Rightarrow> frameQueue \<Rightarrow> nat \<Rightarrow> frame list res" where
  "fq_all compress fq mtu = fq_read compress (Suc MaxFrameCount) fq mtu"

subsection \<open>framesetdecoder.go\<close>

record frameQueueDecoder =
  d_id :: bytes
  d_receivedCount :: "16 word"
  d_terminated :: bool
  d_isCompressed :: bool
  d_frames :: "frame option list"

definition newFrameQueueDecoder :: "bytes \<Rightarrow> frameQueueDecoder" where
  "newFrameQueueDecoder uid =
     \<lparr>d_id = uid, d_receivedCount = 0, d_terminated = False, d_isCompressed = False, d_frames = []\<rparr>"

definition ReadFrame :: "frameQueueDecoder \<Rightarrow> frame \<Rightarrow> frameQueueDecoder res" where
  "ReadFrame d f =
     (if unat (d_receivedCount d) > MaxFrameCount \<or> unat (FrameNumber f) > MaxFrameCount
      then Err ErrMaxFrameCountExceeded
      else if d_id d \<noteq> StreamId f then Err ErrFrameStreamUuidMismatch
      else
        bind_res
          (if d_receivedCount d = 0 then Ok (d\<lparr>d_isCompressed := IsCompressed f\<rparr>)
           else if d_isCompressed d \<noteq> IsCompressed f then Err ErrMixedCompression
           else Ok d)
          (\<lambda>d.
            let n = unat (FrameNumber f)
            in if length (d_frames d) \<ge> unat (FrameNumber f + 1) \<and> d_frames d ! n \<noteq> None
               then Ok d
               else
                 let frames = (if n \<ge> length (d_frames d)
                               then d_frames d @ replicate (unat (FrameNumber f + 1) - length (d_frames d)) None
                               else d_frames d);
                     d = d\<lparr>d_frames := frames[n := Some f], d_receivedCount := d_receivedCount d + 1\<rparr>
                 in Ok (if IsLast f then d\<lparr>d_terminated := True\<rparr> else d)))"

definition ReadBytes :: "nat \<Rightarrow> frameQueueDecoder \<Rightarrow> bytes \<Rightarrow> frameQueueDecoder res" where
  "ReadBytes cap d b = bind_res (frame_Unmarshal cap b) (\<lambda>f. ReadFrame d f)"

text \<open>The loop of \<^verbatim>\<open>HasReceivedFrame\<close> dereferences every entry it passes, also a nil one.\<close>

fun has_received :: "frame option list \<Rightarrow> 16 word \<Rightarrow> bool res" where
  "has_received [] n = Ok False"
| "has_received (None # fs) n = Panic"
| "has_received (Some f # fs) n = (if FrameNumber f = n then Ok True else has_received fs n)"

definition HasReceivedFrame :: "frameQueueDecoder \<Rightarrow> 16 word \<Rightarrow> bool res" where
  "HasReceivedFrame d frameNumber = has_received (d_frames d) frameNumber"

definition ReceivedAll :: "frameQueueDecoder \<Rightarrow> bool" where
  "ReceivedAll d = (d_terminated d \<and> d_receivedCount d = word_of_nat (length (d_frames d)))"

definition decoder_SourceName :: "frameQueueDecoder \<Rightarrow> string res" where
  "decoder_SourceName d = (case d_frames d of
     [] \<Rightarrow> Err ErrNoFrames | None # _ \<Rightarrow> Panic | Some f # _ \<Rightarrow> Ok (Source f))"

fun concat_data :: "frame option list \<Rightarrow> bytes res" where
  "concat_data [] = Ok []"
| "concat_data (None # fs) = Panic"
| "concat_data (Some f # fs) = map_res (\<lambda>b. Data f @ b) (concat_data fs)"

definition Decode :: "(bytes \<Rightarrow> bytes res) \<Rightarrow> frameQueueDecoder \<Rightarrow> bytes res" where
  "Decode decompress d =
     (if \<not> d_terminated d then Err ErrNotTerminated
      else bind_res (concat_data (d_frames d)) (\<lambda>buf.
        if d_isCompressed d then decompress buf else Ok buf))"

text \<open>Reading a list of frames one after the other; the first error stops it.\<close>

fun read_frames :: "frameQueueDecoder \<Rightarrow> frame list \<Rightarrow> frameQueueDecoder res" where
  "read_frames d [] = Ok d"
| "read_frames d (f # fs) = bind_res (ReadFrame d f) (\<lambda>d'. read_frames d' fs)"

subsection \<open>A single frame\<close>

definition frame_wf :: "frame \<Rightarrow> bool" where
  "frame_wf f \<longleftrightarrow> length (StreamId f) = 16 \<and> length (Source f) < 2 ^ 16 \<and> length (Data f) < 2 ^ 32"

lemma flag_byte_eq_1 [simp]: "flag_byte b = 1 \<longleftrightarrow> b"
  by (simp add: flag_byte_def)

lemma length_frame_body [simp]:
  "frame_wf f \<Longrightarrow> length (frame_body f) = 26 + length (Source f) + length (Data f)"
  by (simp add: frame_body_def frame_wf_def)

lemma frame_Unmarshal_Marshal_append:
  assumes wf: "frame_wf f"
  shows "frame_Unmarshal cap (frame_Marshal f @ rest) = Ok f"
proof -
  define c l where "c = flag_byte (IsCompressed f)" and "l = flag_byte (IsLast f)"
  define num sl dl where "num = PutUint16 (FrameNumber f)"
    and "sl = PutUint16 (word_of_nat (length (Source f)))"
    and "dl = PutUint32 (word_of_nat (length (Data f)))"
  define src n where "src = bz (Source f)" and "n = 26 + length (Source f) + length (Data f)"
  define crc where "crc = PutUint32 (ChecksumIEEE (frame_body f))"
  define data where "data = frame_Marshal f @ rest"
  have len: "length (StreamId f) = 16" "length num = 2" "length sl = 2" "length dl = 4"
    "length src = length (Source f)" "length crc = 4"
    using wf by (simp_all add: frame_wf_def num_def sl_def dl_def src_def crc_def)
  have data: "data = [c] @ StreamId f @ num @ [l] @ sl @ src @ dl @ Data f @ crc @ rest"
    by (simp add: data_def frame_Marshal_def frame_body_def c_def l_def num_def sl_def dl_def src_def crc_def)
  have body: "frame_body f = [c] @ StreamId f @ num @ [l] @ sl @ src @ dl @ Data f"
    by (simp add: frame_body_def c_def l_def num_def sl_def dl_def src_def)
  have s: "subslice data 1 17 = StreamId f" "subslice data 17 19 = num" "subslice data 20 22 = sl"
    "subslice data 22 (22 + length (Source f)) = src"
    "subslice data (22 + length (Source f)) (26 + length (Source f)) = dl"
    "subslice data (26 + length (Source f)) n = Data f"
    "subslice data n (n + 4) = crc"
    using len by (simp_all add: data subslice_def n_def drop_Cons')
  have i: "data ! 0 = c" "data ! 19 = l" using len by (simp_all add: data nth_append)
  have L: "length data = n + 4 + length rest" using len by (simp add: data n_def)
  have t: "take n data = frame_body f" using wf by (simp add: data_def frame_Marshal_def n_def Let_def)
  have u: "Uint16 num = FrameNumber f" "unat (Uint16 sl) = length (Source f)"
    "unat (Uint32 dl) = length (Data f)" "Uint32 crc = ChecksumIEEE (frame_body f)"
    using wf by (simp_all add: num_def sl_def dl_def crc_def frame_wf_def unat_of_nat)
  show ?thesis
    unfolding data_def [symmetric] using L s(5-7) t
    by (simp add: frame_Unmarshal_def Let_def s(1-4) i u n_def) (simp add: c_def l_def src_def s(1) [simplified])
qed

interpretation frame_codec: prefix_codec frame_Marshal "frame_Unmarshal cap" frame_wf
  by unfold_locales (rule frame_Unmarshal_Marshal_append)

text \<open>
  \<^verbatim>\<open>Unmarshal\<close> undoes \<^verbatim>\<open>Marshal\<close> for every frame whose stream id has 16 bytes and whose source
  and data lengths fit their length fields, whatever bytes follow; and marshalled frames are
  self-delimiting, so that two different frames never share an encoding.
\<close>

lemma frame_roundtrip:
  assumes "frame_wf f"
  shows "frame_Unmarshal cap (frame_Marshal f @ rest) = Ok f
    \<and> (\<forall>g rest'. frame_wf g \<and> frame_Marshal f @ rest = frame_Marshal g @ rest' \<longrightarrow> f = g \<and> rest = rest')"
  using frame_codec.dec_enc_append [OF assms] frame_codec.prefix_free [OF assms] by blast

text \<open>
  \<^verbatim>\<open>Unmarshal\<close> panics exactly on inputs that end two or three bytes after the source name, in the
  middle of the data length, when the capacity of the slice ends there too: the code checks for two
  bytes and reads four.
\<close>

lemma frame_Unmarshal_Panic_iff:
  "frame_Unmarshal cap data = Panic \<longleftrightarrow>
     (let offset = 22 + unat (Uint16 (subslice data 20 22))
      in 27 \<le> length data \<and> offset + 2 \<le> length data \<and> length data < offset + 4 \<and> cap < offset + 4)"
  by (auto simp: frame_Unmarshal_def Let_def)

lemma frame_Unmarshal_OkD:
  assumes "frame_Unmarshal cap data = Ok f"
  defines "n \<equiv> 26 + length (Source f) + length (Data f)"
  shows "n + 4 \<le> length data" and "frame_wf f"
    and "Uint32 (subslice data n (n + 4)) = ChecksumIEEE (take n data)"
  using assms(1) unfolding n_def frame_Unmarshal_def
  by (auto simp: Let_def frame_wf_def split: if_splits intro: unat_word_bounds)

lemma flag_byte_inverse: "unat b \<le> 1 \<Longrightarrow> flag_byte (b = 1) = b"
proof -
  assume "unat b \<le> 1"
  then have "unat b = unat (0 :: byte) \<or> unat b = unat (1 :: byte)" by auto
  then show ?thesis by (auto simp: flag_byte_def word_unat_eq_iff)
qed

lemma frame_Unmarshal_canonical:
  assumes ok: "frame_Unmarshal cap data = Ok f"
    and flags: "unat (data ! 0) \<le> 1" "unat (data ! 19) \<le> 1"
  shows "take (30 + length (Source f) + length (Data f)) data = frame_Marshal f"
proof -
  define k m where "k = 22 + length (Source f)" and "m = length (Data f)"
  have len: "k + 8 + m \<le> length data"
    using frame_Unmarshal_OkD(1) [OF ok] by (simp add: k_def m_def)
  have f: "IsCompressed f = (data ! 0 = 1)" "StreamId f = subslice data 1 17"
    "FrameNumber f = Uint16 (subslice data 17 19)" "IsLast f = (data ! 19 = 1)"
    "Source f = go_string (subslice data 22 k)" "Data f = subslice data (k + 4) (k + 4 + m)"
    using ok by (auto simp: frame_Unmarshal_def Let_def k_def m_def split: if_splits)
  have sl: "word_of_nat (length (Source f)) = Uint16 (subslice data 20 22)"
    and dl: "word_of_nat m = Uint32 (subslice data k (k + 4))"
    using ok by (auto simp: frame_Unmarshal_def Let_def k_def m_def split: if_splits)
  have crc: "Uint32 (subslice data (k + 4 + m) (k + 8 + m)) = ChecksumIEEE (take (k + 4 + m) data)"
    using frame_Unmarshal_OkD(3) [OF ok] by (simp add: k_def m_def add.commute add.left_commute)
  have body: "take (k + 4 + m) data = frame_body f"
  proof -
    have k22: "22 \<le> k" by (simp add: k_def)
    have "take (k + 4 + m) data = subslice data 0 1 @ subslice data 1 17 @ subslice data 17 19
        @ subslice data 19 20 @ subslice data 20 22 @ subslice data 22 k @ subslice data k (k + 4)
        @ subslice data (k + 4) (k + 4 + m)"
      using k22 by (simp add: take_subslice [of "k + 4" "k + 4 + m"] take_subslice [of k "k + 4"]
          take_subslice [of 22 k] take_subslice [of 20 22] take_subslice [of 19 20]
          take_subslice [of 17 19] take_subslice [of 1 17] subslice_0)
    moreover have "data \<noteq> []" using len by auto
    then have "subslice data 0 1 = [flag_byte (IsCompressed f)]"
      "subslice data 19 20 = [flag_byte (IsLast f)]"
      using len k22 flags subslice_single [of 0 data] subslice_single [of 19 data]
      by (simp_all add: f flag_byte_inverse)
    moreover have "subslice data 17 19 = PutUint16 (FrameNumber f)"
      "subslice data 20 22 = PutUint16 (word_of_nat (length (bz (Source f))))"
      "subslice data k (k + 4) = PutUint32 (word_of_nat (length (Data f)))"
      using len k22 sl dl f(3) by (simp_all add: m_def codec_simps)
    ultimately show ?thesis by (simp add: frame_body_def f(2,5,6))
  qed
  have "take (k + 8 + m) data = take (k + 4 + m) data @ subslice data (k + 4 + m) (k + 8 + m)"
    by (rule take_subslice) simp
  moreover have "subslice data (k + 4 + m) (k + 8 + m) = PutUint32 (ChecksumIEEE (frame_body f))"
    using PutUint32_Uint32 [of "subslice data (k + 4 + m) (k + 8 + m)"] crc len
    by (simp flip: body)
  ultimately show ?thesis
    using body by (simp add: frame_Marshal_def Let_def k_def m_def)
qed

subsection \<open>Cutting a message into frames\<close>

text \<open>The conditions under which a queue compresses nothing any more.\<close>

definition fq_settled :: "nat \<Rightarrow> nat \<Rightarrow> frameQueue \<Rightarrow> bool" where
  "fq_settled mtu avail fq \<longleftrightarrow>
     calculateMaxDataBytes mtu (fq_sourceName fq) = Ok avail \<and> 0 < avail \<and>
     length (fq_bytes fq) + avail < 2 ^ 64 \<and> fq_offset fq \<le> length (fq_bytes fq) \<and>
     (fq_frameNumber fq \<noteq> 0 \<or> fq_compressed fq \<or> length (fq_bytes fq) \<le> avail)"

lemma fq_Next_settled:
  assumes "fq_settled mtu avail fq" and "fq_Next compress fq mtu = Ok (f, fq')"
  defines "e \<equiv> min (fq_offset fq + avail) (length (fq_bytes fq))"
  shows "fq_offset fq < length (fq_bytes fq)" and "unat (fq_frameNumber fq) < MaxFrameCount"
    and "f = newFrame (fq_compressed fq) (fq_id fq) (fq_frameNumber fq)
           (length (fq_bytes fq) = e) (fq_sourceName fq) (subslice (fq_bytes fq) (fq_offset fq) e)"
    and "fq' = fq\<lparr>fq_frameNumber := fq_frameNumber fq + 1, fq_offset := e\<rparr>"
  using assms by (auto simp: fq_Next_def fq_settled_def Let_def min_def split: if_splits)

lemma unat_Suc_frame: "unat (n :: 16 word) < MaxFrameCount \<Longrightarrow> unat (n + 1) = Suc (unat n)"
  by (simp add: MaxFrameCount_def unat_word_ariths)

lemma fq_settled_step:
  assumes "fq_settled mtu avail fq" and "fq_Next compress fq mtu = Ok (f, fq')"
  shows "fq_settled mtu avail fq'"
proof -
  note n = fq_Next_settled [OF assms]
  have "fq_frameNumber fq + 1 \<noteq> 0" using unat_Suc_frame [OF n(2)] by auto
  with assms(1) show ?thesis by (simp add: n(4) fq_settled_def)
qed

lemma fq_read_settled:
  assumes "fq_settled mtu avail fq" and "fq_read compress fuel fq mtu = Ok fs"
  shows "concat (map Data fs) = drop (fq_offset fq) (fq_bytes fq)
    \<and> (fs \<noteq> [] \<longrightarrow> unat (fq_frameNumber fq) + length fs \<le> MaxFrameCount)
    \<and> (\<forall>i < length fs. unat (FrameNumber (fs ! i)) = unat (fq_frameNumber fq) + i
        \<and> StreamId (fs ! i) = fq_id fq \<and> IsCompressed (fs ! i) = fq_compressed fq
        \<and> (IsLast (fs ! i) \<longleftrightarrow> Suc i = length fs))
    \<and> (fs = [] \<longleftrightarrow> fq_offset fq = length (fq_bytes fq))"
  using assms
proof (induction fuel arbitrary: fq fs)
  case (Suc fuel)
  show ?case
  proof (cases "fq_Next compress fq mtu")
    case (Err e)
    with Suc.prems have "e = EOF" "fs = []" by (auto split: if_splits)
    with Err Suc.prems(1) have "fq_offset fq = length (fq_bytes fq)"
      by (auto simp: fq_Next_def fq_settled_def Let_def split: if_splits)
    with \<open>fs = []\<close> show ?thesis by simp
  next
    case (Ok r)
    obtain f fq' where r: "fq_Next compress fq mtu = Ok (f, fq')" using Ok by (cases r) simp
    with Suc.prems(2) obtain gs where gs: "fq_read compress fuel fq' mtu = Ok gs" and fs: "fs = f # gs"
      by auto
    note n = fq_Next_settled [OF Suc.prems(1) r]
    note IH = Suc.IH [OF fq_settled_step [OF Suc.prems(1) r] gs]
    define e where "e = min (fq_offset fq + avail) (length (fq_bytes fq))"
    have "fq_offset fq \<le> e" using Suc.prems(1) by (simp add: e_def fq_settled_def)
    then have "drop (fq_offset fq) (fq_bytes fq) = subslice (fq_bytes fq) (fq_offset fq) e @ drop e (fq_bytes fq)"
      by (metis subslice_def append_take_drop_id drop_drop le_add_diff_inverse2)
    moreover have "unat (fq_frameNumber fq + 1) = Suc (unat (fq_frameNumber fq))"
      by (rule unat_Suc_frame [OF n(2)])
    ultimately show ?thesis
      using IH n(1,2) by (auto simp: fs n(3,4) newFrame_def nth_Cons' e_def [symmetric])
  qed (use Suc.prems in simp)
qed simp

text \<open>What a stream of frames must look like for the decoder.\<close>

definition stream_ok :: "bytes \<Rightarrow> bool \<Rightarrow> frame list \<Rightarrow> bool" where
  "stream_ok uid c fs \<longleftrightarrow> fs \<noteq> [] \<and> length fs \<le> MaxFrameCount \<and>
     (\<forall>i < length fs. unat (FrameNumber (fs ! i)) = i \<and> StreamId (fs ! i) = uid \<and>
        IsCompressed (fs ! i) = c \<and> (IsLast (fs ! i) \<longleftrightarrow> Suc i = length fs))"

lemma fq_read_stream_ok:
  assumes "fq_settled mtu avail fq" "fq_read compress fuel fq mtu = Ok fs"
    and "fq_frameNumber fq = 0" "fq_offset fq = 0" "fs \<noteq> []"
  shows "stream_ok (fq_id fq) (fq_compressed fq) fs \<and> concat (map Data fs) = fq_bytes fq"
  using fq_read_settled [OF assms(1,2)] assms(3-) by (simp add: stream_ok_def)

text \<open>A message cut by a fresh queue: the payload itself, or the compressed payload.\<close>

lemma fq_Next_compressed:
  assumes "payload \<noteq> []" "calculateMaxDataBytes mtu src = Ok avail" "0 < avail" "avail < length payload"
    and "compress payload = Ok c" "c \<noteq> []"
  shows "fq_Next compress (newFrameQueue uid src payload) mtu =
    fq_Next compress ((newFrameQueue uid src c)\<lparr>fq_compressed := True\<rparr>) mtu"
  using assms by (simp add: fq_Next_def newFrameQueue_def Let_def)

lemma fq_all_unfold:
  "fq_all compress fq mtu = (case fq_Next compress fq mtu of
     Ok (f, fq') \<Rightarrow> map_res (\<lambda>fs. f # fs) (fq_read compress MaxFrameCount fq' mtu)
   | Err e \<Rightarrow> (if e = EOF then Ok [] else Err e)
   | Panic \<Rightarrow> Panic)"
  by (simp add: fq_all_def)

lemma fq_Next_OkD:
  assumes "fq_Next compress fq mtu = Ok r"
  obtains avail where "calculateMaxDataBytes mtu (fq_sourceName fq) = Ok avail" "0 < avail"
    and "fq_frameNumber fq = 0 \<Longrightarrow> avail < length (fq_bytes fq) \<Longrightarrow> \<not> fq_compressed fq \<Longrightarrow>
      \<exists>c. compress (fq_bytes fq) = Ok c"
  using assms by (fastforce simp: fq_Next_def Let_def split: if_splits)

lemma fq_all_OkD:
  assumes "fq_all compress fq mtu = Ok fs" and "fq_offset fq < length (fq_bytes fq)"
    and "compress (fq_bytes fq) = Ok z"
  shows "fs \<noteq> [] \<and> (\<exists>r. fq_Next compress fq mtu = Ok r)"
proof (cases "fq_Next compress fq mtu")
  case (Err e)
  moreover have "e \<noteq> EOF" using Err assms(2,3)
    by (auto simp: fq_Next_def calculateMaxDataBytes_def Let_def bind_res_def split: if_splits res.splits)
  ultimately show ?thesis using assms(1) by (simp add: fq_all_unfold)
qed (use assms in \<open>auto simp: fq_all_unfold\<close>)

lemma fq_all_compressed:
  assumes "payload \<noteq> []" "calculateMaxDataBytes mtu src = Ok avail" "0 < avail" "avail < length payload"
    and "compress payload = Ok c" "c \<noteq> []"
  shows "fq_all compress (newFrameQueue uid src payload) mtu =
    fq_all compress ((newFrameQueue uid src c)\<lparr>fq_compressed := True\<rparr>) mtu"
  using fq_Next_compressed [where uid = uid, OF assms(1-4), of compress c] assms(5,6)
  by (simp add: fq_all_unfold)

lemma fq_all_stream:
  assumes "fq_all compress (newFrameQueue uid src payload) mtu = Ok fs" "payload \<noteq> []" "mtu < 2 ^ 63"
    and "length payload < 2 ^ 63"
    and z: "compress payload = Ok c" "c \<noteq> []" "length c < 2 ^ 63"
  shows "\<exists>compressed. stream_ok uid compressed fs \<and>
    concat (map Data fs) = (if compressed then c else payload)"
proof -
  let ?fq = "newFrameQueue uid src payload"
  have ne: "fs \<noteq> []" and "\<exists>r. fq_Next compress ?fq mtu = Ok r"
    using fq_all_OkD [OF assms(1)] assms(2) z(1) by (simp_all add: newFrameQueue_def)
  then obtain avail where a: "calculateMaxDataBytes mtu src = Ok avail" "0 < avail"
    by (auto simp: newFrameQueue_def elim!: fq_Next_OkD)
  have lt: "avail < 2 ^ 63" using a assms(3)
    by (auto simp: calculateMaxDataBytes_def Let_def split: if_splits)
  show ?thesis
  proof (cases "avail < length payload")
    case False
    with a lt assms(4) have "fq_settled mtu avail ?fq" by (simp add: fq_settled_def newFrameQueue_def)
    from fq_read_stream_ok [OF this assms(1) [unfolded fq_all_def] _ _ ne] show ?thesis
      by (intro exI [of _ False]) (simp add: newFrameQueue_def)
  next
    case True
    let ?cq = "(newFrameQueue uid src c)\<lparr>fq_compressed := True\<rparr>"
    have r: "fq_read compress (Suc MaxFrameCount) ?cq mtu = Ok fs"
      using assms(1) fq_all_compressed [where uid = uid, OF assms(2) a True, of compress c] z
      by (simp add: fq_all_def)
    have "fq_settled mtu avail ?cq" using a lt z by (simp add: fq_settled_def newFrameQueue_def)
    from fq_read_stream_ok [OF this r _ _ ne] show ?thesis
      by (intro exI [of _ True]) (simp add: newFrameQueue_def)
  qed
qed

subsection \<open>Putting a stream together\<close>

text \<open>
  The decoder after receiving the frames with the numbers in \<open>S\<close>, in any order: the slots of \<open>S\<close>
  are filled, the others up to the largest are nil.
\<close>

definition dec_inv :: "bytes \<Rightarrow> bool \<Rightarrow> frame list \<Rightarrow> nat set \<Rightarrow> frameQueueDecoder \<Rightarrow> bool" where
  "dec_inv uid c fs S d \<longleftrightarrow> S \<subseteq> {..<length fs} \<and> d_id d = uid \<and> unat (d_receivedCount d) = card S
     \<and> (d_terminated d \<longleftrightarrow> length fs - 1 \<in> S) \<and> (S \<noteq> {} \<longrightarrow> d_isCompressed d = c)
     \<and> length (d_frames d) = (if S = {} then 0 else Suc (Max S))
     \<and> (\<forall>j < length (d_frames d). d_frames d ! j = (if j \<in> S then Some (fs ! j) else None))"

lemma dec_inv_new: "fs \<noteq> [] \<Longrightarrow> dec_inv uid c fs {} (newFrameQueueDecoder uid)"
  by (simp add: dec_inv_def newFrameQueueDecoder_def)

lemma dec_inv_card:
  assumes "dec_inv uid c fs S d"
  shows "finite S" and "card S \<le> length fs"
proof -
  have "S \<subseteq> {..<length fs}" using assms by (simp add: dec_inv_def)
  then show "finite S" by (rule finite_subset) simp
  show "card S \<le> length fs" using card_mono [OF _ \<open>S \<subseteq> {..<length fs}\<close>] by simp
qed

lemma dec_inv_slot:
  assumes "dec_inv uid c fs S d"
  shows "i < length (d_frames d) \<and> d_frames d ! i \<noteq> None \<longleftrightarrow> i \<in> S"
proof
  assume "i \<in> S"
  moreover have "i \<le> Max S" using dec_inv_card(1) [OF assms] \<open>i \<in> S\<close> by simp
  ultimately show "i < length (d_frames d) \<and> d_frames d ! i \<noteq> None"
    using assms by (auto simp: dec_inv_def)
qed (use assms in \<open>auto simp: dec_inv_def split: if_splits\<close>)

lemma ReadFrame_dec_inv:
  assumes st: "stream_ok uid c fs" and inv: "dec_inv uid c fs S d" and i: "i < length fs"
  shows "\<exists>d'. ReadFrame d (fs ! i) = Ok d' \<and> dec_inv uid c fs (insert i S) d'"
proof -
  let ?f = "fs ! i"
  have f: "unat (FrameNumber ?f) = i" "StreamId ?f = uid" "IsCompressed ?f = c"
    "IsLast ?f \<longleftrightarrow> Suc i = length fs" and n: "length fs \<le> 64"
    using st i by (auto simp: stream_ok_def MaxFrameCount_def)
  have fn: "unat (FrameNumber ?f + 1) = Suc i"
    using unat_Suc_frame [of "FrameNumber ?f"] f(1) i n by (simp add: MaxFrameCount_def)
  have S: "finite S" "card S \<le> length fs" by (rule dec_inv_card [OF inv])+
  have z: "d_receivedCount d = 0 \<longleftrightarrow> S = {}"
    using inv S(1) by (simp add: dec_inv_def unat_eq_zero [symmetric])
  define d1 where "d1 = (if S = {} then d\<lparr>d_isCompressed := c\<rparr> else d)"
  have d1: "d_frames d1 = d_frames d" "d_id d1 = d_id d" "d_receivedCount d1 = d_receivedCount d"
    "d_terminated d1 = d_terminated d" "d_isCompressed d1 = c"
    using inv by (auto simp: d1_def dec_inv_def)
  define fs' where "fs' = (if i \<ge> length (d_frames d)
      then d_frames d @ replicate (Suc i - length (d_frames d)) None else d_frames d)"
  have R: "ReadFrame d ?f = (if i \<in> S then Ok d1
      else Ok (let d2 = d1\<lparr>d_frames := fs'[i := Some ?f], d_receivedCount := d_receivedCount d + 1\<rparr>
               in if IsLast ?f then d2\<lparr>d_terminated := True\<rparr> else d2))"
  proof -
    have g: "unat (d_receivedCount d) \<le> 64" "d_id d = uid" "S \<noteq> {} \<Longrightarrow> d_isCompressed d = c"
      using inv S(2) n by (auto simp: dec_inv_def)
    have sl: "Suc i \<le> length (d_frames d) \<and> d_frames d ! i \<noteq> None \<longleftrightarrow> i \<in> S"
      using dec_inv_slot [OF inv, of i] by (simp add: Suc_le_eq)
    have first: "(if d_receivedCount d = 0 then Ok (d\<lparr>d_isCompressed := IsCompressed ?f\<rparr>)
        else if d_isCompressed d \<noteq> IsCompressed ?f then Err ErrMixedCompression else Ok d) = Ok d1"
      using g(3) by (simp add: z d1_def f(3))
    show ?thesis
      unfolding ReadFrame_def first
      using g(1,2) i n by (simp add: f(1,2) fn MaxFrameCount_def Let_def d1 fs'_def)
        (use sl in \<open>auto simp: Suc_le_eq\<close>)
  qed
  show ?thesis
  proof (cases "i \<in> S")
    case True
    then have "insert i S = S" by auto
    with R True inv show ?thesis by (auto simp: dec_inv_def d1_def)
  next
    case False
    have cnt: "unat (d_receivedCount d + 1) = Suc (card S)"
      using inv S(2) n by (simp add: dec_inv_def unat_word_ariths)
    have len: "length fs' = Suc (Max (insert i S))"
      using inv S(1) by (auto simp: fs'_def dec_inv_def max_def)
    have nth: "fs' ! j = (if j \<in> S then Some (fs ! j) else None)" if "j < length fs'" for j
    proof (cases "j < length (d_frames d)")
      case True
      with inv show ?thesis by (simp add: fs'_def dec_inv_def nth_append)
    next
      case False
      then have "j \<notin> S" using dec_inv_slot [OF inv, of j] by blast
      moreover have "fs' ! j = None" using False that by (auto simp: fs'_def nth_append split: if_splits)
      ultimately show ?thesis by simp
    qed
    have upd: "\<forall>j < length fs'. fs'[i := Some ?f] ! j = (if j \<in> insert i S then Some (fs ! j) else None)"
    proof -
      have "i < length fs'" by (simp add: fs'_def)
      then show ?thesis using nth False by (auto simp: nth_list_update)
    qed
    show ?thesis
      using R False inv i S(1) cnt
      by (auto simp: dec_inv_def Let_def d1 f(4) upd [unfolded len] len)
  qed
qed

lemma read_frames_dec_inv:
  assumes "stream_ok uid c fs" and "dec_inv uid c fs S d" and "set xs \<subseteq> set fs"
  shows "\<exists>d'. read_frames d xs = Ok d' \<and>
    dec_inv uid c fs (S \<union> {i. i < length fs \<and> fs ! i \<in> set xs}) d'"
  using assms(2,3)
proof (induction xs arbitrary: S d)
  case (Cons x xs)
  then obtain i where i: "i < length fs" "x = fs ! i" by (auto simp: in_set_conv_nth)
  have uniq: "{j. j < length fs \<and> fs ! j = x} = {i}"
  proof -
    have num: "\<And>j. j < length fs \<Longrightarrow> unat (FrameNumber (fs ! j)) = j"
      using assms(1) by (simp add: stream_ok_def)
    have "(j < length fs \<and> fs ! j = x) = (j = i)" for j
      using num [of j] num [OF i(1)] i by metis
    then show ?thesis by simp
  qed
  obtain d' where d': "ReadFrame d x = Ok d'" "dec_inv uid c fs (insert i S) d'"
    using ReadFrame_dec_inv [OF assms(1) Cons.prems(1) i(1)] i(2) by blast
  have "insert i S \<union> {j. j < length fs \<and> fs ! j \<in> set xs} = S \<union> {j. j < length fs \<and> fs ! j \<in> set (x # xs)}"
    using uniq by auto
  with Cons.IH [OF d'(2)] Cons.prems(2) d'(1) show ?case by simp
qed simp

lemma dec_inv_ReceivedAll:
  assumes st: "stream_ok uid c fs" and inv: "dec_inv uid c fs S d"
  shows "ReceivedAll d \<longleftrightarrow> S = {..<length fs}"
proof -
  have n: "fs \<noteq> []" "length fs \<le> 64" using st by (auto simp: stream_ok_def MaxFrameCount_def)
  have sub: "S \<subseteq> {..<length fs}" "finite S" "card S \<le> length fs"
    using inv dec_inv_card [OF inv] by (auto simp: dec_inv_def)
  have len: "length (d_frames d) = length fs" if "length fs - 1 \<in> S"
  proof -
    have "Max S = length fs - 1" by (rule Max_eqI) (use that sub in auto)
    with that inv n(1) show ?thesis by (auto simp: dec_inv_def)
  qed
  have "d_receivedCount d = word_of_nat (length fs) \<longleftrightarrow> card S = length fs"
    using inv n sub(3) by (auto simp: dec_inv_def word_unat_eq_iff unat_of_nat)
  moreover have "card S = length fs \<longleftrightarrow> S = {..<length fs}"
    using sub card_subset_eq [of "{..<length fs}" S] by auto
  moreover have "d_terminated d \<longleftrightarrow> length fs - 1 \<in> S" using inv by (simp add: dec_inv_def)
  ultimately show ?thesis
    using len n(1) by (cases "length fs - 1 \<in> S") (auto simp: ReceivedAll_def)
qed

lemma concat_data_map_Some [simp]: "concat_data (map Some fs) = Ok (concat (map Data fs))"
  by (induction fs) simp_all

lemma dec_inv_complete:
  assumes st: "stream_ok uid c fs" and inv: "dec_inv uid c fs {..<length fs} d"
  shows "d_frames d = map Some fs" "d_terminated d" "d_isCompressed d = c"
proof -
  have n: "fs \<noteq> []" using st by (simp add: stream_ok_def)
  have "Max {..<length fs} = length fs - 1" by (rule Max_eqI) (use n in auto)
  then have len: "length (d_frames d) = length fs" using inv n by (auto simp: dec_inv_def)
  moreover have "\<forall>j < length (d_frames d). d_frames d ! j = (if j < length fs then Some (fs ! j) else None)"
    using inv by (simp add: dec_inv_def)
  ultimately show "d_frames d = map Some fs" by (intro nth_equalityI) simp_all
  show "d_terminated d" "d_isCompressed d = c" using inv n by (auto simp: dec_inv_def)
qed

text \<open>
  \<^verbatim>\<open>HasReceivedFrame\<close> on a decoder with a gap: a nil slot below the largest received number is
  dereferenced unless the number asked for was found before it.
\<close>

lemma has_received_gap:
  assumes "k < length os" "os ! k = None" "\<forall>j < k. \<forall>f. os ! j = Some f \<longrightarrow> FrameNumber f \<noteq> n"
  shows "has_received os n = Panic"
  using assms
proof (induction os n arbitrary: k rule: has_received.induct)
  case (3 f fs n)
  then obtain m where k: "k = Suc m" by (cases k) auto
  have "FrameNumber f \<noteq> n" using "3.prems"(3) k by (force dest: spec [of _ 0])
  moreover have "has_received fs n = Panic"
  proof (rule "3.IH")
    show "FrameNumber f \<noteq> n" by fact
    show "m < length fs" "fs ! m = None" using "3.prems" k by auto
    show "\<forall>j<m. \<forall>f. fs ! j = Some f \<longrightarrow> FrameNumber f \<noteq> n"
      using "3.prems"(3) k by (metis Suc_less_eq nth_Cons_Suc)
  qed
  ultimately show ?case by simp
qed auto

lemma has_received_full:
  "has_received (map Some fs) n = Ok (n \<in> FrameNumber ` set fs)"
  by (induction fs) auto


subsection \<open>A whole message\<close>

lemma fq_Next_settled_total:
  assumes "fq_settled mtu avail fq" "fq_offset fq < length (fq_bytes fq)"
    and "unat (fq_frameNumber fq) < MaxFrameCount"
  shows "\<exists>f fq'. fq_Next compress fq mtu = Ok (f, fq')"
  using assms by (auto simp: fq_Next_def fq_settled_def Let_def)

lemma fq_read_total:
  assumes "fq_settled mtu avail fq"
    and "length (fq_bytes fq) \<le> fq_offset fq + (MaxFrameCount - unat (fq_frameNumber fq)) * avail"
    and "MaxFrameCount - unat (fq_frameNumber fq) < fuel"
  shows "\<exists>fs. fq_read compress fuel fq mtu = Ok fs"
  using assms
proof (induction fuel arbitrary: fq)
  case (Suc fuel)
  show ?case
  proof (cases "fq_offset fq < length (fq_bytes fq)")
    case True
    with Suc.prems(2) have fn: "unat (fq_frameNumber fq) < MaxFrameCount" by (cases "MaxFrameCount - unat (fq_frameNumber fq)") auto
    obtain f fq' where r: "fq_Next compress fq mtu = Ok (f, fq')"
      using fq_Next_settled_total [OF Suc.prems(1) True fn] by blast
    note n = fq_Next_settled [OF Suc.prems(1) r]
    obtain k where k: "MaxFrameCount - unat (fq_frameNumber fq) = Suc k"
      using fn by (cases "MaxFrameCount - unat (fq_frameNumber fq)") auto
    then have k': "MaxFrameCount - unat (fq_frameNumber fq + 1) = k"
      using unat_Suc_frame [OF fn] by simp
    have "\<exists>fs. fq_read compress fuel fq' mtu = Ok fs"
    proof (rule Suc.IH [OF fq_settled_step [OF Suc.prems(1) r]])
      show "length (fq_bytes fq') \<le> fq_offset fq' + (MaxFrameCount - unat (fq_frameNumber fq')) * avail"
        using Suc.prems(2) by (auto simp: n(4) k k')
      show "MaxFrameCount - unat (fq_frameNumber fq') < fuel"
        using Suc.prems(3) by (simp add: n(4) k k')
    qed
    with r show ?thesis by auto
  next
    case False
    then show ?thesis by (simp add: fq_Next_def)
  qed
qed simp

lemma fq_read_frames:
  assumes "fq_settled mtu avail fq" and "fq_read compress fuel fq mtu = Ok fs" and "f \<in> set fs"
  shows "Source f = fq_sourceName fq \<and> StreamId f = fq_id fq \<and> length (Data f) \<le> avail"
  using assms
proof (induction fuel arbitrary: fq fs)
  case (Suc fuel)
  obtain g fq' gs where r: "fq_Next compress fq mtu = Ok (g, fq')"
      and gs: "fq_read compress fuel fq' mtu = Ok gs" and fs: "fs = g # gs"
    using Suc.prems(2,3) by (auto split: res.splits prod.splits if_splits)
  note n = fq_Next_settled [OF Suc.prems(1) r]
  show ?case
  proof (cases "f = g")
    case True
    then show ?thesis using n(3) by (simp add: newFrame_def)
  next
    case False
    then have "f \<in> set gs" using Suc.prems(3) fs by simp
    from Suc.IH [OF fq_settled_step [OF Suc.prems(1) r] gs this] show ?thesis by (simp add: n(4))
  qed
qed simp

text \<open>The bytes of a message, split between the frames of a fresh queue.\<close>

lemma fq_all_total:
  assumes avail: "calculateMaxDataBytes mtu src = Ok avail" "mtu < 2 ^ 32" and p: "payload \<noteq> []" "length payload < 2 ^ 63"
    and z: "compress payload = Ok c" "c \<noteq> []" "length c \<le> MaxFrameCount * avail"
  obtains fs compressed where "fq_all compress (newFrameQueue uid src payload) mtu = Ok fs"
    and "stream_ok uid compressed fs" "concat (map Data fs) = (if compressed then c else payload)"
    and "\<And>f. f \<in> set fs \<Longrightarrow> Source f = src \<and> StreamId f = uid \<and> length (Data f) \<le> avail"
proof -
  have a: "0 < avail" "avail < 2 ^ 32"
    using avail by (auto simp: calculateMaxDataBytes_def Let_def split: if_splits)
  have lc: "length c < 2 ^ 63" using z(3) a(2) by (simp add: MaxFrameCount_def)
  define fq where "fq = (if avail < length payload then (newFrameQueue uid src c)\<lparr>fq_compressed := True\<rparr>
      else newFrameQueue uid src payload)"
  have fq: "fq_all compress (newFrameQueue uid src payload) mtu = fq_all compress fq mtu"
    using fq_all_compressed [where uid = uid and compress = compress, OF p(1) avail(1) a(1) _ z(1,2)] by (simp add: fq_def)
  have s: "fq_settled mtu avail fq"
    using avail a p lc by (simp add: fq_def fq_settled_def newFrameQueue_def)
  have ne: "fq_bytes fq \<noteq> []" "fq_offset fq = 0" "fq_frameNumber fq = 0"
    and src: "fq_id fq = uid" "fq_sourceName fq = src"
    using p z by (simp_all add: fq_def newFrameQueue_def)
  have "length (fq_bytes fq) \<le> fq_offset fq + (MaxFrameCount - unat (fq_frameNumber fq)) * avail"
    using z(3) a(1) by (auto simp: fq_def newFrameQueue_def MaxFrameCount_def)
  from fq_read_total [OF s this, of "Suc MaxFrameCount" compress] ne
  obtain fs where fs: "fq_read compress (Suc MaxFrameCount) fq mtu = Ok fs" by auto
  have "fs \<noteq> []" using fq_read_settled [OF s fs] ne by auto
  from fq_read_stream_ok [OF s fs ne(3,2) this] fq_read_frames [OF s fs] fs fq
  show ?thesis
    by (intro that [of fs "fq_compressed fq"]) (auto simp: fq_all_def src, auto simp: fq_def newFrameQueue_def)
qed

lemma length_frame_Marshal:
  "frame_wf f \<Longrightarrow> length (frame_Marshal f) = 30 + length (Source f) + length (Data f)"
  by (simp add: frame_Marshal_def Let_def)

text \<open>Receiving a list of packets.\<close>

fun read_packets :: "nat \<Rightarrow> frameQueueDecoder \<Rightarrow> bytes list \<Rightarrow> frameQueueDecoder res" where
  "read_packets cap d [] = Ok d"
| "read_packets cap d (b # bs) = bind_res (ReadBytes cap d b) (\<lambda>d'. read_packets cap d' bs)"

lemma read_packets_Marshal:
  "\<forall>f \<in> set fs. frame_wf f \<Longrightarrow> read_packets cap d (map frame_Marshal fs) = read_frames d fs"
proof (induction fs arbitrary: d)
  case (Cons f fs)
  then show ?case
    using frame_codec.dec_enc [of f cap] by (cases "ReadFrame d f") (simp_all add: ReadBytes_def)
qed simp

lemma stream_received:
  assumes st: "stream_ok uid c fs" and xs: "set xs \<subseteq> set fs"
  obtains d where "read_frames (newFrameQueueDecoder uid) xs = Ok d"
    and "ReceivedAll d \<longleftrightarrow> set xs = set fs"
    and "set xs = set fs \<Longrightarrow> Decode decompress d =
           (if c then decompress (concat (map Data fs)) else Ok (concat (map Data fs)))"
proof -
  have ne: "fs \<noteq> []" using st by (simp add: stream_ok_def)
  define S where "S = {i. i < length fs \<and> fs ! i \<in> set xs}"
  obtain d where d: "read_frames (newFrameQueueDecoder uid) xs = Ok d" "dec_inv uid c fs S d"
    using read_frames_dec_inv [OF st dec_inv_new [OF ne] xs] by (auto simp: S_def)
  have S: "S = {..<length fs} \<longleftrightarrow> set xs = set fs"
  proof
    assume "S = {..<length fs}"
    then have "fs ! i \<in> set xs" if "i < length fs" for i
      using that unfolding S_def by blast
    then have "set fs \<subseteq> set xs" by (metis in_set_conv_nth subsetI)
    with xs show "set xs = set fs" by simp
  next
    assume "set xs = set fs"
    then show "S = {..<length fs}" unfolding S_def lessThan_def by (metis nth_mem)
  qed
  show ?thesis
  proof (rule that [OF d(1)])
    show "ReceivedAll d \<longleftrightarrow> set xs = set fs" using dec_inv_ReceivedAll [OF st d(2)] S by simp
    assume "set xs = set fs"
    with S d(2) have "dec_inv uid c fs {..<length fs} d" by simp
    from dec_inv_complete [OF st this]
    show "Decode decompress d = (if c then decompress (concat (map Data fs)) else Ok (concat (map Data fs)))"
      by (simp add: Decode_def)
  qed
qed

text \<open>
  C14. A message that fits 64 frames after compression is cut into frames that each fit the MTU, and
  a decoder that receives the marshalled frames in any order and with any repetition reports
  \<^verbatim>\<open>ReceivedAll\<close> exactly when every frame has arrived; then \<^verbatim>\<open>Decode\<close> returns the message. The
  hypotheses on zlib are that it compresses the message to a non-empty text and inflates it again.
\<close>

theorem message_roundtrip:
  assumes "calculateMaxDataBytes mtu src = Ok avail" "mtu < 2 ^ 32" "length uid = 16" "length src < 2 ^ 16"
    and "payload \<noteq> []" "length payload < 2 ^ 63"
    and "compress payload = Ok c" "c \<noteq> []" "length c \<le> MaxFrameCount * avail"
    and "decompress c = Ok payload"
  shows "\<exists>fs. fq_all compress (newFrameQueue uid src payload) mtu = Ok fs
    \<and> (\<forall>f \<in> set fs. length (frame_Marshal f) \<le> mtu)
    \<and> (\<forall>xs. set xs \<subseteq> set fs \<longrightarrow>
         (\<exists>d. read_packets cap (newFrameQueueDecoder uid) (map frame_Marshal xs) = Ok d
            \<and> (ReceivedAll d \<longleftrightarrow> set xs = set fs)
            \<and> (set xs = set fs \<longrightarrow> Decode decompress d = Ok payload)))"
proof -
  have m: "avail \<le> mtu" "mtu = 30 + length src + avail"
    using assms(1) by (auto simp: calculateMaxDataBytes_def Let_def split: if_splits)
  obtain fs z where fs: "fq_all compress (newFrameQueue uid src payload) mtu = Ok fs" "stream_ok uid z fs"
      "concat (map Data fs) = (if z then c else payload)"
      "\<And>f. f \<in> set fs \<Longrightarrow> Source f = src \<and> StreamId f = uid \<and> length (Data f) \<le> avail"
    by (rule fq_all_total [where uid = uid and compress = compress, OF assms(1,2,5-9)]) blast
  have wf: "frame_wf f" if "f \<in> set fs" for f
    using fs(4) [OF that] assms(2-4) m(1) by (simp add: frame_wf_def)
  show ?thesis
  proof (intro exI [of _ fs] conjI ballI allI impI)
    show "length (frame_Marshal f) \<le> mtu" if "f \<in> set fs" for f
      using fs(4) [OF that] m(2) by (simp add: length_frame_Marshal [OF wf [OF that]])
  next
    fix xs assume xs: "set xs \<subseteq> set fs"
    obtain d where d: "read_frames (newFrameQueueDecoder uid) xs = Ok d" "ReceivedAll d \<longleftrightarrow> set xs = set fs"
      "set xs = set fs \<Longrightarrow> Decode decompress d = (if z then decompress c else Ok payload)"
      by (rule stream_received [OF fs(2) xs, of decompress]) (use fs(3) in \<open>auto split: if_splits\<close>)
    moreover have "read_packets cap (newFrameQueueDecoder uid) (map frame_Marshal xs) = Ok d"
      using wf xs d(1) by (subst read_packets_Marshal) auto
    ultimately show "\<exists>d. read_packets cap (newFrameQueueDecoder uid) (map frame_Marshal xs) = Ok d
            \<and> (ReceivedAll d \<longleftrightarrow> set xs = set fs) \<and> (set xs = set fs \<longrightarrow> Decode decompress d = Ok payload)"
      using assms(10) by (cases z) auto
  qed (rule fs(1))
qed

theorem message_roundtrip_witness:
  "\<exists>fs. fq_all (\<lambda>b. Ok (rev b)) (newFrameQueue (replicate 16 7) ''n1'' [1, 2, 3]) 34 = Ok fs
    \<and> (\<forall>f \<in> set fs. length (frame_Marshal f) \<le> 34)
    \<and> (\<forall>xs. set xs \<subseteq> set fs \<longrightarrow>
         (\<exists>d. read_packets 99 (newFrameQueueDecoder (replicate 16 7)) (map frame_Marshal xs) = Ok d
            \<and> (ReceivedAll d \<longleftrightarrow> set xs = set fs)
            \<and> (set xs = set fs \<longrightarrow> Decode (\<lambda>b. Ok (rev b)) d = Ok [1, 2, 3])))"
  by (rule message_roundtrip [where avail = 2 and c = "[3, 2, 1]"])
    (simp_all add: calculateMaxDataBytes_def MaxFrameCount_def)

text \<open>
  Asking a decoder for a frame number that has not arrived, while a smaller number is missing
  too, dereferences a nil entry: the code panics.
\<close>

lemma HasReceivedFrame_gap:
  assumes "k < length (d_frames d)" "d_frames d ! k = None"
    and "\<forall>j < k. \<forall>f. d_frames d ! j = Some f \<longrightarrow> FrameNumber f \<noteq> n"
  shows "HasReceivedFrame d n = Panic"
  using has_received_gap [OF assms] by (simp add: HasReceivedFrame_def)

end
