(* ===== verification/Gossip.thy ===== *)
theory Gossip
  imports Frames
begin

section \<open>The gossip delegate and the SWIM transport (transport/swim)\<close>

text \<open>
  The delegate that memberlist calls for outgoing and incoming packets (delegate.go) and the transport
  that the node uses (transport.go), on top of frames, queues and decoders. Proved are the delivery of a
  message by gossip and by unicast, how often a frame is transmitted, and that a packet that overtakes the
  first packet of its stream makes the receiver panic.

  Memberlist, zlib, the clock and the random source are arguments. The unbuffered channel \<^verbatim>\<open>rx\<close> between
  delegate and transport is the list \<open>dg_rx\<close> of the messages sent over it.
\<close>

subsection \<open>delegate.go\<close>

record inboundMessage =
  im_source :: string
  im_data :: bytes

record retransmissionFrame =
  rt_frame :: frame
  rt_transmitCount :: int

record delegate =
  dg_sourceName :: string
  dg_retransmitMultiplier :: int
  dg_decoders :: "bytes \<rightharpoonup> frameQueueDecoder"
  dg_lastSeen :: "bytes \<rightharpoonup> int"
  dg_messageQueue :: "frameQueue list"
  dg_retransmitQueue :: "retransmissionFrame list"
  dg_framesSeen :: "bytes \<rightharpoonup> 16 word set"
  dg_rx :: "inboundMessage list"

definition WaitTimeout :: int where "WaitTimeout = 10 * 1000000000"

definition newDelegate :: "string \<Rightarrow> int \<Rightarrow> delegate" where
  "newDelegate sourceName retransmitMultiplier =
     \<lparr>dg_sourceName = sourceName, dg_retransmitMultiplier = retransmitMultiplier,
      dg_decoders = (\<lambda>_. None), dg_lastSeen = (\<lambda>_. None), dg_messageQueue = [],
      dg_retransmitQueue = [], dg_framesSeen = (\<lambda>_. None), dg_rx = []\<rparr>"

text \<open>
  \<^verbatim>\<open>math.Ceil(math.Log10(x))\<close> for a whole number \<open>x \<ge> 1\<close>, as the exact value; the rounding of the
  floating-point logarithm is not modelled.
\<close>

fun ceil_log10 :: "nat \<Rightarrow> nat" where
  "ceil_log10 n = (if n \<le> 1 then 0 else Suc (ceil_log10 ((n + 9) div 10)))"

declare ceil_log10.simps [simp del]

definition getTransmissionCount :: "int \<Rightarrow> delegate \<Rightarrow> int" where
  "getTransmissionCount memberCount d = dg_retransmitMultiplier d * int (ceil_log10 (nat (memberCount + 1)))"

text \<open>The loop of \<^verbatim>\<open>GetBroadcasts\<close> over the message queue, with the queue it leaves.\<close>

datatype popped = NoFrame | Dropped | NextFrame frame

fun pop_frame :: "(bytes \<Rightarrow> bytes res) \<Rightarrow> nat \<Rightarrow> frameQueue list \<Rightarrow> (popped \<times> frameQueue list) res" where
  "pop_frame compress mtu [] = Ok (NoFrame, [])"
| "pop_frame compress mtu (fq # queue) = (case fq_Next compress fq mtu of
     Ok (f, fq') \<Rightarrow> Ok (NextFrame f, fq' # queue)
   | Err e \<Rightarrow> if e = EOF then pop_frame compress mtu queue else Ok (Dropped, queue)
   | Panic \<Rightarrow> Panic)"

definition retransmit :: "int \<Rightarrow> delegate \<Rightarrow> bytes list \<times> delegate" where
  "retransmit memberCount d = (case dg_retransmitQueue d of
     [] \<Rightarrow> ([], d)
   | r # rs \<Rightarrow>
       let r = r\<lparr>rt_transmitCount := rt_transmitCount r + 1\<rparr>
       in ([frame_Marshal (rt_frame r)],
           d\<lparr>dg_retransmitQueue := (if rt_transmitCount r \<ge> getTransmissionCount memberCount d then rs else r # rs)\<rparr>))"

definition GetBroadcasts :: "(bytes \<Rightarrow> bytes res) \<Rightarrow> int \<Rightarrow> int \<Rightarrow> int \<Rightarrow> delegate \<Rightarrow> (bytes list \<times> delegate) res" where
  "GetBroadcasts compress memberCount overhead limit d =
     (if dg_messageQueue d = [] \<and> dg_retransmitQueue d = [] then Ok ([], d)
      else if limit - overhead < 1 then Ok ([], d)
      else bind_res (pop_frame compress (nat (limit - overhead)) (dg_messageQueue d)) (\<lambda>(p, queue).
        let d = d\<lparr>dg_messageQueue := queue\<rparr>
        in case p of
             Dropped \<Rightarrow> Ok ([], d)
           | NoFrame \<Rightarrow> Ok (retransmit memberCount d)
           | NextFrame f \<Rightarrow> Ok ([frame_Marshal f],
               if getTransmissionCount memberCount d > 1
               then d\<lparr>dg_retransmitQueue := dg_retransmitQueue d @ [\<lparr>rt_frame = f, rt_transmitCount = 1\<rparr>]\<rparr>
               else d)))"

text \<open>\<open>uid\<close> is the stream id that \<^verbatim>\<open>newFrameQueue\<close> draws.\<close>

definition Send :: "bytes \<Rightarrow> bytes \<Rightarrow> delegate \<Rightarrow> delegate" where
  "Send uid msg d = d\<lparr>dg_messageQueue := dg_messageQueue d @ [newFrameQueue uid (dg_sourceName d) msg]\<rparr>"

definition note_frame :: "frame \<Rightarrow> delegate \<Rightarrow> delegate" where
  "note_frame f d =
     (if Source f = dg_sourceName d then d
      else case dg_framesSeen d (StreamId f) of
        Some frameNumsSeen \<Rightarrow>
          if FrameNumber f \<in> frameNumsSeen then d
          else d\<lparr>dg_framesSeen := (dg_framesSeen d)(StreamId f \<mapsto> insert (FrameNumber f) frameNumsSeen),
                 dg_retransmitQueue := dg_retransmitQueue d @ [\<lparr>rt_frame = f, rt_transmitCount = 0\<rparr>]\<rparr>
      | None \<Rightarrow> d\<lparr>dg_framesSeen := (dg_framesSeen d)(StreamId f \<mapsto> {FrameNumber f})\<rparr>)"

definition complete_stream :: "(bytes \<Rightarrow> bytes res) \<Rightarrow> bytes \<Rightarrow> frameQueueDecoder \<Rightarrow> delegate \<Rightarrow> delegate res" where
  "complete_stream decompress uid decoder d =
     (let d = d\<lparr>dg_decoders := (dg_decoders d)(uid := None), dg_lastSeen := (dg_lastSeen d)(uid := None)\<rparr>
      in on_err (Decode decompress decoder) (\<lambda>_. Ok d) (\<lambda>decoded.
         on_err (decoder_SourceName decoder) (\<lambda>_. Ok d) (\<lambda>sourceName.
           Ok (d\<lparr>dg_rx := dg_rx d @ [\<lparr>im_source = sourceName, im_data = decoded\<rparr>]\<rparr>))))"

definition handleInboundMessage :: "(bytes \<Rightarrow> bytes res) \<Rightarrow> nat \<Rightarrow> int \<Rightarrow> bytes \<Rightarrow> delegate \<Rightarrow> delegate res" where
  "handleInboundMessage decompress cap now b d =
     on_err (frame_Unmarshal cap b) (\<lambda>_. Ok d) (\<lambda>f.
       let uid = StreamId f;
           (decoder, d) = (case dg_decoders d uid of
               Some decoder \<Rightarrow> (decoder, d)
             | None \<Rightarrow> (newFrameQueueDecoder uid,
                 d\<lparr>dg_decoders := (dg_decoders d)(uid \<mapsto> newFrameQueueDecoder uid),
                   dg_lastSeen := (dg_lastSeen d)(uid \<mapsto> now)\<rparr>));
           d = note_frame f d
       in bind_res (HasReceivedFrame decoder (FrameNumber f)) (\<lambda>received.
            if received then Ok d
            else on_err (ReadBytes cap decoder b) (\<lambda>_. Ok d) (\<lambda>decoder.
              let d = d\<lparr>dg_decoders := (dg_decoders d)(uid \<mapsto> decoder)\<rparr>
              in if ReceivedAll decoder then complete_stream decompress uid decoder d else Ok d)))"

text \<open>One firing of the timer of \<^verbatim>\<open>StartPruneLoop\<close>.\<close>

definition prune_tick :: "int \<Rightarrow> delegate \<Rightarrow> delegate" where
  "prune_tick now d =
     (let old = (\<lambda>uid. case dg_lastSeen d uid of Some t \<Rightarrow> now - t > WaitTimeout | None \<Rightarrow> False);
          keep = (\<lambda>uid v. if old uid then None else v)
      in d\<lparr>dg_decoders := (\<lambda>uid. keep uid (dg_decoders d uid)),
           dg_lastSeen := (\<lambda>uid. if old uid then None else dg_lastSeen d uid),
           dg_framesSeen := (\<lambda>uid. if old uid then None else dg_framesSeen d uid)\<rparr>)"

subsection \<open>transport.go\<close>

text \<open>
  The state of the listener loop. The cluster is its list of member names, \<open>send\<close> is
  \<^verbatim>\<open>cluster.SendReliable\<close> to a member, and a listener is a name: the loop starts one goroutine for
  each. A request on \<^verbatim>\<open>unicastTx\<close> that gets no answer ends with the error of its context.
\<close>

record 'l SWIMTransport =
  sw_NodeName :: string
  sw_UseGossip :: bool
  sw_connected :: bool
  sw_delegate :: delegate
  sw_listeners :: "'l list"

definition Identifier :: "'l SWIMTransport \<Rightarrow> string" where
  "Identifier t = sw_NodeName t"

definition AddRxListener :: "'l \<Rightarrow> 'l SWIMTransport \<Rightarrow> 'l SWIMTransport" where
  "AddRxListener listener t = t\<lparr>sw_listeners := sw_listeners t @ [listener]\<rparr>"

definition ClearListeners :: "'l SWIMTransport \<Rightarrow> 'l SWIMTransport" where
  "ClearListeners t = t\<lparr>sw_listeners := []\<rparr>"

definition MaxUint :: nat where "MaxUint = 2 ^ 64 - 1"

definition jumbo_frame :: "(bytes \<Rightarrow> bytes res) \<Rightarrow> bytes \<Rightarrow> string \<Rightarrow> bytes \<Rightarrow> frame res" where
  "jumbo_frame compress uid sourceName b = map_res fst (fq_Next compress (newFrameQueue uid sourceName b) MaxUint)"

text \<open>The answer to a request on \<^verbatim>\<open>unicastTx\<close>, if there is one.\<close>

definition on_unicast :: "(bytes \<Rightarrow> bytes res) \<Rightarrow> bytes \<Rightarrow> (string \<Rightarrow> bytes \<Rightarrow> unit res) \<Rightarrow> string \<Rightarrow> bytes \<Rightarrow> 'l SWIMTransport
    \<Rightarrow> unit res option" where
  "on_unicast compress uid send target b t =
     (if \<not> sw_connected t then None
      else Some (bind_res (jumbo_frame compress uid (sw_NodeName t) b) (\<lambda>jumboFrame. send target (frame_Marshal jumboFrame))))"

definition unicast :: "(bytes \<Rightarrow> bytes res) \<Rightarrow> bytes \<Rightarrow> (string \<Rightarrow> bytes \<Rightarrow> unit res) \<Rightarrow> string \<Rightarrow> bytes \<Rightarrow> 'l SWIMTransport \<Rightarrow> unit res" where
  "unicast compress uid send target b t = (case on_unicast compress uid send target b t of
     None \<Rightarrow> Err (OtherError ''context deadline exceeded'') | Some r \<Rightarrow> r)"

definition Unicast :: "(bytes \<Rightarrow> bytes res) \<Rightarrow> bytes \<Rightarrow> (string \<Rightarrow> bytes \<Rightarrow> unit res) \<Rightarrow> string list \<Rightarrow> string \<Rightarrow> bytes
    \<Rightarrow> 'l SWIMTransport \<Rightarrow> unit res" where
  "Unicast compress uid send members targetIdentifier b t =
     (if targetIdentifier \<in> set members then unicast compress uid send targetIdentifier b t else Err ErrTargetNotFound)"

text \<open>\<open>pick\<close> is the number drawn by \<^verbatim>\<open>rand.Intn\<close>, which panics on 0.\<close>

definition UnicastRandomNeighbour :: "(bytes \<Rightarrow> bytes res) \<Rightarrow> bytes \<Rightarrow> (string \<Rightarrow> bytes \<Rightarrow> unit res) \<Rightarrow> string list \<Rightarrow> nat \<Rightarrow> bytes
    \<Rightarrow> 'l SWIMTransport \<Rightarrow> unit res" where
  "UnicastRandomNeighbour compress uid send members pick b t =
     (if members = [] then Err ErrClusterEmpty
      else
        let neighbours = remove1 (sw_NodeName t) members
        in if neighbours = [] then Panic
           else unicast compress uid send (neighbours ! (pick mod length neighbours)) b t)"

text \<open>A message on \<^verbatim>\<open>tx\<close>, and the results of the unicasts it leads to; stream ids come from \<open>uids\<close>.\<close>

definition on_broadcast :: "(bytes \<Rightarrow> bytes res) \<Rightarrow> (nat \<Rightarrow> bytes) \<Rightarrow> (string \<Rightarrow> bytes \<Rightarrow> unit res) \<Rightarrow> string list \<Rightarrow> bytes
    \<Rightarrow> 'l SWIMTransport \<Rightarrow> (string \<times> unit res) list \<times> 'l SWIMTransport" where
  "on_broadcast compress uids send members b t =
     (if \<not> sw_connected t then ([], t)
      else if sw_UseGossip t then ([], t\<lparr>sw_delegate := Send (uids 0) b (sw_delegate t)\<rparr>)
      else (map (\<lambda>(i, member). (member, bind_res (jumbo_frame compress (uids (2 * i)) (sw_NodeName t) b)
                (\<lambda>frame. unicast compress (uids (2 * i + 1)) send member (Data frame) t)))
              (filter (\<lambda>(i, member). member \<noteq> sw_NodeName t) (enumerate 0 members)), t))"

text \<open>A message on \<^verbatim>\<open>rx\<close>: the calls of the listeners. A firing of the timer, with the result of \<^verbatim>\<open>connect\<close>.\<close>

definition on_rx :: "inboundMessage \<Rightarrow> 'l SWIMTransport \<Rightarrow> ('l \<times> string \<times> bytes) list" where
  "on_rx msg t = map (\<lambda>listener. (listener, im_source msg, im_data msg)) (sw_listeners t)"

definition on_timer :: "unit res \<Rightarrow> 'l SWIMTransport \<Rightarrow> 'l SWIMTransport" where
  "on_timer joined t = (if \<not> sw_connected t \<and> is_ok joined then t\<lparr>sw_connected := True\<rparr> else t)"

text \<open>Calls of \<^verbatim>\<open>GetBroadcasts\<close> and of \<^verbatim>\<open>NotifyMsg\<close> one after the other; a packet comes with its time.\<close>

fun broadcasts :: "(bytes \<Rightarrow> bytes res) \<Rightarrow> int \<Rightarrow> int \<Rightarrow> int \<Rightarrow> nat \<Rightarrow> delegate \<Rightarrow> (bytes list \<times> delegate) res" where
  "broadcasts compress m overhead limit 0 d = Ok ([], d)"
| "broadcasts compress m overhead limit (Suc n) d =
     bind_res (GetBroadcasts compress m overhead limit d) (\<lambda>(ps, d).
       map_res (\<lambda>(qs, d). (ps @ qs, d)) (broadcasts compress m overhead limit n d))"

fun receive_all :: "(bytes \<Rightarrow> bytes res) \<Rightarrow> nat \<Rightarrow> (int \<times> bytes) list \<Rightarrow> delegate \<Rightarrow> delegate res" where
  "receive_all decompress cap [] d = Ok d"
| "receive_all decompress cap (p # ps) d =
     bind_res (handleInboundMessage decompress cap (fst p) (snd p) d) (receive_all decompress cap ps)"

subsection \<open>How often a frame is transmitted\<close>

lemma ceil_log10_le: "1 \<le> n \<Longrightarrow> ceil_log10 n \<le> k \<longleftrightarrow> n \<le> 10 ^ k"
proof (induction n arbitrary: k rule: ceil_log10.induct)
  case (1 n)
  show ?case
  proof (cases "n \<le> 1")
    case False
    have "(n + 9) div 10 \<le> 10 ^ j \<longleftrightarrow> n \<le> 10 ^ Suc j" for j by simp presburger
    then show ?thesis using 1 False by (cases k) (auto simp: ceil_log10.simps [of n])
  next
    case True
    then have "n = 1" using 1(2) by simp
    then show ?thesis by (simp add: ceil_log10.simps [of "Suc 0"])
  qed
qed

definition remaining :: "int \<Rightarrow> retransmissionFrame \<Rightarrow> nat" where
  "remaining count r = nat (max 1 (count - rt_transmitCount r))"

definition schedule :: "int \<Rightarrow> retransmissionFrame list \<Rightarrow> bytes list" where
  "schedule count rs = concat (map (\<lambda>r. replicate (remaining count r) (frame_Marshal (rt_frame r))) rs)"

lemma schedule_simps [simp]:
  "schedule count [] = []"
  "schedule count (r # rs) = replicate (remaining count r) (frame_Marshal (rt_frame r)) @ schedule count rs"
  "schedule count (rs @ rs') = schedule count rs @ schedule count rs'"
  by (simp_all add: schedule_def)

lemma getTransmissionCount_upd [simp]:
  "getTransmissionCount m (d\<lparr>dg_messageQueue := q\<rparr>) = getTransmissionCount m d"
  "getTransmissionCount m (d\<lparr>dg_retransmitQueue := rq\<rparr>) = getTransmissionCount m d"
  by (simp_all add: getTransmissionCount_def)

text \<open>Without new messages, the retransmission queue is worked off frame by frame.\<close>

lemma broadcasts_retransmit:
  assumes "dg_messageQueue d = []" "overhead < limit"
  shows "map_res fst (broadcasts compress m overhead limit n d)
    = Ok (take n (schedule (getTransmissionCount m d) (dg_retransmitQueue d)))"
  using assms(1)
proof (induction n arbitrary: d)
  case (Suc n)
  define c where "c = getTransmissionCount m d"
  show ?case
  proof (cases "dg_retransmitQueue d")
    case Nil
    then have "GetBroadcasts compress m overhead limit d = Ok ([], d)" using Suc.prems by (simp add: GetBroadcasts_def)
    then show ?thesis using Suc.IH [OF Suc.prems] Nil by (auto split: prod.split)
  next
    case (Cons r rs)
    define r' where "r' = r\<lparr>rt_transmitCount := rt_transmitCount r + 1\<rparr>"
    define d' where "d' = d\<lparr>dg_retransmitQueue := (if rt_transmitCount r' \<ge> c then rs else r' # rs)\<rparr>"
    have g: "GetBroadcasts compress m overhead limit d = Ok ([frame_Marshal (rt_frame r)], d')"
      using Cons Suc.prems assms(2) by (simp add: GetBroadcasts_def retransmit_def Let_def r'_def d'_def c_def)
    have "schedule c (dg_retransmitQueue d) = frame_Marshal (rt_frame r) # schedule c (dg_retransmitQueue d')"
    proof (cases "rt_transmitCount r' \<ge> c")
      case False
      then have "remaining c r = Suc (remaining c r')" by (simp add: remaining_def r'_def Suc_nat_eq_nat_zadd1)
      with False Cons show ?thesis by (simp add: d'_def r'_def)
    qed (simp add: Cons d'_def r'_def remaining_def)
    moreover have "getTransmissionCount m d' = c" "dg_messageQueue d' = []" using Suc.prems by (simp_all add: d'_def c_def)
    ultimately show ?thesis using Suc.IH [of d'] g by (auto simp: c_def [symmetric] split: prod.split)
  qed
qed simp

definition repeats :: "int \<Rightarrow> frame list \<Rightarrow> retransmissionFrame list" where
  "repeats count fs = (if count > 1 then map (\<lambda>f. \<lparr>rt_frame = f, rt_transmitCount = 1\<rparr>) fs else [])"

lemma broadcasts_message:
  assumes "dg_messageQueue d = [fq]" "overhead < limit" "fq_read compress fuel fq (nat (limit - overhead)) = Ok fs"
  shows "map_res fst (broadcasts compress m overhead limit n d)
    = Ok (take n (map frame_Marshal fs @ schedule (getTransmissionCount m d) (dg_retransmitQueue d @ repeats (getTransmissionCount m d) fs)))"
  using assms(1,3)
proof (induction n arbitrary: d fq fuel fs)
  case (Suc n)
  let ?mtu = "nat (limit - overhead)" and ?c = "getTransmissionCount m d"
  obtain fuel' where fuel: "fuel = Suc fuel'" using Suc.prems(2) by (cases fuel) auto
  consider f fq' fs' where "fq_Next compress fq ?mtu = Ok (f, fq')" "fq_read compress fuel' fq' ?mtu = Ok fs'" "fs = f # fs'"
    | "fq_Next compress fq ?mtu = Err EOF" "fs = []"
    using Suc.prems(2) fuel by (auto split: res.split_asm if_split_asm)
  then show ?case
  proof cases
    case 1
    define d' where "d' = d\<lparr>dg_messageQueue := [fq'], dg_retransmitQueue := dg_retransmitQueue d @ repeats ?c [f]\<rparr>"
    have "GetBroadcasts compress m overhead limit d = Ok ([frame_Marshal f], d')"
      using 1(1) Suc.prems(1) assms(2) by (simp add: GetBroadcasts_def repeats_def d'_def Let_def)
    moreover have "getTransmissionCount m d' = ?c" "dg_messageQueue d' = [fq']"
        "dg_retransmitQueue d' @ repeats ?c fs' = dg_retransmitQueue d @ repeats ?c fs"
      by (simp_all add: d'_def repeats_def 1(3))
    ultimately show ?thesis using Suc.IH [OF _ 1(2), of d'] 1(3) by (auto split: prod.split)
  next
    case 2
    then have "GetBroadcasts compress m overhead limit d = GetBroadcasts compress m overhead limit (d\<lparr>dg_messageQueue := []\<rparr>)"
      using Suc.prems(1) assms(2) by (auto simp: GetBroadcasts_def Let_def retransmit_def)
    then have "broadcasts compress m overhead limit (Suc n) d = broadcasts compress m overhead limit (Suc n) (d\<lparr>dg_messageQueue := []\<rparr>)"
      by simp
    with 2(2) show ?thesis
      using broadcasts_retransmit [OF _ assms(2), of "d\<lparr>dg_messageQueue := []\<rparr>" compress m "Suc n"]
      by (simp add: repeats_def del: broadcasts.simps)
  qed
qed simp

lemma schedule_repeats:
  "schedule c (repeats c fs) = concat (map (\<lambda>f. replicate (nat (c - 1)) (frame_Marshal f)) fs)"
proof (cases "c > 1")
  case True
  then show ?thesis by (induction fs) (simp_all add: repeats_def remaining_def)
qed (simp add: repeats_def)

subsection \<open>Receiving a stream\<close>

lemma note_frame_simps [simp]:
  "dg_decoders (note_frame f d) = dg_decoders d" "dg_rx (note_frame f d) = dg_rx d"
  "dg_lastSeen (note_frame f d) = dg_lastSeen d" "dg_sourceName (note_frame f d) = dg_sourceName d"
  by (simp_all add: note_frame_def split: option.split)

text \<open>The packet numbers arrive in order, apart from repetitions, when \<open>k\<close> frames have arrived before.\<close>

fun in_order :: "nat \<Rightarrow> nat list \<Rightarrow> bool" where
  "in_order k [] \<longleftrightarrow> True"
| "in_order k (j # js) \<longleftrightarrow> j \<le> k \<and> in_order (if j = k then Suc k else k) js"

lemma in_order_bound: "in_order k (js @ is') \<Longrightarrow> n \<notin> set js \<Longrightarrow> k \<le> n \<Longrightarrow> j \<in> set js \<Longrightarrow> j < n"
proof (induction js arbitrary: k)
  case (Cons i js)
  then have "i < n" "in_order (if i = k then Suc k else k) (js @ is')" "(if i = k then Suc k else k) \<le> n" by auto
  with Cons show ?case by auto
qed simp

definition receiving :: "bytes \<Rightarrow> bool \<Rightarrow> frame list \<Rightarrow> nat \<Rightarrow> delegate \<Rightarrow> bool" where
  "receiving uid c fs k d \<longleftrightarrow> k < length fs \<and> (case dg_decoders d uid of
     None \<Rightarrow> k = 0 | Some decoder \<Rightarrow> 0 < k \<and> dec_inv uid c fs {..<k} decoder)"

text \<open>A decoder with the first \<open>k\<close> frames.\<close>

lemma dec_inv_prefix:
  assumes "dec_inv uid c fs {..<k} decoder" "k \<le> length fs"
  shows "d_frames decoder = map Some (take k fs)"
proof -
  have "length (d_frames decoder) = k"
  proof (cases k)
    case (Suc j)
    then have "Max {..<k} = j" by (intro Max_eqI) auto
    with assms(1) Suc show ?thesis by (simp add: dec_inv_def lessThan_empty_iff)
  qed (use assms(1) in \<open>simp add: dec_inv_def\<close>)
  with assms show ?thesis by (intro nth_equalityI) (auto simp: dec_inv_def)
qed

lemma HasReceivedFrame_prefix:
  assumes st: "stream_ok uid c fs" and inv: "dec_inv uid c fs {..<k} decoder" and "k < length fs" "j \<le> k"
  shows "HasReceivedFrame decoder (FrameNumber (fs ! j)) = Ok (j < k)"
proof -
  have num: "unat (FrameNumber (fs ! i)) = i" if "i < length fs" for i using st that by (simp add: stream_ok_def)
  have "FrameNumber (fs ! j) \<in> FrameNumber ` set (take k fs) \<longleftrightarrow> j < k"
  proof
    assume "FrameNumber (fs ! j) \<in> FrameNumber ` set (take k fs)"
    then obtain i where i: "i < k" "FrameNumber (fs ! j) = FrameNumber (fs ! i)"
      using assms(3) by (auto simp: in_set_conv_nth)
    then show "j < k" using num [of i] num [of j] assms(3,4) by simp
  next
    assume "j < k"
    then show "FrameNumber (fs ! j) \<in> FrameNumber ` set (take k fs)" using assms(3) by (force simp: in_set_conv_nth)
  qed
  then show ?thesis
    using dec_inv_prefix [OF inv] assms(3) by (simp add: HasReceivedFrame_def has_received_full)
qed

text \<open>One packet: the decoder of the stream before it, and what the delegate does with it.\<close>

definition decoder_for :: "bytes \<Rightarrow> delegate \<Rightarrow> frameQueueDecoder" where
  "decoder_for uid d = (case dg_decoders d uid of Some decoder \<Rightarrow> decoder | None \<Rightarrow> newFrameQueueDecoder uid)"

lemma handleInboundMessage_frame:
  assumes "frame_wf f" "StreamId f = uid"
  obtains d1 where "dg_rx d1 = dg_rx d" "dg_decoders d1 = (dg_decoders d)(uid \<mapsto> decoder_for uid d)"
    and "handleInboundMessage decompress cap now (frame_Marshal f) d =
      bind_res (HasReceivedFrame (decoder_for uid d) (FrameNumber f)) (\<lambda>received.
        if received then Ok d1
        else on_err (ReadFrame (decoder_for uid d) f) (\<lambda>_. Ok d1) (\<lambda>decoder.
          let d2 = d1\<lparr>dg_decoders := (dg_decoders d1)(uid \<mapsto> decoder)\<rparr>
          in if ReceivedAll decoder then complete_stream decompress uid decoder d2 else Ok d2))"
proof (rule that)
  let ?d1 = "note_frame f (case dg_decoders d uid of Some _ \<Rightarrow> d | None \<Rightarrow>
      d\<lparr>dg_decoders := (dg_decoders d)(uid \<mapsto> newFrameQueueDecoder uid), dg_lastSeen := (dg_lastSeen d)(uid \<mapsto> now)\<rparr>)"
  show "dg_rx ?d1 = dg_rx d" by (simp split: option.split)
  show "dg_decoders ?d1 = (dg_decoders d)(uid \<mapsto> decoder_for uid d)"
    by (simp add: decoder_for_def fun_upd_idem split: option.split)
  show "handleInboundMessage decompress cap now (frame_Marshal f) d =
      bind_res (HasReceivedFrame (decoder_for uid d) (FrameNumber f)) (\<lambda>received.
        if received then Ok ?d1
        else on_err (ReadFrame (decoder_for uid d) f) (\<lambda>_. Ok ?d1) (\<lambda>decoder.
          let d2 = ?d1\<lparr>dg_decoders := (dg_decoders ?d1)(uid \<mapsto> decoder)\<rparr>
          in if ReceivedAll decoder then complete_stream decompress uid decoder d2 else Ok d2))"
    using frame_codec.dec_enc [OF assms(1), of cap] assms(2)
    by (cases "dg_decoders d uid") (simp_all add: handleInboundMessage_def ReadBytes_def decoder_for_def Let_def cong: if_cong)
qed

lemma complete_stream_Ok:
  assumes "stream_ok uid c fs" "dec_inv uid c fs {..<length fs} decoder" "\<And>f. f \<in> set fs \<Longrightarrow> Source f = src"
    and "(if c then decompress (concat (map Data fs)) else Ok (concat (map Data fs))) = Ok payload"
  shows "complete_stream decompress uid decoder d = Ok (d\<lparr>dg_decoders := (dg_decoders d)(uid := None),
    dg_lastSeen := (dg_lastSeen d)(uid := None), dg_rx := dg_rx d @ [\<lparr>im_source = src, im_data = payload\<rparr>]\<rparr>)"
proof -
  note fin = dec_inv_complete [OF assms(1,2)]
  have "decoder_SourceName decoder = Ok src"
    using assms(1,3) fin(1) by (cases fs) (auto simp: decoder_SourceName_def stream_ok_def)
  moreover have "Decode decompress decoder = Ok payload" using fin assms(4) by (simp add: Decode_def)
  ultimately show ?thesis by (simp add: complete_stream_def Let_def)
qed

lemma receive_packet:
  assumes st: "stream_ok uid c fs" and wf: "\<And>f. f \<in> set fs \<Longrightarrow> frame_wf f" and src: "\<And>f. f \<in> set fs \<Longrightarrow> Source f = src"
    and pay: "(if c then decompress (concat (map Data fs)) else Ok (concat (map Data fs))) = Ok payload"
    and rec: "receiving uid c fs k d" and j: "j \<le> k"
  shows "\<exists>d'. handleInboundMessage decompress cap now (frame_Marshal (fs ! j)) d = Ok d' \<and>
    (if j = k \<and> Suc k = length fs
     then dg_rx d' = dg_rx d @ [\<lparr>im_source = src, im_data = payload\<rparr>] \<and> dg_decoders d' = (dg_decoders d)(uid := None)
     else dg_rx d' = dg_rx d \<and> (\<exists>decoder. dg_decoders d' = (dg_decoders d)(uid \<mapsto> decoder))
       \<and> receiving uid c fs (if j = k then Suc k else k) d')"
proof -
  have k: "k < length fs" using rec by (simp add: receiving_def)
  have inv: "dec_inv uid c fs {..<k} (decoder_for uid d)"
    using rec st by (auto simp: receiving_def decoder_for_def stream_ok_def dec_inv_new split: option.split_asm)
  have f: "frame_wf (fs ! j)" "StreamId (fs ! j) = uid" using wf st j k by (auto simp: stream_ok_def)
  obtain d1 where d1: "dg_rx d1 = dg_rx d" "dg_decoders d1 = (dg_decoders d)(uid \<mapsto> decoder_for uid d)"
    and h: "handleInboundMessage decompress cap now (frame_Marshal (fs ! j)) d =
      bind_res (HasReceivedFrame (decoder_for uid d) (FrameNumber (fs ! j))) (\<lambda>received.
        if received then Ok d1
        else on_err (ReadFrame (decoder_for uid d) (fs ! j)) (\<lambda>_. Ok d1) (\<lambda>decoder.
          let d2 = d1\<lparr>dg_decoders := (dg_decoders d1)(uid \<mapsto> decoder)\<rparr>
          in if ReceivedAll decoder then complete_stream decompress uid decoder d2 else Ok d2))"
    by (rule handleInboundMessage_frame [OF f, of d decompress cap now]) blast
  note has = HasReceivedFrame_prefix [OF st inv k j]
  show ?thesis
  proof (cases "j = k")
    case False
    with j rec d1 inv has h show ?thesis by (auto simp: receiving_def split: option.split_asm)
  next
    case True
    obtain decoder where r: "ReadFrame (decoder_for uid d) (fs ! k) = Ok decoder" "dec_inv uid c fs {..<Suc k} decoder"
      using ReadFrame_dec_inv [OF st inv k] by (auto simp: lessThan_Suc)
    have all: "ReceivedAll decoder \<longleftrightarrow> Suc k = length fs"
      using dec_inv_ReceivedAll [OF st r(2)] by (metis lessThan_eq_iff)
    show ?thesis
    proof (cases "Suc k = length fs")
      case True
      have "dec_inv uid c fs {..<length fs} decoder" using r(2) True by simp
      note cmpl = complete_stream_Ok [where decompress = decompress, OF st this src pay]
      show ?thesis using h has \<open>j = k\<close> r(1) all True d1 by (simp add: cmpl Let_def)
    next
      case False
      then show ?thesis using h has \<open>j = k\<close> r all d1 k by (simp add: Let_def receiving_def) blast
    qed
  qed
qed

lemma receive_stream:
  assumes st: "stream_ok uid c fs" and wf: "\<And>f. f \<in> set fs \<Longrightarrow> frame_wf f" and src: "\<And>f. f \<in> set fs \<Longrightarrow> Source f = src"
    and pay: "(if c then decompress (concat (map Data fs)) else Ok (concat (map Data fs))) = Ok payload"
    and "receiving uid c fs k d" "in_order k (map snd js @ [length fs - 1])" "length fs - 1 \<notin> set (map snd js)"
  shows "\<exists>d'. receive_all decompress cap (map (\<lambda>(t, j). (t, frame_Marshal (fs ! j))) (js @ [(now, length fs - 1)])) d = Ok d'
    \<and> dg_rx d' = dg_rx d @ [\<lparr>im_source = src, im_data = payload\<rparr>] \<and> dg_decoders d' = (dg_decoders d)(uid := None)"
  using assms(5-7)
proof (induction js arbitrary: k d)
  case Nil
  then have "k = length fs - 1" "length fs - 1 \<le> k" "Suc k = length fs" by (auto simp: receiving_def)
  then show ?case
    using receive_packet [where decompress = decompress and cap = cap and now = now, OF st wf src pay Nil(1), of k] by (auto simp: fun_eq_iff)
next
  case (Cons p js)
  obtain t j where p: "p = (t, j)" by (cases p)
  have j: "j \<le> k" "\<not> (j = k \<and> Suc k = length fs)" using Cons.prems p by auto
  obtain d1 decoder where d1: "handleInboundMessage decompress cap t (frame_Marshal (fs ! j)) d = Ok d1" "dg_rx d1 = dg_rx d"
      "dg_decoders d1 = (dg_decoders d)(uid \<mapsto> decoder)" "receiving uid c fs (if j = k then Suc k else k) d1"
    using receive_packet [where decompress = decompress and cap = cap and now = t, OF st wf src pay Cons.prems(1) j(1)] j(2) by auto
  have "in_order (if j = k then Suc k else k) (map snd js @ [length fs - 1])" "length fs - 1 \<notin> set (map snd js)"
    using Cons.prems(2,3) p by simp_all
  from Cons.IH [OF d1(4) this] show ?case using d1(1-3) p by (auto simp: fun_eq_iff)
qed

text \<open>The frames of a message, as the sender's queue cuts it.\<close>

definition fits :: "(bytes \<Rightarrow> bytes res) \<Rightarrow> (bytes \<Rightarrow> bytes res) \<Rightarrow> nat \<Rightarrow> string \<Rightarrow> bytes \<Rightarrow> bytes \<Rightarrow> bool" where
  "fits compress decompress mtu src uid payload \<longleftrightarrow>
     mtu < 2 ^ 32 \<and> length uid = 16 \<and> length src < 2 ^ 16 \<and> payload \<noteq> [] \<and> length payload < 2 ^ 63
     \<and> (case (calculateMaxDataBytes mtu src, compress payload) of
          (Ok avail, Ok c) \<Rightarrow> c \<noteq> [] \<and> length c \<le> MaxFrameCount * avail \<and> decompress c = Ok payload
        | _ \<Rightarrow> False)"

lemma message_frames:
  assumes "fits compress decompress mtu src uid payload"
  obtains fs z where "fq_all compress (newFrameQueue uid src payload) mtu = Ok fs" "stream_ok uid z fs"
    "\<And>f. f \<in> set fs \<Longrightarrow> frame_wf f" "\<And>f. f \<in> set fs \<Longrightarrow> Source f = src"
    "(if z then decompress (concat (map Data fs)) else Ok (concat (map Data fs))) = Ok payload" "0 < mtu"
proof -
  obtain avail c where a: "calculateMaxDataBytes mtu src = Ok avail" and c: "compress payload = Ok c" "c \<noteq> []"
      "length c \<le> MaxFrameCount * avail" "decompress c = Ok payload"
    and s: "mtu < 2 ^ 32" "length uid = 16" "length src < 2 ^ 16" "payload \<noteq> []" "length payload < 2 ^ 63"
    using assms by (auto simp: fits_def split: res.split_asm)
  have m: "avail \<le> mtu" "0 < mtu" using a by (auto simp: calculateMaxDataBytes_def Let_def split: if_splits)
  obtain fs z where fs: "fq_all compress (newFrameQueue uid src payload) mtu = Ok fs" "stream_ok uid z fs"
      "concat (map Data fs) = (if z then c else payload)"
      "\<And>f. f \<in> set fs \<Longrightarrow> Source f = src \<and> StreamId f = uid \<and> length (Data f) \<le> avail"
    by (rule fq_all_total [where uid = uid and compress = compress, OF a s(1,4,5) c(1-3)]) blast
  have "frame_wf f" if "f \<in> set fs" for f using fs(4) [OF that] s m(1) by (simp add: frame_wf_def)
  with fs c(4) m(2) show ?thesis by (intro that [of fs z]) simp_all
qed


text \<open>
  C32. A delegate with nothing else to send transmits every frame of a message as often as
  \<^verbatim>\<open>getTransmissionCount\<close> says, at least once: the calls of \<^verbatim>\<open>GetBroadcasts\<close> return all frames once, then
  each frame as often as it still has to be sent, and then nothing.
\<close>

theorem gossip_transmissions:
  assumes "fits compress decompress (nat (limit - overhead)) (dg_sourceName a) uid payload"
    and "dg_messageQueue a = []" "dg_retransmitQueue a = []"
  shows "\<exists>fs. fq_all compress (newFrameQueue uid (dg_sourceName a) payload) (nat (limit - overhead)) = Ok fs
    \<and> (\<forall>n. map_res fst (broadcasts compress m overhead limit n (Send uid payload a))
         = Ok (take n (map frame_Marshal fs @ concat (map (\<lambda>f. replicate (nat (getTransmissionCount m a - 1)) (frame_Marshal f)) fs))))"
proof -
  obtain fs where fs: "fq_all compress (newFrameQueue uid (dg_sourceName a) payload) (nat (limit - overhead)) = Ok fs"
      and lim: "overhead < limit"
    using message_frames [OF assms(1)] by (metis zero_less_nat_eq diff_gt_0_iff_gt)
  let ?a = "Send uid payload a"
  have q: "dg_messageQueue ?a = [newFrameQueue uid (dg_sourceName a) payload]" "dg_retransmitQueue ?a = []"
    using assms(2,3) by (simp_all add: Send_def)
  have "getTransmissionCount m ?a = getTransmissionCount m a" by (simp add: Send_def)
  then show ?thesis
    using broadcasts_message [OF q(1) lim, of compress "Suc MaxFrameCount" fs m] fs q(2)
    by (intro exI [of _ fs]) (simp add: fq_all_def schedule_repeats)
qed

text \<open>
  C33. A packet that overtakes the first packet of its stream stops the receiver: when the first packet
  of a stream that a delegate is notified of is not the packet with number 0, the next packet of the
  stream, whichever it is, makes \<^verbatim>\<open>handleInboundMessage\<close> panic. Repetitions that arrive after the stream
  was complete do the same, because the decoder is gone then.
\<close>

theorem overtaking_packet_panics:
  assumes "fits compress decompress mtu src uid payload"
    and "fq_all compress (newFrameQueue uid src payload) mtu = Ok fs" "0 < i" "i < length fs" "j < length fs"
    and "dg_decoders b uid = None"
  shows "receive_all decompress cap [(t, frame_Marshal (fs ! i)), (t', frame_Marshal (fs ! j))] b = Panic"
proof -
  obtain z where st: "stream_ok uid z fs" and wf: "\<And>f. f \<in> set fs \<Longrightarrow> frame_wf f"
    using message_frames [OF assms(1)] assms(2) by (metis res.inject(1))
  have f: "frame_wf (fs ! k)" "StreamId (fs ! k) = uid" if "k < length fs" for k using st wf that by (auto simp: stream_ok_def)
  have new: "decoder_for uid b = newFrameQueueDecoder uid" using assms(6) by (simp add: decoder_for_def)
  have no: "HasReceivedFrame (newFrameQueueDecoder uid) n = Ok False" for n
    by (simp add: HasReceivedFrame_def newFrameQueueDecoder_def)
  have ne: "fs \<noteq> []" using assms(4) by auto
  obtain decoder where r: "ReadFrame (newFrameQueueDecoder uid) (fs ! i) = Ok decoder" "dec_inv uid z fs {i} decoder"
    using ReadFrame_dec_inv [OF st dec_inv_new [OF ne] assms(4)] by auto
  have "0 \<in> {..<length fs}" "0 \<notin> {i}" using assms(3,4) by auto
  then have "\<not> ReceivedAll decoder" using dec_inv_ReceivedAll [OF st r(2)] by blast
  then obtain b' where b': "handleInboundMessage decompress cap t (frame_Marshal (fs ! i)) b = Ok b'" "dg_decoders b' uid = Some decoder"
    by (rule_tac handleInboundMessage_frame [OF f [OF assms(4)], of b decompress cap t]) (simp add: new no r(1) Let_def)
  have "0 < length (d_frames decoder)" "d_frames decoder ! 0 = None" using r(2) assms(3) by (auto simp: dec_inv_def)
  then have "HasReceivedFrame decoder n = Panic" for n by (intro HasReceivedFrame_gap [of 0]) auto
  then have "handleInboundMessage decompress cap t' (frame_Marshal (fs ! j)) b' = Panic"
    by (rule_tac handleInboundMessage_frame [OF f [OF assms(5)], of b' decompress cap t']) (simp add: decoder_for_def b'(2))
  with b'(1) show ?thesis by simp
qed

subsection \<open>Unicast\<close>

lemma jumbo_frame_eq:
  assumes "b \<noteq> []" "30 + length src + length b < 2 ^ 64"
  shows "jumbo_frame compress uid src b = Ok (newFrame False uid 0 True src b)"
proof -
  have "30 + length src + length b < 18446744073709551616" "0 < length b" using assms by simp_all
  then have "\<not> 18446744073709551585 \<le> length src" "\<not> 18446744073709551585 - length src < length b" by linarith+
  with assms(1) show ?thesis
    by (simp add: jumbo_frame_def fq_Next_def newFrameQueue_def calculateMaxDataBytes_def MaxUint_def MaxFrameCount_def subslice_def Let_def)
qed

text \<open>
  C34. A message sent by unicast, or by a broadcast without gossip, reaches its target whole: the
  transport hands one packet to \<^verbatim>\<open>SendReliable\<close>, for every other member in the case of a broadcast, and a
  delegate that is notified of that packet, and has no stream of that id, hands the message and the name
  of the sending node to its transport, which calls all its listeners with them.
\<close>

theorem unicast_delivery:
  assumes "sw_connected t" "b \<noteq> []" "length b < 2 ^ 32" "length (sw_NodeName t) < 2 ^ 16"
  shows "\<exists>packet.
      (\<forall>uid send members target. target \<in> set members \<longrightarrow> Unicast compress uid send members target b t = send target (packet uid))
    \<and> (\<forall>uids send members. \<not> sw_UseGossip t \<longrightarrow> fst (on_broadcast compress uids send members b t)
         = map (\<lambda>(i, m). (m, send m (packet (uids (2 * i + 1))))) (filter (\<lambda>(i, m). m \<noteq> sw_NodeName t) (enumerate 0 members)))
    \<and> (\<forall>uid d t'. length uid = 16 \<and> dg_decoders d uid = None \<longrightarrow>
         (\<exists>d'. handleInboundMessage decompress cap now (packet uid) d = Ok d' \<and> dg_decoders d' = dg_decoders d
            \<and> dg_rx d' = dg_rx d @ [\<lparr>im_source = sw_NodeName t, im_data = b\<rparr>]
            \<and> on_rx (last (dg_rx d')) t' = map (\<lambda>listener. (listener, sw_NodeName t, b)) (sw_listeners t')))"
proof -
  let ?f = "\<lambda>uid. newFrame False uid 0 True (sw_NodeName t) b"
  have jumbo: "jumbo_frame compress uid (sw_NodeName t) b = Ok (?f uid)" for uid by (rule jumbo_frame_eq) (use assms in simp_all)
  have uni: "unicast compress uid send target b t = send target (frame_Marshal (?f uid))" for uid send target
    using assms(1) jumbo by (simp add: unicast_def on_unicast_def)
  have rec: "\<exists>d'. handleInboundMessage decompress cap now (frame_Marshal (?f uid)) d = Ok d' \<and> dg_decoders d' = dg_decoders d
      \<and> dg_rx d' = dg_rx d @ [\<lparr>im_source = sw_NodeName t, im_data = b\<rparr>]
      \<and> on_rx (last (dg_rx d')) t' = map (\<lambda>listener. (listener, sw_NodeName t, b)) (sw_listeners t')"
    if "length uid = 16 \<and> dg_decoders d uid = None" for uid d t'
  proof -
    have st: "stream_ok uid False [?f uid]" "frame_wf (?f uid)" "Source (?f uid) = sw_NodeName t"
      using that assms by (simp_all add: stream_ok_def frame_wf_def newFrame_def MaxFrameCount_def)
    have "receiving uid False [?f uid] 0 d" using that by (simp add: receiving_def)
    from receive_packet [OF st(1) _ _ _ this, of "sw_NodeName t" decompress b 0 cap now] that st(2,3)
    show ?thesis by (auto simp: newFrame_def fun_upd_idem on_rx_def)
  qed
  have "Data (?f uid) = b" for uid by (simp add: newFrame_def)
  then show ?thesis
    using jumbo assms(1)
    by (intro exI [of _ "\<lambda>uid. frame_Marshal (?f uid)"] conjI allI impI rec)
      (auto simp: Unicast_def on_broadcast_def uni)
qed

subsection \<open>Two small nodes\<close>

text \<open>A stand-in for zlib, a stream id and a transport.\<close>

definition demo_zip :: "bytes \<Rightarrow> bytes res" where "demo_zip b = Ok (rev b)"

definition demo_uid :: bytes where "demo_uid = replicate 16 7"

definition demo_transport :: "nat SWIMTransport" where
  "demo_transport = \<lparr>sw_NodeName = ''n1'', sw_UseGossip = False, sw_connected = True,
     sw_delegate = newDelegate ''n1'' 2, sw_listeners = [0]\<rparr>"

lemma demo_fits: "fits demo_zip demo_zip 34 ''n1'' demo_uid [1, 2, 3]" by code_simp

lemma demo_fits_delegate: "fits demo_zip demo_zip (nat (40 - 6)) (dg_sourceName (newDelegate ''n1'' 2)) demo_uid [1, 2, 3]"
  using demo_fits by (simp add: newDelegate_def)


theorem gossip_transmissions_witness:
  "\<exists>fs. fq_all demo_zip (newFrameQueue demo_uid (dg_sourceName (newDelegate ''n1'' 2)) [1, 2, 3]) (nat (40 - 6)) = Ok fs
    \<and> (\<forall>n. map_res fst (broadcasts demo_zip 9 6 40 n (Send demo_uid [1, 2, 3] (newDelegate ''n1'' 2)))
         = Ok (take n (map frame_Marshal fs @ concat (map (\<lambda>f. replicate (nat (getTransmissionCount 9 (newDelegate ''n1'' 2) - 1)) (frame_Marshal f)) fs))))"
  by (rule gossip_transmissions [OF demo_fits_delegate]) (simp_all add: newDelegate_def)

lemma demo_frames:
  "fq_all demo_zip (newFrameQueue demo_uid ''n1'' [1, 2, 3]) 34
    = Ok [newFrame True demo_uid 0 False ''n1'' [3, 2], newFrame True demo_uid 1 True ''n1'' [1]]"
  by code_simp

theorem overtaking_packet_panics_witness:
  "receive_all demo_zip 99 [(0, frame_Marshal (newFrame True demo_uid 1 True ''n1'' [1])),
     (1, frame_Marshal (newFrame True demo_uid 0 False ''n1'' [3, 2]))] (newDelegate ''n2'' 2) = Panic"
  using overtaking_packet_panics [OF demo_fits demo_frames, of 1 0 "newDelegate ''n2'' 2" 99 0 1] by (simp add: newDelegate_def)

theorem unicast_delivery_witness:
  "\<exists>packet.
      (\<forall>uid send members target. target \<in> set members \<longrightarrow> Unicast demo_zip uid send members target [1, 2, 3] demo_transport = send target (packet uid))
    \<and> (\<forall>uids send members. \<not> sw_UseGossip demo_transport \<longrightarrow> fst (on_broadcast demo_zip uids send members [1, 2, 3] demo_transport)
         = map (\<lambda>(i, m). (m, send m (packet (uids (2 * i + 1))))) (filter (\<lambda>(i, m). m \<noteq> sw_NodeName demo_transport) (enumerate 0 members)))
    \<and> (\<forall>uid d t'. length uid = 16 \<and> dg_decoders d uid = None \<longrightarrow>
         (\<exists>d'. handleInboundMessage demo_zip 99 0 (packet uid) d = Ok d' \<and> dg_decoders d' = dg_decoders d
            \<and> dg_rx d' = dg_rx d @ [\<lparr>im_source = sw_NodeName demo_transport, im_data = [1, 2, 3]\<rparr>]
            \<and> on_rx (last (dg_rx d')) (t' :: nat SWIMTransport) = map (\<lambda>listener. (listener, sw_NodeName demo_transport, [1, 2, 3])) (sw_listeners t')))"
  by (rule unicast_delivery) (simp_all add: demo_transport_def)

end
