(* ===== verification/EventTypes.thy ===== *)
theory EventTypes
  imports GoLib
begin

section \<open>Events, hashes and GUIDs (common/pkg/types/events)\<close>

text \<open>
  The event types with their JSON, BSON and XML encodings, the event hash and the hash of the
  off-chain data. A struct of the source is a record with a prefixed copy of its fields, a pointer
  field is an option, an \<^verbatim>\<open>int\<close> an \<open>int\<close> (64 bits on the platforms the program runs on), a time a
  number of nanoseconds. The lemmas show that every encoding is undone by its decoder, on the values
  a Go program can hold (\<open>Event_wf\<close>).
\<close>

type_synonym Principal = string

subsection \<open>txhash.go and eventhash.go\<close>

type_synonym TxHash = bytes
type_synonym EventHash = TxHash

definition TxHash_String :: "TxHash \<Rightarrow> string" where
  "TxHash_String t = hex_EncodeToString t"

definition TxHash_MarshalJSON :: "TxHash \<Rightarrow> json" where
  "TxHash_MarshalJSON t = JStr (hex_EncodeToString t)"

text \<open>\<^verbatim>\<open>UnmarshalJSON\<close> drops the first and the last byte of the text without looking at them.\<close>

definition TxHash_UnmarshalJSON :: "string \<Rightarrow> TxHash res" where
  "TxHash_UnmarshalJSON data =
     (if length data < 2 then Err (OtherError ''invalid TxHash - length less than 2'')
      else hex_DecodeString (subslice data 1 (length data - 1)))"

text \<open>A BSON value as far as the decoders look at it.\<close>

datatype bson_value = BNull | BString string | BOther

definition TxHash_MarshalBSONValue :: "TxHash \<Rightarrow> bson_value" where
  "TxHash_MarshalBSONValue t = BString (hex_EncodeToString t)"

definition TxHash_UnmarshalBSONValue :: "bson_value \<Rightarrow> TxHash res" where
  "TxHash_UnmarshalBSONValue b = (case b of
     BString s \<Rightarrow> hex_DecodeString s
   | _ \<Rightarrow> Err (OtherError ''cannot decode BSON value into a string''))"

subsection \<open>guid.go\<close>

type_synonym Guid = bytes

definition Guid_String :: "extlib \<Rightarrow> Guid \<Rightarrow> string" where
  "Guid_String lib g = uuid_String lib g"

definition Guid_MarshalJSON :: "extlib \<Rightarrow> Guid \<Rightarrow> json" where
  "Guid_MarshalJSON lib g = JStr (''{'' @ Guid_String lib g @ ''}'')"

text \<open>The decoders take the receiver \<open>g\<close>, which a null leaves as it is.\<close>

definition Guid_UnmarshalJSON :: "extlib \<Rightarrow> Guid \<Rightarrow> string \<Rightarrow> Guid res" where
  "Guid_UnmarshalJSON lib g data =
     (if data = ''null'' then Ok g
      else if length data \<noteq> 40 then Err (OtherError ''invalid GUID length'')
      else uuid_Parse lib (subslice data 2 38))"

definition Guid_MarshalXML :: "extlib \<Rightarrow> Guid \<Rightarrow> string" where
  "Guid_MarshalXML lib g = ''{'' @ Guid_String lib g @ ''}''"

definition Guid_UnmarshalXML :: "extlib \<Rightarrow> Guid \<Rightarrow> string \<Rightarrow> Guid res" where
  "Guid_UnmarshalXML lib g raw = (if raw = [] then Ok g else uuid_Parse lib raw)"

definition Guid_MarshalBSONValue :: "extlib \<Rightarrow> Guid \<Rightarrow> bson_value" where
  "Guid_MarshalBSONValue lib g = BString (''{'' @ Guid_String lib g @ ''}'')"

definition Guid_UnmarshalBSONValue :: "extlib \<Rightarrow> Guid \<Rightarrow> bson_value \<Rightarrow> Guid res" where
  "Guid_UnmarshalBSONValue lib g b = (case b of
     BNull \<Rightarrow> Ok g
   | BOther \<Rightarrow> Err (OtherError ''cannot decode BSON value into a string'')
   | BString s \<Rightarrow> (if length s \<noteq> 38 then Err (OtherError ''invalid GUID length'')
                  else uuid_Parse lib (subslice s 1 37)))"

subsection \<open>types.go\<close>

record Provider =
  pr_Name :: "string option"
  pr_Guid :: "Guid option"
  pr_EventSourceName :: "string option"

record TimeCreated =
  SystemTime :: int

record Correlation =
  ActivityId :: "Guid option"

record Execution =
  ProcessId :: "int option"
  ThreadId :: "int option"

record System =
  sy_Provider :: Provider
  sy_EventId :: int
  sy_TimeCreated :: TimeCreated
  sy_EventRecordId :: int
  sy_Correlation :: Correlation
  sy_Execution :: Execution
  sy_Channel :: string
  sy_Computer :: string

record Event =
  ev_System :: System

record EvData =
  dt_Name :: "string option"
  dt_Value :: "string option"

type_synonym EventData = "EvData list"

record EventWithData =
  ed_Event :: Event
  ed_EventData :: EventData

record ScrubbedEvent =
  OffChainHash :: string
  sc_Event :: Event

record Metadata =
  md_EventId :: EventHash
  ReceivedTime :: int
  md_Principal :: Principal

record EventWithMetadata =
  em_ScrubbedEvent :: ScrubbedEvent
  em_Metadata :: Metadata

record StoredEvent =
  st_EventWithData :: EventWithData
  st_Metadata :: Metadata
  st_TxHash :: TxHash

text \<open>rpc.go\<close>

record CreateRequest =
  cr_Event :: ScrubbedEvent
  cr_Nonce :: bytes

definition opt_bytes :: "string option \<Rightarrow> bytes" where
  "opt_bytes p = (case p of None \<Rightarrow> [] | Some s \<Rightarrow> bz s)"

definition EventData_Hash :: "extlib \<Rightarrow> EventData \<Rightarrow> bytes" where
  "EventData_Hash lib d = sha256 lib (concat (map (\<lambda>x. opt_bytes (dt_Name x) @ opt_bytes (dt_Value x)) d))"

text \<open>The arguments \<open>name\<close> and \<open>value\<close> are what the XML decoder puts into the local struct.\<close>

definition Data_UnmarshalXML :: "EvData \<Rightarrow> string \<Rightarrow> string \<Rightarrow> EvData" where
  "Data_UnmarshalXML d name value =
     (let d = (if name \<noteq> [] then d\<lparr>dt_Name := Some name\<rparr> else d)
      in if value \<noteq> [] then d\<lparr>dt_Value := Some value\<rparr> else d)"

definition uuid_Nil :: bytes where "uuid_Nil = replicate 16 0"

text \<open>\<open>aux\<close> is what the BSON library decodes into the alias type.\<close>

definition Provider_UnmarshalBSON :: "Provider \<Rightarrow> Provider res \<Rightarrow> Provider res" where
  "Provider_UnmarshalBSON p decoded = bind_res decoded (\<lambda>aux.
     let p = (if pr_Name aux \<noteq> None \<and> pr_Name aux \<noteq> Some [] then p\<lparr>pr_Name := pr_Name aux\<rparr> else p);
         p = (if pr_Guid aux \<noteq> None \<and> pr_Guid aux \<noteq> Some uuid_Nil then p\<lparr>pr_Guid := pr_Guid aux\<rparr> else p);
         p = (if pr_EventSourceName aux \<noteq> None \<and> pr_EventSourceName aux \<noteq> Some []
              then p\<lparr>pr_EventSourceName := pr_EventSourceName aux\<rparr> else p)
     in Ok p)"

definition Correlation_UnmarshalBSON :: "Correlation \<Rightarrow> Correlation res \<Rightarrow> Correlation res" where
  "Correlation_UnmarshalBSON c decoded = bind_res decoded (\<lambda>aux.
     Ok (if ActivityId aux \<noteq> None \<and> ActivityId aux \<noteq> Some uuid_Nil
         then c\<lparr>ActivityId := ActivityId aux\<rparr> else c))"

subsection \<open>JSON encodings of the structs\<close>

definition Provider_json :: "extlib \<Rightarrow> Provider \<Rightarrow> json" where
  "Provider_json lib p = JObj [(''name'', jptr JStr (pr_Name p)),
     (''guid'', jptr (Guid_MarshalJSON lib) (pr_Guid p)),
     (''event_source_name'', jptr JStr (pr_EventSourceName p))]"

definition System_json :: "extlib \<Rightarrow> System \<Rightarrow> json" where
  "System_json lib s = JObj [(''provider'', Provider_json lib (sy_Provider s)),
     (''event_id'', jnum (sy_EventId s)),
     (''time_created'', JObj [(''system_time'', JTime (SystemTime (sy_TimeCreated s)))]),
     (''event_record_id'', jnum (sy_EventRecordId s)),
     (''correlation'', JObj [(''activity_id'', jptr (Guid_MarshalJSON lib) (ActivityId (sy_Correlation s)))]),
     (''execution'', JObj [(''process_id'', jptr jnum (ProcessId (sy_Execution s))),
                          (''thread_id'', jptr jnum (ThreadId (sy_Execution s)))]),
     (''channel'', JStr (sy_Channel s)),
     (''computer'', JStr (sy_Computer s))]"

definition Event_json :: "extlib \<Rightarrow> Event \<Rightarrow> json" where
  "Event_json lib e = JObj [(''system'', System_json lib (ev_System e))]"

definition ScrubbedEvent_fields :: "extlib \<Rightarrow> ScrubbedEvent \<Rightarrow> (string \<times> json) list" where
  "ScrubbedEvent_fields lib e =
     [(''offchain_hash'', JStr (OffChainHash e)), (''event'', Event_json lib (sc_Event e))]"

definition Metadata_json :: "Metadata \<Rightarrow> json" where
  "Metadata_json m = JObj [(''event_id'', TxHash_MarshalJSON (md_EventId m)),
     (''received_time'', JTime (ReceivedTime m)), (''principal'', JStr (md_Principal m))]"

definition EventWithMetadata_json :: "extlib \<Rightarrow> EventWithMetadata \<Rightarrow> json" where
  "EventWithMetadata_json lib e =
     JObj (ScrubbedEvent_fields lib (em_ScrubbedEvent e) @ [(''metadata'', Metadata_json (em_Metadata e))])"

definition CreateRequest_json :: "extlib \<Rightarrow> CreateRequest \<Rightarrow> json" where
  "CreateRequest_json lib r = JObj [(''event'', JObj (ScrubbedEvent_fields lib (cr_Event r))),
     (''nonce'', JStr (uuid_String lib (cr_Nonce r)))]"

definition Provider_of_json :: "extlib \<Rightarrow> json \<Rightarrow> Provider res" where
  "Provider_of_json lib j = bind_res (jfields j) (\<lambda>fs.
     bind_res (jstring_ptr ''name'' fs) (\<lambda>name.
     bind_res (jcustom_ptr (rfc3339 lib) (Guid_UnmarshalJSON lib uuid_Nil) ''guid'' fs) (\<lambda>guid.
     bind_res (jstring_ptr ''event_source_name'' fs) (\<lambda>esn.
       Ok \<lparr>pr_Name = name, pr_Guid = guid, pr_EventSourceName = esn\<rparr>))))"

definition TimeCreated_of_json :: "json \<Rightarrow> TimeCreated res" where
  "TimeCreated_of_json j = bind_res (jfields j) (\<lambda>fs.
     bind_res (jtime ''system_time'' fs) (\<lambda>t. Ok \<lparr>SystemTime = t\<rparr>))"

definition Correlation_of_json :: "extlib \<Rightarrow> json \<Rightarrow> Correlation res" where
  "Correlation_of_json lib j = bind_res (jfields j) (\<lambda>fs.
     bind_res (jcustom_ptr (rfc3339 lib) (Guid_UnmarshalJSON lib uuid_Nil) ''activity_id'' fs) (\<lambda>a.
       Ok \<lparr>ActivityId = a\<rparr>))"

definition Execution_of_json :: "json \<Rightarrow> Execution res" where
  "Execution_of_json j = bind_res (jfields j) (\<lambda>fs.
     bind_res (jint_ptr ''process_id'' fs) (\<lambda>p.
     bind_res (jint_ptr ''thread_id'' fs) (\<lambda>t. Ok \<lparr>ProcessId = p, ThreadId = t\<rparr>)))"

definition System_of_json :: "extlib \<Rightarrow> json \<Rightarrow> System res" where
  "System_of_json lib j = bind_res (jfields j) (\<lambda>fs.
     bind_res (jstruct (Provider_of_json lib) ''provider'' fs) (\<lambda>provider.
     bind_res (jint ''event_id'' fs) (\<lambda>eid.
     bind_res (jstruct TimeCreated_of_json ''time_created'' fs) (\<lambda>tc.
     bind_res (jint ''event_record_id'' fs) (\<lambda>rid.
     bind_res (jstruct (Correlation_of_json lib) ''correlation'' fs) (\<lambda>cor.
     bind_res (jstruct Execution_of_json ''execution'' fs) (\<lambda>exe.
     bind_res (jstring ''channel'' fs) (\<lambda>channel.
     bind_res (jstring ''computer'' fs) (\<lambda>computer.
       Ok \<lparr>sy_Provider = provider, sy_EventId = eid, sy_TimeCreated = tc, sy_EventRecordId = rid,
           sy_Correlation = cor, sy_Execution = exe, sy_Channel = channel, sy_Computer = computer\<rparr>)))))))))"

definition Event_of_json :: "extlib \<Rightarrow> json \<Rightarrow> Event res" where
  "Event_of_json lib j = bind_res (jfields j) (\<lambda>fs.
     bind_res (jstruct (System_of_json lib) ''system'' fs) (\<lambda>s. Ok \<lparr>ev_System = s\<rparr>))"

definition ScrubbedEvent_of_json :: "extlib \<Rightarrow> json \<Rightarrow> ScrubbedEvent res" where
  "ScrubbedEvent_of_json lib j = bind_res (jfields j) (\<lambda>fs.
     bind_res (jstring ''offchain_hash'' fs) (\<lambda>h.
     bind_res (jstruct (Event_of_json lib) ''event'' fs) (\<lambda>e.
       Ok \<lparr>OffChainHash = h, sc_Event = e\<rparr>)))"

definition Metadata_of_json :: "extlib \<Rightarrow> json \<Rightarrow> Metadata res" where
  "Metadata_of_json lib j = bind_res (jfields j) (\<lambda>fs.
     bind_res (jcustom (rfc3339 lib) TxHash_UnmarshalJSON [] ''event_id'' fs) (\<lambda>eid.
     bind_res (jtime ''received_time'' fs) (\<lambda>t.
     bind_res (jstring ''principal'' fs) (\<lambda>p.
       Ok \<lparr>md_EventId = eid, ReceivedTime = t, md_Principal = p\<rparr>))))"

text \<open>The fields of the embedded \<^verbatim>\<open>ScrubbedEvent\<close> are fields of the outer object.\<close>

definition EventWithMetadata_of_json :: "extlib \<Rightarrow> json \<Rightarrow> EventWithMetadata res" where
  "EventWithMetadata_of_json lib j = bind_res (jfields j) (\<lambda>fs.
     bind_res (ScrubbedEvent_of_json lib j) (\<lambda>s.
     bind_res (jstruct (Metadata_of_json lib) ''metadata'' fs) (\<lambda>m.
       Ok \<lparr>em_ScrubbedEvent = s, em_Metadata = m\<rparr>)))"

text \<open>A \<^verbatim>\<open>uuid.UUID\<close> field is decoded from its text; null leaves the zero UUID.\<close>

definition juuid :: "extlib \<Rightarrow> string \<Rightarrow> (string \<times> json) list \<Rightarrow> bytes res" where
  "juuid lib k fs = (case jlookup k fs of
     None \<Rightarrow> Ok uuid_Nil | Some JNull \<Rightarrow> Ok uuid_Nil | Some (JStr s) \<Rightarrow> uuid_Parse lib s
   | Some _ \<Rightarrow> Err (OtherError ''cannot unmarshal into uuid.UUID''))"

definition CreateRequest_of_json :: "extlib \<Rightarrow> json \<Rightarrow> CreateRequest res" where
  "CreateRequest_of_json lib j = bind_res (jfields j) (\<lambda>fs.
     bind_res (jstruct (ScrubbedEvent_of_json lib) ''event'' fs) (\<lambda>e.
     bind_res (juuid lib ''nonce'' fs) (\<lambda>n. Ok \<lparr>cr_Event = e, cr_Nonce = n\<rparr>)))"

text \<open>eventhash.go\<close>

definition NewEventHash :: "extlib \<Rightarrow> 64 word \<Rightarrow> Principal \<Rightarrow> Event \<Rightarrow> EventHash res" where
  "NewEventHash lib blockHeight signer event =
     Ok (sha256 lib (PutUint64 blockHeight @ bz signer @ bz (render (rfc3339 lib) (Event_json lib event))))"

subsection \<open>Round trips\<close>

lemma TxHash_json_text [simp]: "TxHash_UnmarshalJSON (render ft (TxHash_MarshalJSON t)) = Ok t"
proof -
  have "render ft (TxHash_MarshalJSON t) = dquote # hex_EncodeToString t @ [dquote]"
    unfolding TxHash_MarshalJSON_def by (rule render_plain) simp
  then show ?thesis by (simp add: TxHash_UnmarshalJSON_def subslice_def)
qed

interpretation txhash_json: codec "\<lambda>t. render ft (TxHash_MarshalJSON t)" TxHash_UnmarshalJSON "\<lambda>_. True"
  by unfold_locales simp

interpretation txhash_bson: codec TxHash_MarshalBSONValue TxHash_UnmarshalBSONValue "\<lambda>_. True"
  by unfold_locales (simp add: TxHash_MarshalBSONValue_def TxHash_UnmarshalBSONValue_def)

lemma Guid_render:
  assumes "uuid_laws lib" "length g = 16"
  shows "render ft (Guid_MarshalJSON lib g) = dquote # (''{'' @ uuid_String lib g @ ''}'') @ [dquote]"
  unfolding Guid_MarshalJSON_def Guid_String_def
  by (rule render_plain) (use uuid_lawsD [OF assms] in \<open>simp add: plain_char_def json_escape_char_def\<close>)

lemma Guid_json_text [simp]:
  assumes "uuid_laws lib" "length g = 16"
  shows "Guid_UnmarshalJSON lib g' (render ft (Guid_MarshalJSON lib g)) = Ok g"
  using uuid_lawsD [OF assms]
  by (simp add: Guid_render [OF assms] Guid_UnmarshalJSON_def subslice_def dquote_def)

lemma Guid_xml:
  assumes "uuid_laws lib" "length g = 16"
  shows "Guid_UnmarshalXML lib g' (Guid_MarshalXML lib g) = Ok g"
  using uuid_lawsD [OF assms] by (simp add: Guid_UnmarshalXML_def Guid_MarshalXML_def Guid_String_def)

lemma Guid_bson:
  assumes "uuid_laws lib" "length g = 16"
  shows "Guid_UnmarshalBSONValue lib g' (Guid_MarshalBSONValue lib g) = Ok g"
  using uuid_lawsD [OF assms]
  by (simp add: Guid_UnmarshalBSONValue_def Guid_MarshalBSONValue_def Guid_String_def subslice_def)

text \<open>The values a Go program can hold: 16-byte GUIDs and 64-bit ints.\<close>

definition int64 :: "int \<Rightarrow> bool" where
  "int64 i \<longleftrightarrow> - (2 ^ 63) \<le> i \<and> i < 2 ^ 63"

definition Event_wf :: "Event \<Rightarrow> bool" where
  "Event_wf e \<longleftrightarrow> (let s = ev_System e in
     pred_option (\<lambda>g. length g = 16) (pr_Guid (sy_Provider s)) \<and> int64 (sy_EventId s) \<and> int64 (sy_EventRecordId s)
     \<and> pred_option (\<lambda>g. length g = 16) (ActivityId (sy_Correlation s))
     \<and> pred_option int64 (ProcessId (sy_Execution s)) \<and> pred_option int64 (ThreadId (sy_Execution s)))"

lemma ParseInt_int64 [simp]: "int64 i \<Longrightarrow> ParseInt (int_dec i) = Ok i"
  by (simp add: int64_def ParseInt_int_dec)

lemma jcustom_ptr_Guid:
  assumes "uuid_laws lib" "pred_option (\<lambda>g. length g = 16) p"
    and "jlookup k fs = Some (jptr (Guid_MarshalJSON lib) p)"
  shows "jcustom_ptr ft (Guid_UnmarshalJSON lib g) k fs = Ok p"
proof (cases p)
  case (Some v)
  then have "length v = 16" using assms(2) by simp
  with Guid_json_text [OF assms(1) this, of g ft] Some assms(3) show ?thesis
    by (simp add: jcustom_ptr_def jptr_def Guid_MarshalJSON_def)
qed (use assms in \<open>simp add: jcustom_ptr_def jptr_def\<close>)

lemma jint_ptr_jnum:
  "pred_option int64 p \<Longrightarrow> jlookup k fs = Some (jptr jnum p) \<Longrightarrow> jint_ptr k fs = Ok p"
  by (cases p) (simp_all add: jint_ptr_def jptr_def jnum_def)

lemma jstring_ptr_JStr: "jlookup k fs = Some (jptr JStr p) \<Longrightarrow> jstring_ptr k fs = Ok p"
  by (cases p) (simp_all add: jstring_ptr_def jptr_def)

lemma Provider_json_roundtrip:
  assumes "uuid_laws lib" "pred_option (\<lambda>g. length g = 16) (pr_Guid p)"
  shows "Provider_of_json lib (Provider_json lib p) = Ok p"
  using assms by (simp add: Provider_of_json_def Provider_json_def jcustom_ptr_Guid [OF assms] jstring_ptr_JStr
      ToLower_def to_lower_char_def)

lemma System_json_roundtrip:
  assumes "uuid_laws lib" "Event_wf \<lparr>ev_System = s\<rparr>"
  shows "System_of_json lib (System_json lib s) = Ok s"
proof -
  have p: "Provider_of_json lib (Provider_json lib (sy_Provider s)) = Ok (sy_Provider s)"
    using assms by (simp add: Event_wf_def Provider_json_roundtrip)
  have c: "Correlation_of_json lib (JObj [(''activity_id'', jptr (Guid_MarshalJSON lib) (ActivityId (sy_Correlation s)))])
      = Ok (sy_Correlation s)"
    using assms(2) jcustom_ptr_Guid [OF assms(1), of "ActivityId (sy_Correlation s)" "''activity_id''"]
    by (simp add: Event_wf_def Correlation_of_json_def)
  have e: "Execution_of_json (JObj [(''process_id'', jptr jnum (ProcessId (sy_Execution s))),
      (''thread_id'', jptr jnum (ThreadId (sy_Execution s)))]) = Ok (sy_Execution s)"
    using assms(2) jint_ptr_jnum [of "ProcessId (sy_Execution s)" "''process_id''"]
      jint_ptr_jnum [of "ThreadId (sy_Execution s)" "''thread_id''"]
    by (simp add: Event_wf_def Execution_of_json_def ToLower_def to_lower_char_def)
  have t: "TimeCreated_of_json (JObj [(''system_time'', JTime (SystemTime (sy_TimeCreated s)))]) = Ok (sy_TimeCreated s)"
    by (simp add: TimeCreated_of_json_def jtime_def)
  show ?thesis
    using assms(2) by (simp add: System_of_json_def System_json_def jstruct_def p c e t jint_def jnum_def
        Event_wf_def jstring_def ToLower_def to_lower_char_def)
qed

lemma Event_json_roundtrip:
  "uuid_laws lib \<Longrightarrow> Event_wf e \<Longrightarrow> Event_of_json lib (Event_json lib e) = Ok e"
  by (cases e) (simp add: Event_of_json_def Event_json_def jstruct_def System_json_roundtrip)

interpretation event_json: codec "Event_json lib" "Event_of_json lib" "\<lambda>e. uuid_laws lib \<and> Event_wf e"
  by unfold_locales (simp add: Event_json_roundtrip)

lemma ScrubbedEvent_json_roundtrip:
  assumes "uuid_laws lib" "Event_wf (sc_Event e)"
    and "jlookup ''offchain_hash'' fs = None" "jlookup ''event'' fs = None"
  shows "ScrubbedEvent_of_json lib (JObj (ScrubbedEvent_fields lib e @ fs)) = Ok e"
  using Event_json_roundtrip [OF assms(1,2)] assms(3,4)
  by (simp add: ScrubbedEvent_of_json_def ScrubbedEvent_fields_def jstruct_def jstring_def ToLower_def to_lower_char_def)

lemma Metadata_json_roundtrip: "Metadata_of_json lib (Metadata_json m) = Ok m"
  by (simp add: Metadata_of_json_def Metadata_json_def jcustom_def jtime_def jstring_def ToLower_def to_lower_char_def)

lemma EventWithMetadata_json_roundtrip:
  assumes "uuid_laws lib" "Event_wf (sc_Event (em_ScrubbedEvent e))"
  shows "EventWithMetadata_of_json lib (EventWithMetadata_json lib e) = Ok e"
  using ScrubbedEvent_json_roundtrip [OF assms, of "[(''metadata'', Metadata_json (em_Metadata e))]"]
  by (simp add: EventWithMetadata_of_json_def EventWithMetadata_json_def jstruct_def Metadata_json_roundtrip
      ScrubbedEvent_fields_def ToLower_def to_lower_char_def)

lemma CreateRequest_json_roundtrip:
  assumes "uuid_laws lib" "Event_wf (sc_Event (cr_Event r))" "length (cr_Nonce r) = 16"
  shows "CreateRequest_of_json lib (CreateRequest_json lib r) = Ok r"
  using ScrubbedEvent_json_roundtrip [OF assms(1,2), of "[]"] uuid_lawsD(3) [OF assms(1,3)]
  by (simp add: CreateRequest_of_json_def CreateRequest_json_def jstruct_def juuid_def ToLower_def to_lower_char_def)

subsection \<open>Decoded events are well-formed\<close>

lemma ParseInt_bounds: "ParseInt s = Ok i \<Longrightarrow> int64 i"
  by (auto simp: ParseInt_def int64_def Let_def split: list.split_asm if_split_asm)

lemma int64_0 [simp]: "int64 0"
  by (simp add: int64_def)

lemma jint_int64: "jint k fs = Ok i \<Longrightarrow> int64 i"
  by (auto simp: jint_def ParseInt_bounds split: option.split_asm json.split_asm)

lemma jint_ptr_int64: "jint_ptr k fs = Ok p \<Longrightarrow> pred_option int64 p"
  by (auto simp: jint_ptr_def ParseInt_bounds split: option.split_asm json.split_asm)

lemma Guid_UnmarshalJSON_length:
  assumes "uuid_laws lib" "Guid_UnmarshalJSON lib g data = Ok g'" "length g = 16"
  shows "length g' = 16"
  using assms by (auto simp: Guid_UnmarshalJSON_def uuid_Parse_length split: if_split_asm)

lemma jcustom_ptr_Guid_length:
  assumes "uuid_laws lib" "jcustom_ptr ft (Guid_UnmarshalJSON lib uuid_Nil) k fs = Ok p"
  shows "pred_option (\<lambda>g. length g = 16) p"
  using assms Guid_UnmarshalJSON_length [OF assms(1), of uuid_Nil]
  by (auto simp: jcustom_ptr_def uuid_Nil_def split: option.split_asm json.split_asm)

lemma System_of_json_wf:
  assumes "uuid_laws lib" "System_of_json lib j = Ok s"
  shows "Event_wf \<lparr>ev_System = s\<rparr>"
proof -
  have "pred_option (\<lambda>g. length g = 16) (pr_Guid p)" if "jstruct (Provider_of_json lib) k fs = Ok p" for k fs p
    using that jcustom_ptr_Guid_length [OF assms(1)] by (auto simp: jstruct_def Provider_of_json_def)
  moreover have "pred_option (\<lambda>g. length g = 16) (ActivityId c)" if "jstruct (Correlation_of_json lib) k fs = Ok c" for k fs c
    using that jcustom_ptr_Guid_length [OF assms(1)] by (auto simp: jstruct_def Correlation_of_json_def)
  moreover have "pred_option int64 (ProcessId e) \<and> pred_option int64 (ThreadId e)" if "jstruct Execution_of_json k fs = Ok e" for k fs e
    using that jint_ptr_int64 by (auto simp: jstruct_def Execution_of_json_def)
  ultimately show ?thesis using assms(2) jint_int64 by (fastforce simp: System_of_json_def Event_wf_def Let_def)
qed

lemma Event_of_json_wf: "uuid_laws lib \<Longrightarrow> Event_of_json lib j = Ok e \<Longrightarrow> Event_wf e"
  using System_of_json_wf by (auto simp: Event_of_json_def jstruct_def)

lemma ScrubbedEvent_of_json_wf: "uuid_laws lib \<Longrightarrow> ScrubbedEvent_of_json lib j = Ok e \<Longrightarrow> Event_wf (sc_Event e)"
  using Event_of_json_wf by (auto simp: ScrubbedEvent_of_json_def jstruct_def)

lemma EventWithMetadata_of_json_wf:
  "uuid_laws lib \<Longrightarrow> EventWithMetadata_of_json lib j = Ok e \<Longrightarrow> Event_wf (sc_Event (em_ScrubbedEvent e))"
  using ScrubbedEvent_of_json_wf by (auto simp: EventWithMetadata_of_json_def)

lemma CreateRequest_of_json_wf:
  "uuid_laws lib \<Longrightarrow> CreateRequest_of_json lib j = Ok r \<Longrightarrow> Event_wf (sc_Event (cr_Event r))"
  using ScrubbedEvent_of_json_wf by (auto simp: CreateRequest_of_json_def jstruct_def)

end
