(* ===== verification/Rpc.thy ===== *)
theory Rpc
  imports EventTypes
begin

section \<open>Identities and signed requests (common/pkg/types/identity and rpc)\<close>

text \<open>
  The identity types with their JSON encodings, the signed and unsigned payloads of a transaction
  and the request builder the clients use. The lemmas show the round trips and that what the builder
  signs is what \<^verbatim>\<open>ValidateSignature\<close> accepts.
\<close>

subsection \<open>identity: role.go, data.go, rpc.go\<close>

type_synonym Role = string

definition RoleAdmin :: Role where "RoleAdmin = ''admin''"
definition RoleUser :: Role where "RoleUser = ''user''"

record IdentityData =
  id_PublicKey :: bytes
  id_Role :: Role

definition IsAdmin :: "IdentityData \<Rightarrow> bool" where
  "IsAdmin i = (id_Role i = RoleAdmin)"

definition IdentityData_MarshalJSON :: "IdentityData \<Rightarrow> json" where
  "IdentityData_MarshalJSON i =
     JObj [(''public_key'', JStr (hex_EncodeToString (id_PublicKey i))), (''role'', JStr (id_Role i))]"

definition IdentityData_UnmarshalJSON :: "json \<Rightarrow> IdentityData res" where
  "IdentityData_UnmarshalJSON data = bind_res (jfields data) (\<lambda>fs.
     bind_res (jstring ''public_key'' fs) (\<lambda>pk.
     bind_res (jstring ''role'' fs) (\<lambda>role.
     bind_res (hex_DecodeString pk) (\<lambda>publicKey.
       Ok \<lparr>id_PublicKey = publicKey, id_Role = role\<rparr>))))"

record PayloadSeed =
  ps_Principal :: Principal
  ps_Key :: bytes

definition PayloadSeed_MarshalJSON :: "PayloadSeed \<Rightarrow> json" where
  "PayloadSeed_MarshalJSON p =
     JObj [(''principal'', JStr (ps_Principal p)), (''key'', JStr (hex_EncodeToString (ps_Key p)))]"

definition PayloadSeed_UnmarshalJSON :: "json \<Rightarrow> PayloadSeed res" where
  "PayloadSeed_UnmarshalJSON data = bind_res (jfields data) (\<lambda>fs.
     bind_res (jstring ''principal'' fs) (\<lambda>p.
     bind_res (jstring ''key'' fs) (\<lambda>k.
     bind_res (hex_DecodeString k) (\<lambda>key. Ok \<lparr>ps_Principal = p, ps_Key = key\<rparr>))))"

record PayloadRegister =
  rg_Principal :: Principal
  rg_Role :: Role
  rg_Key :: bytes

text \<open>\<^verbatim>\<open>uuid.New()\<close> is the argument \<open>nonce\<close>.\<close>

definition PayloadRegister_MarshalJSON :: "extlib \<Rightarrow> bytes \<Rightarrow> PayloadRegister \<Rightarrow> json" where
  "PayloadRegister_MarshalJSON lib nonce p =
     JObj [(''principal'', JStr (rg_Principal p)), (''role'', JStr (rg_Role p)),
           (''public_key'', JStr (hex_EncodeToString (rg_Key p))), (''nonce'', JStr (uuid_String lib nonce))]"

definition PayloadRegister_UnmarshalJSON :: "json \<Rightarrow> PayloadRegister res" where
  "PayloadRegister_UnmarshalJSON data = bind_res (jfields data) (\<lambda>fs.
     bind_res (jstring ''principal'' fs) (\<lambda>p.
     bind_res (jstring ''role'' fs) (\<lambda>r.
     bind_res (jstring ''public_key'' fs) (\<lambda>k.
     bind_res (hex_DecodeString k) (\<lambda>key. Ok \<lparr>rg_Principal = p, rg_Role = r, rg_Key = key\<rparr>)))))"

subsection \<open>rpc.go and payload.go\<close>

text \<open>A \<^verbatim>\<open>json.RawMessage\<close> is \<open>None\<close> when it is nil; it is then printed as null and signed as no bytes.\<close>

record Payload =
  pl_Type :: string
  pl_Data :: "json option"

record SignedPayload =
  sp_Payload :: Payload
  sp_Principal :: Principal
  sp_Signature :: string

record UnsignedPayload =
  up_Payload :: Payload

record MuxedRequest =
  mx_App :: string
  mx_Data :: "json option"

definition raw_bytes :: "extlib \<Rightarrow> json option \<Rightarrow> bytes" where
  "raw_bytes lib r = (case r of None \<Rightarrow> [] | Some j \<Rightarrow> bz (render (rfc3339 lib) j))"

definition raw_json :: "json option \<Rightarrow> json" where
  "raw_json r = (case r of None \<Rightarrow> JNull | Some j \<Rightarrow> j)"

definition Payload_json :: "Payload \<Rightarrow> json" where
  "Payload_json p = JObj [(''type'', JStr (pl_Type p)), (''data'', raw_json (pl_Data p))]"

definition Payload_of_json :: "json \<Rightarrow> Payload res" where
  "Payload_of_json j = bind_res (jfields j) (\<lambda>fs.
     bind_res (jstring ''type'' fs) (\<lambda>t. Ok \<lparr>pl_Type = t, pl_Data = jraw ''data'' fs\<rparr>))"

definition SignedPayload_json :: "SignedPayload \<Rightarrow> json" where
  "SignedPayload_json p = JObj [(''payload'', Payload_json (sp_Payload p)),
     (''principal'', JStr (sp_Principal p)), (''signature'', JStr (sp_Signature p))]"

definition SignedPayload_of_json :: "json \<Rightarrow> SignedPayload res" where
  "SignedPayload_of_json j = bind_res (jfields j) (\<lambda>fs.
     bind_res (jstruct Payload_of_json ''payload'' fs) (\<lambda>p.
     bind_res (jstring ''principal'' fs) (\<lambda>pr.
     bind_res (jstring ''signature'' fs) (\<lambda>s.
       Ok \<lparr>sp_Payload = p, sp_Principal = pr, sp_Signature = s\<rparr>))))"

definition UnsignedPayload_json :: "UnsignedPayload \<Rightarrow> json" where
  "UnsignedPayload_json p = JObj [(''payload'', Payload_json (up_Payload p))]"

definition UnsignedPayload_of_json :: "json \<Rightarrow> UnsignedPayload res" where
  "UnsignedPayload_of_json j = bind_res (jfields j) (\<lambda>fs.
     bind_res (jstruct Payload_of_json ''payload'' fs) (\<lambda>p. Ok \<lparr>up_Payload = p\<rparr>))"

definition MuxedRequest_json :: "MuxedRequest \<Rightarrow> json" where
  "MuxedRequest_json m = JObj [(''app'', JStr (mx_App m)), (''data'', raw_json (mx_Data m))]"

definition MuxedRequest_of_json :: "json \<Rightarrow> MuxedRequest res" where
  "MuxedRequest_of_json j = bind_res (jfields j) (\<lambda>fs.
     bind_res (jstring ''app'' fs) (\<lambda>a. Ok \<lparr>mx_App = a, mx_Data = jraw ''data'' fs\<rparr>))"

definition wrap_payload :: "string \<Rightarrow> json \<Rightarrow> Payload res" where
  "wrap_payload payloadType marshalled = Ok \<lparr>pl_Type = payloadType, pl_Data = Some marshalled\<rparr>"

definition unsigned_payload :: "Payload \<Rightarrow> UnsignedPayload" where
  "unsigned_payload p = \<lparr>up_Payload = p\<rparr>"

text \<open>\<^verbatim>\<open>ed25519.Sign\<close> panics when the private key is not 64 bytes long.\<close>

definition sign_payload :: "extlib \<Rightarrow> Payload \<Rightarrow> Principal \<Rightarrow> bytes \<Rightarrow> SignedPayload res" where
  "sign_payload lib p signer signerKey =
     (if length signerKey \<noteq> 64 then Panic
      else let sig = ed25519_sign lib signerKey (raw_bytes lib (pl_Data p))
           in Ok \<lparr>sp_Payload = p, sp_Principal = signer, sp_Signature = hex_EncodeToString sig\<rparr>)"

definition ValidateSignature :: "extlib \<Rightarrow> SignedPayload \<Rightarrow> bytes \<Rightarrow> bool res" where
  "ValidateSignature lib p publicKey =
     bind_res (hex_DecodeString (sp_Signature p)) (\<lambda>sig.
       ed25519_Verify lib publicKey (raw_bytes lib (pl_Data (sp_Payload p))) sig)"

subsection \<open>builder.go\<close>

record Builder =
  b_requestType :: string
  b_data :: "json option"
  b_signed :: bool
  b_principal :: Principal
  b_key :: bytes
  b_app :: string

definition NewBuilder :: Builder where
  "NewBuilder = \<lparr>b_requestType = [], b_data = None, b_signed = False, b_principal = [], b_key = [], b_app = []\<rparr>"

text \<open>The argument \<open>d\<close> is what \<^verbatim>\<open>json.Marshal\<close> prints for the data value.\<close>

definition Builder_Data :: "string \<Rightarrow> json \<Rightarrow> Builder \<Rightarrow> Builder" where
  "Builder_Data requestType d b = b\<lparr>b_requestType := requestType, b_data := Some d\<rparr>"

definition Builder_App :: "string \<Rightarrow> Builder \<Rightarrow> Builder" where
  "Builder_App app b = b\<lparr>b_app := app\<rparr>"

definition Builder_Signed :: "Principal \<Rightarrow> bytes \<Rightarrow> Builder \<Rightarrow> Builder" where
  "Builder_Signed signer key b = b\<lparr>b_signed := True, b_principal := signer, b_key := key\<rparr>"

definition Builder_Unsigned :: "Builder \<Rightarrow> Builder" where
  "Builder_Unsigned b = b\<lparr>b_signed := False\<rparr>"

definition buildSigned :: "extlib \<Rightarrow> Builder \<Rightarrow> SignedPayload res" where
  "buildSigned lib b = (case b_data b of
     None \<Rightarrow> Err (OtherError ''Data was not called on builder'')
   | Some d \<Rightarrow>
      if b_requestType b = [] then Err (OtherError ''Data was not called on builder'')
      else bind_res (wrap_payload (b_requestType b) d) (\<lambda>wrapped.
        sign_payload lib wrapped (b_principal b) (b_key b)))"

definition buildUnsigned :: "Builder \<Rightarrow> UnsignedPayload res" where
  "buildUnsigned b = (case b_data b of
     None \<Rightarrow> Err (OtherError ''Data was not called on builder'')
   | Some d \<Rightarrow>
      if b_requestType b = [] then Err (OtherError ''Data was not called on builder'')
      else map_res unsigned_payload (wrap_payload (b_requestType b) d))"

definition Build :: "extlib \<Rightarrow> Builder \<Rightarrow> MuxedRequest res" where
  "Build lib b =
     bind_res (if b_signed b then map_res SignedPayload_json (buildSigned lib b)
               else map_res UnsignedPayload_json (buildUnsigned b))
       (\<lambda>inner. Ok \<lparr>mx_App = b_app b, mx_Data = Some inner\<rparr>)"

definition Builder_Marshal :: "extlib \<Rightarrow> Builder \<Rightarrow> json res" where
  "Builder_Marshal lib b = map_res MuxedRequest_json (Build lib b)"

subsection \<open>Round trips\<close>

lemmas rpc_json_simps = jstring_def jraw_def jstruct_def raw_json_def ToLower_def to_lower_char_def

interpretation identity_json: codec IdentityData_MarshalJSON IdentityData_UnmarshalJSON "\<lambda>_. True"
  by unfold_locales
    (simp add: IdentityData_MarshalJSON_def IdentityData_UnmarshalJSON_def rpc_json_simps)

interpretation seed_json: codec PayloadSeed_MarshalJSON PayloadSeed_UnmarshalJSON "\<lambda>_. True"
  by unfold_locales (simp add: PayloadSeed_MarshalJSON_def PayloadSeed_UnmarshalJSON_def rpc_json_simps)

interpretation register_json: codec "PayloadRegister_MarshalJSON lib nonce" PayloadRegister_UnmarshalJSON "\<lambda>_. True"
  by unfold_locales (simp add: PayloadRegister_MarshalJSON_def PayloadRegister_UnmarshalJSON_def rpc_json_simps)

lemma Payload_json_roundtrip: "pl_Data p \<noteq> None \<Longrightarrow> Payload_of_json (Payload_json p) = Ok p"
  by (cases p) (auto simp: Payload_json_def Payload_of_json_def rpc_json_simps)

interpretation signed_json: codec SignedPayload_json SignedPayload_of_json "\<lambda>p. pl_Data (sp_Payload p) \<noteq> None"
  by unfold_locales
    (simp add: SignedPayload_json_def SignedPayload_of_json_def Payload_json_roundtrip rpc_json_simps)

interpretation unsigned_json: codec UnsignedPayload_json UnsignedPayload_of_json "\<lambda>p. pl_Data (up_Payload p) \<noteq> None"
  by unfold_locales
    (simp add: UnsignedPayload_json_def UnsignedPayload_of_json_def Payload_json_roundtrip rpc_json_simps)

interpretation muxed_json: codec MuxedRequest_json MuxedRequest_of_json "\<lambda>m. mx_Data m \<noteq> None"
  by unfold_locales (auto simp: MuxedRequest_json_def MuxedRequest_of_json_def rpc_json_simps)

text \<open>
  A request built for an application, signed with a private key and marshalled, is decoded to
  the same request type, data and principal, and the decoded signature validates under every public
  key that Ed25519 pairs with that private key.
\<close>

lemma signed_request_decodes:
  assumes "requestType \<noteq> []" "length key = 64" "length pub = 32"
    and pair: "\<And>m. ed25519_verify lib pub m (ed25519_sign lib key m)"
  shows "\<exists>j inner p. Builder_Marshal lib (Builder_Signed signer key (Builder_App app (Builder_Data requestType d NewBuilder))) = Ok j
    \<and> MuxedRequest_of_json j = Ok \<lparr>mx_App = app, mx_Data = Some inner\<rparr>
    \<and> SignedPayload_of_json inner = Ok p
    \<and> pl_Type (sp_Payload p) = requestType \<and> pl_Data (sp_Payload p) = Some d \<and> sp_Principal p = signer
    \<and> ValidateSignature lib p pub = Ok True"
proof -
  define p where "p = \<lparr>sp_Payload = \<lparr>pl_Type = requestType, pl_Data = Some d\<rparr>, sp_Principal = signer,
      sp_Signature = hex_EncodeToString (ed25519_sign lib key (raw_bytes lib (Some d)))\<rparr>"
  define m where "m = \<lparr>mx_App = app, mx_Data = Some (SignedPayload_json p)\<rparr>"
  have "Builder_Marshal lib (Builder_Signed signer key (Builder_App app (Builder_Data requestType d NewBuilder)))
      = Ok (MuxedRequest_json m)"
    using assms(1,2) by (simp add: Builder_Marshal_def Build_def buildSigned_def wrap_payload_def sign_payload_def
        Builder_Signed_def Builder_App_def Builder_Data_def NewBuilder_def Let_def m_def p_def)
  moreover have "MuxedRequest_of_json (MuxedRequest_json m) = Ok m"
    by (rule muxed_json.dec_enc) (simp add: m_def)
  moreover have "SignedPayload_of_json (SignedPayload_json p) = Ok p"
    by (rule signed_json.dec_enc) (simp add: p_def)
  moreover have "ValidateSignature lib p pub = Ok True"
    using assms(3) pair by (simp add: ValidateSignature_def ed25519_Verify_def p_def)
  ultimately show ?thesis
    by (intro exI [of _ "MuxedRequest_json m"] exI [of _ "SignedPayload_json p"] exI [of _ p])
      (simp add: m_def p_def)
qed

definition demo_lib :: extlib where
  "demo_lib = \<lparr>sha256 = (\<lambda>b. take 32 (b @ replicate 32 0)),
     ed25519_sign = (\<lambda>k m. take 32 k @ take 2 m), ed25519_verify = (\<lambda>pub m s. s = pub @ take 2 m),
     rfc3339 = (\<lambda>t. int_dec t),
     uuid_String = (\<lambda>u. hex_EncodeToString u @ ''----''),
     uuid_Parse = (\<lambda>s. let t = take 32 (if HasPrefix s ''{'' then drop 1 s else s) in
       bind_res (hex_DecodeString t) (\<lambda>u. if length u = 16 then Ok u else Err (OtherError ''invalid UUID length'')))\<rparr>"

end
