(* ===== verification/Durations.thy ===== *)
theory Durations
  imports GoLib
begin

section \<open>Durations in policies (common/pkg/types/duration.go)\<close>

text \<open>
  \<^verbatim>\<open>MarshalledDuration\<close> prints a duration with \<^verbatim>\<open>time.Duration.String\<close> and reads it with its own
  regular expression. Durations are int64 nanoseconds and every product and sum wraps at 64 bits.
  The main lemma says exactly which durations survive being printed and read.
\<close>

definition wrap64 :: "int \<Rightarrow> int" where
  "wrap64 x = (x + 2 ^ 63) mod 2 ^ 64 - 2 ^ 63"

subsection \<open>The regular expression\<close>

text \<open>
  \<^verbatim>\<open>^(?:(\d+)w)? ?(?:(\d+)d)? ?...(?:(\d+)ns)?$\<close> as a list of optional parts, each either a number
  with its unit or a space, tried in the order of the regular expression: a part that matches is
  taken unless the rest then fails. The result holds the text of each group, empty when absent.
\<close>

datatype rx = Grp string | Sp

fun rmatch :: "rx list \<Rightarrow> string \<Rightarrow> string list option" where
  "rmatch [] s = (if s = [] then Some [] else None)"
| "rmatch (Sp # rs) s =
     (case (if HasPrefix s '' '' then rmatch rs (drop 1 s) else None) of
        Some g \<Rightarrow> Some g | None \<Rightarrow> rmatch rs s)"
| "rmatch (Grp u # rs) s =
     (let ds = takeWhile is_digit s; t = dropWhile is_digit s
      in case (if ds \<noteq> [] \<and> HasPrefix t u then rmatch rs (drop (length u) t) else None) of
           Some g \<Rightarrow> Some (ds # g) | None \<Rightarrow> map_option (\<lambda>g. [] # g) (rmatch rs s))"

definition durationRegex :: "rx list" where
  "durationRegex = [Grp ''w'', Sp, Grp ''d'', Sp, Grp ''h'', Sp, Grp ''m'', Sp, Grp ''s'', Sp, Grp ''ms'', Sp, Grp ''ns'']"

text \<open>The step that every unit repeats: read the group and add it to the sum.\<close>

definition add_group :: "int \<Rightarrow> string \<Rightarrow> int \<Rightarrow> int res" where
  "add_group unit_ns g duration =
     (if g \<noteq> [] then bind_res (Atoi g) (\<lambda>n. Ok (wrap64 (duration + wrap64 (n * unit_ns)))) else Ok duration)"

definition Hour :: int where "Hour = 3600000000000"

fun parse_groups :: "(int \<times> string) list \<Rightarrow> int \<Rightarrow> int res" where
  "parse_groups [] duration = Ok duration"
| "parse_groups ((u, g) # gs) duration = bind_res (add_group u g duration) (parse_groups gs)"

definition duration_units :: "int list" where
  "duration_units = [7 * 24 * Hour, 24 * Hour, Hour, 60000000000, 1000000000, 1000000, 1]"

definition parseDuration :: "string \<Rightarrow> int res" where
  "parseDuration s =
     (if s = ''0'' then Ok 0
      else case rmatch durationRegex s of
             None \<Rightarrow> Err (OtherError ''invalid duration'')
           | Some groups \<Rightarrow> parse_groups (zip duration_units groups) 0)"

subsection \<open>time.Duration.String\<close>

fun pad_dec :: "nat \<Rightarrow> nat \<Rightarrow> string" where
  "pad_dec 0 n = []"
| "pad_dec (Suc p) n = pad_dec p (n div 10) @ [char_of (48 + n mod 10)]"

text \<open>\<^verbatim>\<open>fmtFrac\<close>: the fraction of \<open>v / 10 ^ prec\<close>, without trailing zeros.\<close>

definition fmtFrac :: "nat \<Rightarrow> nat \<Rightarrow> string" where
  "fmtFrac v prec =
     (let ds = rev (dropWhile (\<lambda>c. c = CHR ''0'') (rev (pad_dec prec (v mod 10 ^ prec))))
      in if ds = [] then [] else CHR ''.'' # ds)"

text \<open>The micro sign is the two bytes 0xC2 0xB5.\<close>

definition micro :: string where "micro = [char_of (194::nat), char_of (181::nat)]"

definition abs_Duration_String :: "nat \<Rightarrow> string" where
  "abs_Duration_String u =
     (if u < 1000000000 then
        if u = 0 then ''0s''
        else if u < 1000 then nat_dec u @ ''ns''
        else if u < 1000000 then nat_dec (u div 1000) @ fmtFrac u 3 @ micro @ ''s''
        else nat_dec (u div 1000000) @ fmtFrac u 6 @ ''ms''
      else
        let secs = u div 1000000000; mins = secs div 60; hours = mins div 60;
            stext = nat_dec (secs mod 60) @ fmtFrac u 9 @ ''s''
        in if mins = 0 then stext
           else if hours = 0 then nat_dec (mins mod 60) @ ''m'' @ stext
           else nat_dec hours @ ''h'' @ nat_dec (mins mod 60) @ ''m'' @ stext)"

definition Duration_String :: "int \<Rightarrow> string" where
  "Duration_String d = (if d < 0 then CHR ''-'' # abs_Duration_String (nat (- d)) else abs_Duration_String (nat d))"

subsection \<open>MarshalJSON, UnmarshalJSON and UnmarshalText\<close>

definition MarshalledDuration_MarshalJSON :: "int \<Rightarrow> json" where
  "MarshalledDuration_MarshalJSON d = JStr (Duration_String d)"

definition MarshalledDuration_UnmarshalJSON :: "string \<Rightarrow> int res" where
  "MarshalledDuration_UnmarshalJSON data =
     (if length data < 2 \<or> hd data \<noteq> dquote \<or> last data \<noteq> dquote
      then Err (OtherError ''invalid duration: missing quotes'')
      else parseDuration (subslice data 1 (length data - 1)))"

definition MarshalledDuration_UnmarshalText :: "string \<Rightarrow> int res" where
  "MarshalledDuration_UnmarshalText t = parseDuration t"

subsection \<open>What the regular expression accepts\<close>

definition duration_char :: "char \<Rightarrow> bool" where
  "duration_char c \<longleftrightarrow> is_digit c \<or> c \<in> set '' wdhmsn''"

lemma HasPrefixD: "HasPrefix s p \<Longrightarrow> s = p @ drop (length p) s"
  by (metis HasPrefix_def append_take_drop_id)

lemma rmatch_chars:
  assumes "rmatch rs s = Some g" and "\<forall>u. Grp u \<in> set rs \<longrightarrow> list_all duration_char u"
  shows "list_all duration_char s"
  using assms
proof (induction rs s arbitrary: g rule: rmatch.induct)
  case (1 s)
  then show ?case by (simp split: if_splits)
next
  case (2 rs s)
  show ?case
  proof (cases "HasPrefix s '' '' \<and> rmatch rs (drop 1 s) \<noteq> None")
    case True
    then obtain g' where "rmatch rs (drop 1 s) = Some g'" by auto
    then have "list_all duration_char (drop 1 s)" using 2 True by auto
    moreover have "s = '' '' @ drop 1 s" using HasPrefixD [of s "'' ''"] True by simp
    moreover have "duration_char CHR '' ''" by (simp add: duration_char_def)
    ultimately show ?thesis by (metis append_Cons append_Nil list.pred_inject(2))
  next
    case False
    then have "rmatch rs s = Some g" using 2 by (auto split: if_splits option.splits)
    then show ?thesis using 2 False by auto
  qed
next
  case (3 u rs s)
  let ?ds = "takeWhile is_digit s" and ?t = "dropWhile is_digit s"
  show ?case
  proof (cases "?ds \<noteq> [] \<and> HasPrefix ?t u \<and> rmatch rs (drop (length u) ?t) \<noteq> None")
    case True
    then obtain g' where "rmatch rs (drop (length u) ?t) = Some g'" by auto
    then have r: "list_all duration_char (drop (length u) ?t)" using 3 True by auto
    have s: "s = ?ds @ u @ drop (length u) ?t"
      using HasPrefixD [of ?t u] True by (metis takeWhile_dropWhile_id)
    have "list_all duration_char ?ds" by (auto simp: list_all_iff duration_char_def dest: set_takeWhileD)
    moreover have "list_all duration_char u" using 3 by auto
    ultimately show ?thesis using r s by (metis list_all_append)
  next
    case False
    then obtain g' where "rmatch rs s = Some g'"
      using "3.prems"(1) by (auto simp: Let_def split: if_splits option.splits)
    then show ?thesis using 3 False by (auto simp: Let_def)
  qed
qed

lemma parseDuration_chars:
  assumes "\<exists>c \<in> set s. \<not> duration_char c"
  shows "parseDuration s = Err (OtherError ''invalid duration'')"
proof -
  have "\<forall>u. Grp u \<in> set durationRegex \<longrightarrow> list_all duration_char u"
    by (auto simp: durationRegex_def duration_char_def)
  then have "rmatch durationRegex s = None"
    using rmatch_chars [of durationRegex s] assms by (cases "rmatch durationRegex s") (auto simp: list_all_iff)
  moreover have "s \<noteq> ''0''" using assms by (auto simp: duration_char_def is_digit_def)
  ultimately show ?thesis by (simp add: parseDuration_def)
qed

lemma digits_run:
  assumes "list_all is_digit ds" "\<not> is_digit c"
  shows "takeWhile is_digit (ds @ c # t) = ds" "dropWhile is_digit (ds @ c # t) = c # t"
  using assms by (auto simp: list_all_iff takeWhile_append2 dropWhile_append2)

lemma nat_dec_run [simp]:
  assumes "\<not> is_digit c"
  shows "takeWhile is_digit (nat_dec n @ c # t) = nat_dec n" "dropWhile is_digit (nat_dec n @ c # t) = c # t"
  using digits_run [OF nat_dec_digits assms] by simp_all

lemma HasPrefix_nat_dec [simp]: "HasPrefix (nat_dec n @ c # t) '' '' = False"
proof -
  obtain d ds where "nat_dec n = d # ds" by (cases "nat_dec n") auto
  moreover from nat_dec_hd [OF this] have "d \<noteq> CHR '' ''" by (auto simp: is_digit_def)
  ultimately show ?thesis by (simp add: HasPrefix_def)
qed

subsection \<open>Printing a duration and reading it back\<close>

lemma wrap64_id [simp]: "- (2 ^ 63) \<le> x \<Longrightarrow> x < 2 ^ 63 \<Longrightarrow> wrap64 x = x"
  by (simp add: wrap64_def)

lemma Atoi_nat_dec [simp]: "n < 2 ^ 63 \<Longrightarrow> Atoi (nat_dec n) = Ok (int n)"
  using ParseInt_int_dec [of "int n"] by (simp add: Atoi_def int_dec_def)

lemma add_group_simps:
  "add_group u [] d = Ok d"
  "n < 2 ^ 63 \<Longrightarrow> add_group u (nat_dec n) d = Ok (wrap64 (d + wrap64 (int n * u)))"
  by (simp_all add: add_group_def)

lemma pad_dec_zero: "list_all (\<lambda>c. c = CHR ''0'') (pad_dec p n) \<longleftrightarrow> n mod 10 ^ p = 0"
proof (induction p arbitrary: n)
  case (Suc p)
  have "n mod (10 * 10 ^ p) = 10 * (n div 10 mod 10 ^ p) + n mod 10" by (rule mod_mult2_eq)
  moreover have "char_of (48 + n mod 10) = CHR ''0'' \<longleftrightarrow> n mod 10 = 0"
    by (simp add: char_of_eq_iff take_bit_eq_mod)
  ultimately show ?case using Suc.IH [of "n div 10"] by auto
qed simp

lemma pad_dec_digits: "list_all is_digit (pad_dec p n)"
  by (induction p arbitrary: n) simp_all

lemma fmtFrac_Nil: "v mod 10 ^ prec = 0 \<Longrightarrow> fmtFrac v prec = []"
  using pad_dec_zero [of prec "v mod 10 ^ prec"]
  by (simp add: fmtFrac_def Let_def list_all_iff dropWhile_eq_Nil_conv)

lemma fmtFrac_point: "v mod 10 ^ prec \<noteq> 0 \<Longrightarrow> CHR ''.'' \<in> set (fmtFrac v prec)"
  using pad_dec_zero [of prec "v mod 10 ^ prec"]
  by (auto simp: fmtFrac_def Let_def list_all_iff dropWhile_eq_Nil_conv)

definition duration_printable :: "int \<Rightarrow> bool" where
  "duration_printable d \<longleftrightarrow> 0 \<le> d \<and>
     (d mod 1000000000 = 0 \<or> d < 1000000000 \<and> d mod 1000000 = 0 \<or> d < 1000)"

lemma not_duration_char [simp]:
  "\<not> duration_char CHR ''.''" "\<not> duration_char CHR ''-''" "\<not> duration_char (char_of (194 :: nat))"
  by (simp_all add: duration_char_def is_digit_def char_of_eq_iff)

lemma abs_Duration_String_bad:
  assumes "\<not> duration_printable (int u)"
  shows "\<exists>c \<in> set (abs_Duration_String u). \<not> duration_char c"
proof -
  have n: "u mod 1000000000 \<noteq> 0" "1000000000 \<le> u \<or> u mod 1000000 \<noteq> 0" "1000 \<le> u"
    using assms zmod_int [of u 1000000000] zmod_int [of u 1000000] by (auto simp: duration_printable_def)
  consider "u < 1000000" | "1000000 \<le> u" "u < 1000000000" | "1000000000 \<le> u" by linarith
  then show ?thesis
  proof cases
    case 1
    with n have "char_of (194 :: nat) \<in> set (abs_Duration_String u)"
      by (simp add: abs_Duration_String_def micro_def)
    then show ?thesis by (meson not_duration_char(3))
  next
    case 2
    with n fmtFrac_point [of u 6] have "CHR ''.'' \<in> set (abs_Duration_String u)"
      by (simp add: abs_Duration_String_def)
    then show ?thesis by (meson not_duration_char(1))
  next
    case 3
    with n fmtFrac_point [of u 9] have "CHR ''.'' \<in> set (abs_Duration_String u)"
      by (simp add: abs_Duration_String_def Let_def)
    then show ?thesis by (meson not_duration_char(1))
  qed
qed

lemma rmatch_Sp_simps:
  "rmatch (Sp # rs) [] = rmatch rs []"
  "c \<noteq> CHR '' '' \<Longrightarrow> rmatch (Sp # rs) (c # t) = rmatch rs (c # t)"
  "rmatch (Sp # rs) (nat_dec n @ c # t) = rmatch rs (nat_dec n @ c # t)"
  by simp_all

lemma rmatch_Grp_simps:
  "rmatch (Grp u # rs) [] = map_option (\<lambda>g. [] # g) (rmatch rs [])"
  "\<not> is_digit c \<Longrightarrow> rmatch (Grp u # rs) (c # t) = map_option (\<lambda>g. [] # g) (rmatch rs (c # t))"
  "\<not> is_digit c \<Longrightarrow> rmatch (Grp u # rs) (nat_dec n @ c # t) =
     (case (if HasPrefix (c # t) u then rmatch rs (drop (length u) (c # t)) else None) of
        Some g \<Rightarrow> Some (nat_dec n # g) | None \<Rightarrow> map_option (\<lambda>g. [] # g) (rmatch rs (nat_dec n @ c # t)))"
  by (simp_all add: Let_def)

lemma unit_not_digit:
  "\<not> is_digit CHR ''s''" "\<not> is_digit CHR ''m''" "\<not> is_digit CHR ''n''" "\<not> is_digit CHR ''h''"
  by (simp_all add: is_digit_def)

declare rmatch.simps(2,3) [simp del]

lemmas rmatch_eval = durationRegex_def rmatch_Sp_simps rmatch_Grp_simps unit_not_digit

lemma rmatch_seconds:
  "rmatch durationRegex (nat_dec s @ ''s'') = Some [[], [], [], [], nat_dec s, [], []]"
  "rmatch durationRegex (nat_dec m @ CHR ''m'' # nat_dec s @ ''s'') = Some [[], [], [], nat_dec m, nat_dec s, [], []]"
  "rmatch durationRegex (nat_dec h @ CHR ''h'' # nat_dec m @ CHR ''m'' # nat_dec s @ ''s'') =
     Some [[], [], nat_dec h, nat_dec m, nat_dec s, [], []]"
  by (simp_all add: rmatch_eval)

lemma rmatch_subseconds:
  "rmatch durationRegex (nat_dec s @ ''ms'') = Some [[], [], [], [], [], nat_dec s, []]"
  "rmatch durationRegex (nat_dec s @ ''ns'') = Some [[], [], [], [], [], [], nat_dec s]"
  by (simp_all add: rmatch_eval)

lemma nat_dec_append_not_0: "\<not> is_digit c \<Longrightarrow> nat_dec n @ c # t \<noteq> ''0''"
  by (metis append_eq_Cons_conv append_is_Nil_conv list.distinct(1) nat_dec_nonempty)

lemma abs_Duration_String_good:
  assumes "duration_printable (int u)" "u < 2 ^ 63"
  shows "parseDuration (abs_Duration_String u) = Ok (int u)"
proof -
  consider "u = 0" | "0 < u" "u < 1000" | "1000 \<le> u" "u < 1000000000" "u mod 1000000 = 0"
    | "1000000000 \<le> u" "u mod 1000000000 = 0"
    using assms(1) zmod_int [of u 1000000000] zmod_int [of u 1000000] unfolding duration_printable_def by fastforce
  then show ?thesis
  proof cases
    case 1
    have "nat_dec 0 = ''0''" by (simp add: nat_dec.simps char_of_eq_iff)
    then have "rmatch durationRegex ''0s'' = Some [[], [], [], [], ''0'', [], []]"
      using rmatch_seconds(1) [of 0] by simp
    then show ?thesis using 1 by (simp add: parseDuration_def abs_Duration_String_def duration_units_def
          add_group_def Atoi_def ParseInt_def is_digit_def digits_val_def digit_val_def)
  next
    case 2
    then show ?thesis by (simp add: parseDuration_def abs_Duration_String_def duration_units_def rmatch_subseconds
          nat_dec_append_not_0 unit_not_digit add_group_simps)
  next
    case 3
    then obtain k where k: "u = 1000000 * k" by (auto elim: dvdE)
    with 3 have "0 < k" "k < 1000" by auto
    with 3 k fmtFrac_Nil [of u 6] show ?thesis
      by (simp add: parseDuration_def abs_Duration_String_def duration_units_def rmatch_subseconds
          nat_dec_append_not_0 unit_not_digit add_group_simps)
  next
    case 4
    then obtain k where k: "u = 1000000000 * k" by (auto elim: dvdE)
    define s m h where "s = k mod 60" and "m = k div 60 mod 60" and "h = k div 60 div 60"
    have K: "k = (h * 60 + m) * 60 + s" by (simp add: s_def m_def h_def)
    have b: "s < 60" "m < 60" by (simp_all add: s_def m_def)
    have "k < 9223372037" using assms(2) k by simp
    then have kb: "(h * 60 + m) * 60 + s < 9223372037" using K by linarith
    note b = b kb
    have f: "fmtFrac u 9 = []" by (rule fmtFrac_Nil) (simp add: k)
    have str: "abs_Duration_String u = (if k div 60 = 0 then nat_dec s @ ''s''
        else if h = 0 then nat_dec m @ ''m'' @ nat_dec s @ ''s''
        else nat_dec h @ ''h'' @ nat_dec m @ ''m'' @ nat_dec s @ ''s'')"
      using 4 f by (simp add: abs_Duration_String_def Let_def k s_def m_def h_def)
    have z: "k div 60 = 0 \<longleftrightarrow> h = 0 \<and> m = 0" using b by (auto simp: K)
    show ?thesis
      unfolding str using b
      by (auto simp: parseDuration_def duration_units_def rmatch_seconds nat_dec_append_not_0 unit_not_digit
          add_group_simps Hour_def z k K algebra_simps)
  qed
qed

lemma parse_Duration_String:
  assumes "- (2 ^ 63) \<le> d" "d < 2 ^ 63"
  shows "parseDuration (Duration_String d) =
    (if duration_printable d then Ok d else Err (OtherError ''invalid duration''))"
proof (cases "0 \<le> d")
  case True
  then obtain u where d: "d = int u" by (metis nonneg_int_cases)
  with assms have "u < 2 ^ 63" by simp
  then show ?thesis
    using abs_Duration_String_good [of u] parseDuration_chars [OF abs_Duration_String_bad [of u]]
    by (simp add: d Duration_String_def)
next
  case False
  then have "\<exists>c \<in> set (Duration_String d). \<not> duration_char c" by (simp add: Duration_String_def)
  from parseDuration_chars [OF this] show ?thesis using False by (simp add: duration_printable_def)
qed



subsection \<open>The JSON form\<close>

lemma plain_digit: "is_digit c \<Longrightarrow> plain_char c"
  by (auto simp: is_digit_def plain_char_def json_escape_char_def Let_def)

lemma plain_digits: "list_all is_digit s \<Longrightarrow> list_all plain_char s"
  by (auto simp: list_all_iff plain_digit)

lemma plain_fmtFrac: "list_all plain_char (fmtFrac v p)"
proof -
  have "set (rev (dropWhile (\<lambda>c. c = CHR ''0'') (rev (pad_dec p (v mod 10 ^ p))))) \<subseteq> set (pad_dec p (v mod 10 ^ p))"
    by (metis set_dropWhileD set_rev subsetI)
  moreover have "plain_char CHR ''.''" by (simp add: plain_char_def json_escape_char_def)
  ultimately show ?thesis
    using plain_digits [OF pad_dec_digits [of p "v mod 10 ^ p"]]
    by (auto simp: fmtFrac_def Let_def list_all_iff)
qed

lemma plain_Duration_String: "list_all plain_char (Duration_String d)"
proof -
  have p: "list_all plain_char ''ns-mh''" "list_all plain_char micro"
    by (simp_all add: plain_char_def json_escape_char_def micro_def Let_def)
  then have "list_all plain_char (abs_Duration_String u)" for u
    by (simp add: abs_Duration_String_def plain_digits plain_fmtFrac Let_def)
      (simp add: plain_char_def json_escape_char_def plain_digits Let_def char_of_eq_iff)
  with p show ?thesis by (simp add: Duration_String_def)
qed

lemma MarshalledDuration_json_text:
  "MarshalledDuration_UnmarshalJSON (render ft (MarshalledDuration_MarshalJSON d)) = parseDuration (Duration_String d)"
  unfolding MarshalledDuration_MarshalJSON_def render_plain [OF plain_Duration_String]
  by (simp add: MarshalledDuration_UnmarshalJSON_def subslice_def)

definition duration_wf :: "int \<Rightarrow> bool" where
  "duration_wf d \<longleftrightarrow> duration_printable d \<and> d < 2 ^ 63"

interpretation duration_json:
  codec "\<lambda>d. render ft (MarshalledDuration_MarshalJSON d)" MarshalledDuration_UnmarshalJSON duration_wf
proof
  show "MarshalledDuration_UnmarshalJSON (render ft (MarshalledDuration_MarshalJSON d)) = Ok d" if "duration_wf d" for d
  proof -
    have "0 \<le> d" "d < 2 ^ 63" using that by (auto simp: duration_wf_def duration_printable_def)
    then have "parseDuration (Duration_String d) = Ok d"
      using that abs_Duration_String_good [of "nat d"] by (simp add: duration_wf_def Duration_String_def nat_less_iff)
    then show ?thesis by (simp add: MarshalledDuration_json_text)
  qed
qed

end
