(* ===== verification/Policies.thy ===== *)
theory Policies
  imports Rpc Durations
begin

section \<open>Retention policies (common/pkg/types/offchain/retentionpolicies.go)\<close>

text \<open>
  The policy types with their JSON encodings, \<^verbatim>\<open>Validate\<close> and the comparison functions. The lemmas
  characterise the policies that \<^verbatim>\<open>Validate\<close> accepts, show that \<^verbatim>\<open>Equal\<close> is equality, and say which
  policies survive being stored as JSON.
\<close>

record PolicyAction =
  pa_Type :: string
  pa_RuleGroup :: string
  pa_RetentionPeriod :: int
  pa_Volume :: nat

record Match =
  ma_Channel :: "string option"
  ma_EventId :: "int option"
  ma_ProviderGuid :: "string option"

record Filter =
  fi_Label :: string
  fi_Match :: Match
  fi_PolicyAction :: PolicyAction

record RetentionPolicy =
  rp_Filters :: "Filter list"

record StoredPolicy =
  so_Policy :: RetentionPolicy
  so_Author :: Principal
  so_AppliedAt :: int

definition RuleGroupingGlobal :: string where "RuleGroupingGlobal = ''global''"
definition RuleGroupingPrincipal :: string where "RuleGroupingPrincipal = ''principal''"
definition PolicyTypeTimestamp :: string where "PolicyTypeTimestamp = ''timestamp''"
definition PolicyTypeCount :: string where "PolicyTypeCount = ''count''"

definition NewStoredPolicy :: "RetentionPolicy \<Rightarrow> Principal \<Rightarrow> int \<Rightarrow> StoredPolicy" where
  "NewStoredPolicy policy author appliedAt = \<lparr>so_Policy = policy, so_Author = author, so_AppliedAt = appliedAt\<rparr>"

text \<open>The loop of \<^verbatim>\<open>Validate\<close>, with \<^verbatim>\<open>hasCountFilter\<close> as its accumulator.\<close>

fun Validate_loop :: "bool \<Rightarrow> Filter list \<Rightarrow> unit res" where
  "Validate_loop hasCountFilter [] = Ok ()"
| "Validate_loop hasCountFilter (f # fs) =
     (let a = fi_PolicyAction f in
      if pa_Type a = PolicyTypeCount then
        if hasCountFilter then Err (OtherError ''only one count filter can be defined'')
        else if pa_Volume a = 0 then Err (OtherError ''count filter volume must be greater than 0'')
        else if pa_RetentionPeriod a \<noteq> 0 then Err (OtherError ''count filter cannot have retention period'')
        else if pa_RuleGroup a \<noteq> RuleGroupingGlobal \<and> pa_RuleGroup a \<noteq> RuleGroupingPrincipal
          then Err (OtherError ''invalid rule grouping'')
        else Validate_loop True fs
      else if pa_Type a = PolicyTypeTimestamp then
        if pa_RetentionPeriod a = 0
          then Err (OtherError ''timestamp filter retention period must be greater than 0'')
        else if pa_RuleGroup a \<noteq> [] \<and> pa_RuleGroup a \<noteq> RuleGroupingGlobal
          then Err (OtherError ''timestamp filter cannot have rule grouping (applyTo)'')
        else if pa_Volume a \<noteq> 0 then Err (OtherError ''timestamp filter cannot have volume'')
        else Validate_loop hasCountFilter fs
      else Err (OtherError ''invalid policy type''))"

definition RetentionPolicy_Validate :: "RetentionPolicy \<Rightarrow> unit res" where
  "RetentionPolicy_Validate p =
     (if length (rp_Filters p) = 0 then Err (OtherError ''no filters defined'')
      else Validate_loop False (rp_Filters p))"

definition isEqual :: "'a option \<Rightarrow> 'a option \<Rightarrow> bool" where
  "isEqual p1 p2 =
     (if p1 = None \<and> p2 = None then True
      else if p1 = None \<or> p2 = None then False
      else the p1 = the p2)"

definition Match_Equal :: "Match \<Rightarrow> Match \<Rightarrow> bool" where
  "Match_Equal m other = (isEqual (ma_Channel m) (ma_Channel other) \<and> isEqual (ma_EventId m) (ma_EventId other)
     \<and> isEqual (ma_ProviderGuid m) (ma_ProviderGuid other))"

definition Filter_Equal :: "Filter \<Rightarrow> Filter \<Rightarrow> bool" where
  "Filter_Equal f other = (fi_Label f = fi_Label other \<and> Match_Equal (fi_Match f) (fi_Match other)
     \<and> fi_PolicyAction f = fi_PolicyAction other)"

fun filters_equal :: "Filter list \<Rightarrow> Filter list \<Rightarrow> bool" where
  "filters_equal [] _ = True"
| "filters_equal (f # fs) (g # gs) = (if \<not> Filter_Equal f g then False else filters_equal fs gs)"
| "filters_equal (f # fs) [] = False"

definition RetentionPolicy_Equal :: "RetentionPolicy \<Rightarrow> RetentionPolicy \<Rightarrow> bool" where
  "RetentionPolicy_Equal p other =
     (if length (rp_Filters p) \<noteq> length (rp_Filters other) then False
      else filters_equal (rp_Filters p) (rp_Filters other))"

definition StoredPolicy_Equal :: "StoredPolicy \<Rightarrow> StoredPolicy \<Rightarrow> bool" where
  "StoredPolicy_Equal p other = (RetentionPolicy_Equal (so_Policy p) (so_Policy other)
     \<and> so_Author p = so_Author other \<and> so_AppliedAt p = so_AppliedAt other)"

subsection \<open>JSON encodings\<close>

definition PolicyAction_json :: "PolicyAction \<Rightarrow> json" where
  "PolicyAction_json a = JObj [(''type'', JStr (pa_Type a)), (''rule_group'', JStr (pa_RuleGroup a)),
     (''retention_period'', MarshalledDuration_MarshalJSON (pa_RetentionPeriod a)),
     (''volume'', JNum (nat_dec (pa_Volume a)))]"

definition Match_json :: "Match \<Rightarrow> json" where
  "Match_json m = JObj [(''channel'', jptr JStr (ma_Channel m)), (''event_id'', jptr jnum (ma_EventId m)),
     (''provider'', jptr JStr (ma_ProviderGuid m))]"

definition Filter_json :: "Filter \<Rightarrow> json" where
  "Filter_json f = JObj [(''label'', JStr (fi_Label f)), (''match'', Match_json (fi_Match f)),
     (''policy'', PolicyAction_json (fi_PolicyAction f))]"

definition RetentionPolicy_json :: "RetentionPolicy \<Rightarrow> json" where
  "RetentionPolicy_json p = JObj [(''filters'', JArr (map Filter_json (rp_Filters p)))]"

definition StoredPolicy_json :: "StoredPolicy \<Rightarrow> json" where
  "StoredPolicy_json p = JObj [(''policy'', RetentionPolicy_json (so_Policy p)),
     (''author'', JStr (so_Author p)), (''applied_at'', JTime (so_AppliedAt p))]"

definition PolicyAction_of_json :: "extlib \<Rightarrow> json \<Rightarrow> PolicyAction res" where
  "PolicyAction_of_json lib j = bind_res (jfields j) (\<lambda>fs.
     bind_res (jstring ''type'' fs) (\<lambda>t.
     bind_res (jstring ''rule_group'' fs) (\<lambda>g.
     bind_res (jcustom (rfc3339 lib) MarshalledDuration_UnmarshalJSON 0 ''retention_period'' fs) (\<lambda>d.
     bind_res (juint64 ''volume'' fs) (\<lambda>v.
       Ok \<lparr>pa_Type = t, pa_RuleGroup = g, pa_RetentionPeriod = d, pa_Volume = v\<rparr>)))))"

definition Match_of_json :: "json \<Rightarrow> Match res" where
  "Match_of_json j = bind_res (jfields j) (\<lambda>fs.
     bind_res (jstring_ptr ''channel'' fs) (\<lambda>c.
     bind_res (jint_ptr ''event_id'' fs) (\<lambda>e.
     bind_res (jstring_ptr ''provider'' fs) (\<lambda>p.
       Ok \<lparr>ma_Channel = c, ma_EventId = e, ma_ProviderGuid = p\<rparr>))))"

definition Filter_of_json :: "extlib \<Rightarrow> json \<Rightarrow> Filter res" where
  "Filter_of_json lib j = bind_res (jfields j) (\<lambda>fs.
     bind_res (jstring ''label'' fs) (\<lambda>l.
     bind_res (jstruct Match_of_json ''match'' fs) (\<lambda>m.
     bind_res (jstruct (PolicyAction_of_json lib) ''policy'' fs) (\<lambda>a.
       Ok \<lparr>fi_Label = l, fi_Match = m, fi_PolicyAction = a\<rparr>))))"

definition RetentionPolicy_of_json :: "extlib \<Rightarrow> json \<Rightarrow> RetentionPolicy res" where
  "RetentionPolicy_of_json lib j = bind_res (jfields j) (\<lambda>fs.
     bind_res (jarray (Filter_of_json lib) ''filters'' fs) (\<lambda>fl. Ok \<lparr>rp_Filters = fl\<rparr>))"

definition StoredPolicy_of_json :: "extlib \<Rightarrow> json \<Rightarrow> StoredPolicy res" where
  "StoredPolicy_of_json lib j = bind_res (jfields j) (\<lambda>fs.
     bind_res (jstruct (RetentionPolicy_of_json lib) ''policy'' fs) (\<lambda>p.
     bind_res (jstring ''author'' fs) (\<lambda>a.
     bind_res (jtime ''applied_at'' fs) (\<lambda>t.
       Ok \<lparr>so_Policy = p, so_Author = a, so_AppliedAt = t\<rparr>))))"

text \<open>retention/rpc.go\<close>

record SetPolicyRequest =
  sr_Policy :: RetentionPolicy
  sr_Nonce :: bytes

definition SetPolicyRequest_of_json :: "extlib \<Rightarrow> json \<Rightarrow> SetPolicyRequest res" where
  "SetPolicyRequest_of_json lib j = bind_res (jfields j) (\<lambda>fs.
     bind_res (jstruct (RetentionPolicy_of_json lib) ''policy'' fs) (\<lambda>p.
     bind_res (juuid lib ''nonce'' fs) (\<lambda>n. Ok \<lparr>sr_Policy = p, sr_Nonce = n\<rparr>)))"

subsection \<open>What Validate accepts\<close>

definition count_ok :: "PolicyAction \<Rightarrow> bool" where
  "count_ok a \<longleftrightarrow> pa_Type a = PolicyTypeCount \<and> pa_Volume a > 0 \<and> pa_RetentionPeriod a = 0 \<and>
     pa_RuleGroup a \<in> {RuleGroupingGlobal, RuleGroupingPrincipal}"

definition timestamp_ok :: "PolicyAction \<Rightarrow> bool" where
  "timestamp_ok a \<longleftrightarrow> pa_Type a = PolicyTypeTimestamp \<and> pa_RetentionPeriod a \<noteq> 0 \<and>
     pa_RuleGroup a \<in> {[], RuleGroupingGlobal} \<and> pa_Volume a = 0"

definition is_count :: "Filter \<Rightarrow> bool" where
  "is_count f \<longleftrightarrow> pa_Type (fi_PolicyAction f) = PolicyTypeCount"

lemma policy_types_distinct [simp]: "PolicyTypeCount \<noteq> PolicyTypeTimestamp" "PolicyTypeTimestamp \<noteq> PolicyTypeCount"
  by (simp_all add: PolicyTypeCount_def PolicyTypeTimestamp_def)

lemma Validate_loop_Ok:
  "Validate_loop has fs = Ok u \<longleftrightarrow>
     (\<forall>f \<in> set fs. count_ok (fi_PolicyAction f) \<or> timestamp_ok (fi_PolicyAction f))
     \<and> length (filter is_count fs) \<le> (if has then 0 else 1)"
proof (induction has fs rule: Validate_loop.induct)
  case (2 has f fs)
  show ?case
  proof (cases "pa_Type (fi_PolicyAction f) = PolicyTypeCount")
    case True
    then have "Validate_loop has (f # fs) = Ok u \<longleftrightarrow>
        \<not> has \<and> count_ok (fi_PolicyAction f) \<and> Validate_loop True fs = Ok u"
      by (simp add: Let_def count_ok_def)
    moreover have "is_count f" "\<not> timestamp_ok (fi_PolicyAction f)" using True by (simp_all add: is_count_def timestamp_ok_def)
    moreover have "Validate_loop True fs = Ok u \<longleftrightarrow>
        (\<forall>f \<in> set fs. count_ok (fi_PolicyAction f) \<or> timestamp_ok (fi_PolicyAction f)) \<and> length (filter is_count fs) \<le> 0"
      if "\<not> has" "count_ok (fi_PolicyAction f)"
      using "2.IH"(1) [OF refl True that(1)] that(2) by (simp add: count_ok_def)
    ultimately show ?thesis by (cases has) auto
  next
    case False
    then have "Validate_loop has (f # fs) = Ok u \<longleftrightarrow> timestamp_ok (fi_PolicyAction f) \<and> Validate_loop has fs = Ok u"
      by (simp add: Let_def timestamp_ok_def)
    moreover have "\<not> is_count f" "\<not> count_ok (fi_PolicyAction f)" using False by (simp_all add: is_count_def count_ok_def)
    moreover have "Validate_loop has fs = Ok u \<longleftrightarrow>
        (\<forall>f \<in> set fs. count_ok (fi_PolicyAction f) \<or> timestamp_ok (fi_PolicyAction f))
        \<and> length (filter is_count fs) \<le> (if has then 0 else 1)"
      if "timestamp_ok (fi_PolicyAction f)"
      using "2.IH"(2) [OF refl False] that by (simp add: timestamp_ok_def)
    ultimately show ?thesis by auto
  qed
qed simp

text \<open>
  \<^verbatim>\<open>Validate\<close> accepts a policy exactly when it has a filter, every filter is a well-formed count
  filter (positive volume, no period, grouped globally or by principal) or a well-formed timestamp
  filter (a period, no volume, no grouping but the global one), and at most one is a count filter.
\<close>

lemma Validate_Ok_iff:
  "RetentionPolicy_Validate p = Ok u \<longleftrightarrow> rp_Filters p \<noteq> []
     \<and> (\<forall>f \<in> set (rp_Filters p). count_ok (fi_PolicyAction f) \<or> timestamp_ok (fi_PolicyAction f))
     \<and> length (filter is_count (rp_Filters p)) \<le> 1"
  by (auto simp: RetentionPolicy_Validate_def Validate_loop_Ok)

subsection \<open>Equality\<close>

lemma isEqual_iff [simp]: "isEqual p q \<longleftrightarrow> p = q"
  by (cases p; cases q) (simp_all add: isEqual_def)

lemma Filter_Equal_iff [simp]: "Filter_Equal f g \<longleftrightarrow> f = g"
  by (auto simp: Filter_Equal_def Match_Equal_def)

lemma filters_equal_iff: "length fs = length gs \<Longrightarrow> filters_equal fs gs \<longleftrightarrow> fs = gs"
  by (induction fs gs rule: filters_equal.induct) auto

lemma StoredPolicy_Equal_iff [simp]: "StoredPolicy_Equal p q \<longleftrightarrow> p = q"
  by (auto simp: StoredPolicy_Equal_def RetentionPolicy_Equal_def filters_equal_iff)

subsection \<open>Storing a policy\<close>

definition Filter_wf :: "Filter \<Rightarrow> bool" where
  "Filter_wf f \<longleftrightarrow> pred_option int64 (ma_EventId (fi_Match f)) \<and> pa_Volume (fi_PolicyAction f) < 2 ^ 64
     \<and> duration_wf (pa_RetentionPeriod (fi_PolicyAction f))"

lemma PolicyAction_json_decode:
  assumes "pa_Volume a < 2 ^ 64"
  shows "PolicyAction_of_json lib (PolicyAction_json a) =
    bind_res (parseDuration (Duration_String (pa_RetentionPeriod a))) (\<lambda>d. Ok (a\<lparr>pa_RetentionPeriod := d\<rparr>))"
  using assms
  by (cases a) (simp add: PolicyAction_of_json_def PolicyAction_json_def jcustom_def jstring_def juint64_def
      MarshalledDuration_json_text ToLower_def to_lower_char_def)

lemma Match_json_roundtrip:
  assumes "pred_option int64 (ma_EventId m)"
  shows "Match_of_json (Match_json m) = Ok m"
  using assms jint_ptr_jnum [of "ma_EventId m" "''event_id''"]
  by (simp add: Match_of_json_def Match_json_def jstring_ptr_JStr ToLower_def to_lower_char_def)

lemma duration_wf_parse: "duration_wf d \<Longrightarrow> parseDuration (Duration_String d) = Ok d"
  using duration_json.dec_enc [of d rfc] by (simp add: MarshalledDuration_json_text)

lemma Filter_json_roundtrip: "Filter_wf f \<Longrightarrow> Filter_of_json lib (Filter_json f) = Ok f"
  by (simp add: Filter_of_json_def Filter_json_def jstruct_def jstring_def Match_json_roundtrip
      PolicyAction_json_decode duration_wf_parse Filter_wf_def ToLower_def to_lower_char_def)

lemma RetentionPolicy_json_roundtrip:
  "\<forall>f \<in> set (rp_Filters p). Filter_wf f \<Longrightarrow> RetentionPolicy_of_json lib (RetentionPolicy_json p) = Ok p"
  by (simp add: RetentionPolicy_of_json_def RetentionPolicy_json_def jarray_def map_res_list_map Filter_json_roundtrip)

interpretation policy_json: codec StoredPolicy_json "StoredPolicy_of_json lib"
    "\<lambda>p. \<forall>f \<in> set (rp_Filters (so_Policy p)). Filter_wf f"
  by unfold_locales (simp add: StoredPolicy_of_json_def StoredPolicy_json_def jstruct_def jstring_def jtime_def
      RetentionPolicy_json_roundtrip ToLower_def to_lower_char_def)

text \<open>A policy with a filter whose period cannot be printed is not read back.\<close>

lemma map_res_list_Err:
  assumes "\<forall>y \<in> set xs. f y = Err e \<or> is_ok (f y)" "\<exists>y \<in> set xs. f y = Err e"
  shows "map_res_list f xs = Err e"
  using assms
proof (induction xs)
  case (Cons a xs)
  show ?case
  proof (cases "f a")
    case (Ok v)
    with Cons have "map_res_list f xs = Err e" by auto
    with Ok show ?thesis by simp
  next
    case (Err e')
    with Cons.prems(1) show ?thesis by simp
  qed (use Cons.prems(1) in auto)
qed simp

definition Filter_ints :: "Filter \<Rightarrow> bool" where
  "Filter_ints f \<longleftrightarrow> pred_option int64 (ma_EventId (fi_Match f)) \<and> pa_Volume (fi_PolicyAction f) < 2 ^ 64
     \<and> int64 (pa_RetentionPeriod (fi_PolicyAction f))"

lemma Filter_json_decode:
  assumes "Filter_ints f"
  shows "Filter_of_json lib (Filter_json f) = (if duration_printable (pa_RetentionPeriod (fi_PolicyAction f)) then Ok f
    else Err (OtherError ''invalid duration''))"
  using assms parse_Duration_String [of "pa_RetentionPeriod (fi_PolicyAction f)"]
  by (simp add: Filter_of_json_def Filter_json_def jstruct_def jstring_def Match_json_roundtrip
      PolicyAction_json_decode Filter_ints_def int64_def ToLower_def to_lower_char_def)

lemma StoredPolicy_json_decode:
  assumes "\<forall>f \<in> set (rp_Filters (so_Policy p)). Filter_ints f"
  shows "StoredPolicy_of_json lib (StoredPolicy_json p) =
    (if \<forall>f \<in> set (rp_Filters (so_Policy p)). duration_printable (pa_RetentionPeriod (fi_PolicyAction f)) then Ok p
     else Err (OtherError ''invalid duration''))"
proof (cases "\<forall>f \<in> set (rp_Filters (so_Policy p)). duration_printable (pa_RetentionPeriod (fi_PolicyAction f))")
  case True
  then have "\<forall>f \<in> set (rp_Filters (so_Policy p)). Filter_wf f"
    using assms by (auto simp: Filter_wf_def Filter_ints_def duration_wf_def int64_def)
  with True policy_json.dec_enc [of p lib] show ?thesis by simp
next
  case False
  have "map_res_list (Filter_of_json lib) (map Filter_json (rp_Filters (so_Policy p))) = Err (OtherError ''invalid duration'')"
    by (rule map_res_list_Err) (use assms False in \<open>auto simp: Filter_json_decode\<close>)
  then show ?thesis using False
    by (auto simp: StoredPolicy_of_json_def StoredPolicy_json_def jstruct_def RetentionPolicy_of_json_def
        RetentionPolicy_json_def jarray_def ToLower_def to_lower_char_def)
qed

end
