(* ===== verification/AppTypes.thy ===== *)
theory AppTypes
  imports Policies
begin

section \<open>ABCI responses and codes (wineventchain/pkg/multiplexer/app.go and the codes.go files)\<close>

text \<open>
  The responses that the applications give to CometBFT, the error response they are built from, and
  the result codes. A commit function, which the source returns as a closure, is a value of type
  \<open>commit\<close> that carries what the closure has captured. The text of an error is \<open>err_Error\<close>; for errors
  of libraries it is abbreviated.
\<close>

subsection \<open>Result codes\<close>

definition CodeOk :: nat where "CodeOk = 0"

definition mux_Codespace :: string where "mux_Codespace = ''multiplex''"
definition CodeUnknownError :: nat where "CodeUnknownError = 1"
definition CodeEncodingError :: nat where "CodeEncodingError = 2"
definition CodeUnknownApp :: nat where "CodeUnknownApp = 3"
definition CodeInvalidValidatorTx :: nat where "CodeInvalidValidatorTx = 4"

definition rpc_Codespace :: string where "rpc_Codespace = ''rpc''"
definition rpc_CodeUnknownRequestType :: nat where "rpc_CodeUnknownRequestType = 1"
definition rpc_CodeInvalidSignature :: nat where "rpc_CodeInvalidSignature = 2"

definition identity_Codespace :: string where "identity_Codespace = ''identity''"
definition identity_CodeUnknownRequestType :: nat where "identity_CodeUnknownRequestType = 1002"
definition identity_CodeInvalidSignature :: nat where "identity_CodeInvalidSignature = 1003"
definition CodeAlreadySeeded :: nat where "CodeAlreadySeeded = 1004"
definition identity_CodeUnauthorized :: nat where "identity_CodeUnauthorized = 1005"
definition CodeNotFound :: nat where "CodeNotFound = 1006"
definition CodePrincipalAlreadyExists :: nat where "CodePrincipalAlreadyExists = 1007"
definition identity_CodeTreeUninitialized :: nat where "identity_CodeTreeUninitialized = 1008"
definition identity_CodeUnknownError :: nat where "identity_CodeUnknownError = 1009"

definition events_Codespace :: string where "events_Codespace = ''events''"
definition events_CodeUnknownError :: nat where "events_CodeUnknownError = 1"
definition CodeInvalidQueryPath :: nat where "CodeInvalidQueryPath = 2"
definition CodeEventNotFound :: nat where "CodeEventNotFound = 3"
definition events_CodeTreeUninitialized :: nat where "events_CodeTreeUninitialized = 4"

definition retention_Codespace :: string where "retention_Codespace = ''retention_policy''"
definition retention_CodeUnknownRequestType :: nat where "retention_CodeUnknownRequestType = 4002"
definition CodeUnsupportedRequest :: nat where "CodeUnsupportedRequest = 4003"
definition retention_CodeUnauthorized :: nat where "retention_CodeUnauthorized = 4004"
definition CodePolicyAlreadySet :: nat where "CodePolicyAlreadySet = 4005"
definition CodePolicyNotSet :: nat where "CodePolicyNotSet = 4006"
definition CodeInvalidPolicy :: nat where "CodeInvalidPolicy = 4007"

lemmas code_defs = CodeOk_def CodeUnknownError_def CodeEncodingError_def CodeUnknownApp_def CodeInvalidValidatorTx_def
  rpc_CodeUnknownRequestType_def rpc_CodeInvalidSignature_def identity_CodeUnknownRequestType_def
  identity_CodeInvalidSignature_def CodeAlreadySeeded_def identity_CodeUnauthorized_def CodeNotFound_def
  CodePrincipalAlreadyExists_def identity_CodeTreeUninitialized_def identity_CodeUnknownError_def
  events_CodeUnknownError_def CodeInvalidQueryPath_def CodeEventNotFound_def events_CodeTreeUninitialized_def
  retention_CodeUnknownRequestType_def CodeUnsupportedRequest_def retention_CodeUnauthorized_def
  CodePolicyAlreadySet_def CodePolicyNotSet_def CodeInvalidPolicy_def

subsection \<open>Responses\<close>

record AbciEvent =
  ae_Type :: string
  ae_Attributes :: "(string \<times> string \<times> bool) list"

definition utils_Event :: "string \<Rightarrow> (string \<times> string \<times> bool) list \<Rightarrow> AbciEvent" where
  "utils_Event eventName attributes = \<lparr>ae_Type = eventName, ae_Attributes = attributes\<rparr>"

record ExecTxResult =
  tr_Code :: nat
  tr_Data :: "json option"
  tr_Log :: string
  tr_Events :: "AbciEvent list"
  tr_Codespace :: string

record ResponseCheckTx =
  ck_Code :: nat
  ck_Log :: string
  ck_Codespace :: string

datatype CommitmentProof =
    CommitmentProof_Exist bytes
  | CommitmentProof_Nonexist bytes
  | CommitmentProof_Other bytes

record ProofOp =
  po_Type :: string
  po_Key :: bytes
  po_Data :: json

record ResponseQuery =
  rq_Code :: nat
  rq_Log :: string
  rq_Index :: int
  rq_Key :: bytes
  rq_Value :: "json option"
  rq_ProofOps :: "ProofOp list option"
  rq_Height :: int
  rq_Codespace :: string

record RequestQuery =
  rqq_Data :: "json option"
  rqq_Path :: string
  rqq_Height :: int
  rqq_Prove :: bool

text \<open>
  A transaction is a byte string: a JSON text or, for \<^verbatim>\<open>TxText\<close>, bytes that are not JSON. The block
  request carries the evidence of misbehaviour with its type, address and voting power.
\<close>

datatype tx = TxJson json | TxText string

record Misbehavior =
  mb_DuplicateVote :: bool
  mb_Address :: string
  mb_Power :: int

record RequestFinalizeBlock =
  fr_Txs :: "tx list"
  fr_Misbehavior :: "Misbehavior list"
  fr_Height :: int
  fr_Time :: int

text \<open>What a commit function of an application has captured.\<close>

datatype commit =
    CommitSeed Principal IdentityData
  | CommitRegister Principal IdentityData
  | CommitEvent EventWithMetadata
  | CommitPolicy StoredPolicy

record FinalizeBlockResponse =
  fb_TxResult :: ExecTxResult
  fb_AppHash :: bytes
  fb_CommitFunc :: "commit option"

record ErrorResponse =
  er_Code :: nat
  er_Codespace :: string
  er_Log :: string

fun err_Error :: "go_error \<Rightarrow> string" where
  "err_Error ErrIdentityNotFound = ''identity not found''"
| "err_Error ErrEventRecordNotFound = ''event not found''"
| "err_Error ErrTreeUninitialized = ''uninitialized merkle tree: cannot generate proof for empty tree''"
| "err_Error (OtherError s) = s"
| "err_Error _ = ''error''"

definition NewErrorResponse :: "nat \<Rightarrow> string \<Rightarrow> go_error option \<Rightarrow> ErrorResponse" where
  "NewErrorResponse code codespace err =
     \<lparr>er_Code = code, er_Codespace = codespace, er_Log = (case err of None \<Rightarrow> [] | Some e \<Rightarrow> err_Error e)\<rparr>"

definition ErrorResponse_Error :: "ErrorResponse \<Rightarrow> string" where
  "ErrorResponse_Error e = ''['' @ er_Codespace e @ '' '' @ nat_dec (er_Code e) @ ''] '' @ er_Log e"

definition IntoFinalizeBlockResponse :: "ErrorResponse \<Rightarrow> FinalizeBlockResponse" where
  "IntoFinalizeBlockResponse e =
     (let txResult = \<lparr>tr_Code = er_Code e, tr_Data = None, tr_Log = [], tr_Events = [], tr_Codespace = er_Codespace e\<rparr>;
          txResult = (if er_Log e \<noteq> [] then txResult\<lparr>tr_Log := er_Log e\<rparr> else txResult)
      in \<lparr>fb_TxResult = txResult, fb_AppHash = [], fb_CommitFunc = None\<rparr>)"

definition IntoCheckTxResponse :: "ErrorResponse \<Rightarrow> ResponseCheckTx" where
  "IntoCheckTxResponse e = \<lparr>ck_Code = er_Code e, ck_Log = er_Log e, ck_Codespace = []\<rparr>"

definition IntoQueryResponse :: "ErrorResponse \<Rightarrow> ResponseQuery" where
  "IntoQueryResponse e = \<lparr>rq_Code = er_Code e, rq_Log = er_Log e, rq_Index = 0, rq_Key = [], rq_Value = None,
     rq_ProofOps = None, rq_Height = 0, rq_Codespace = er_Codespace e\<rparr>"

text \<open>An error response for a finalised transaction or a checked one, as the handlers build it.\<close>

definition fb_error :: "nat \<Rightarrow> string \<Rightarrow> go_error option \<Rightarrow> FinalizeBlockResponse" where
  "fb_error code codespace err = IntoFinalizeBlockResponse (NewErrorResponse code codespace err)"

definition ck_error :: "nat \<Rightarrow> string \<Rightarrow> go_error option \<Rightarrow> ResponseCheckTx" where
  "ck_error code codespace err = IntoCheckTxResponse (NewErrorResponse code codespace err)"

definition q_error :: "nat \<Rightarrow> string \<Rightarrow> go_error option \<Rightarrow> ResponseQuery" where
  "q_error code codespace err = IntoQueryResponse (NewErrorResponse code codespace err)"

text \<open>\<^verbatim>\<open>json.Unmarshal\<close> of a raw message; a nil message is no JSON text.\<close>

definition json_Unmarshal :: "(json \<Rightarrow> 'a res) \<Rightarrow> json option \<Rightarrow> 'a res" where
  "json_Unmarshal un data = (case data of
     None \<Rightarrow> Err (OtherError ''unexpected end of JSON input'') | Some j \<Rightarrow> un j)"

lemma fb_error_simps [simp]:
  "fb_CommitFunc (fb_error c cs e) = None" "fb_AppHash (fb_error c cs e) = []"
  "tr_Code (fb_TxResult (fb_error c cs e)) = c" "tr_Events (fb_TxResult (fb_error c cs e)) = []"
  "fb_CommitFunc (IntoFinalizeBlockResponse er) = None"
  "tr_Code (fb_TxResult (IntoFinalizeBlockResponse er)) = er_Code er"
  by (simp_all add: fb_error_def IntoFinalizeBlockResponse_def NewErrorResponse_def Let_def)

lemma ck_error_Code [simp]: "ck_Code (ck_error c cs e) = c" "ck_Code (IntoCheckTxResponse er) = er_Code er"
  by (simp_all add: ck_error_def IntoCheckTxResponse_def NewErrorResponse_def)

subsection \<open>Key-value stores\<close>

text \<open>
  The database interface of cometbft-db, a parameter: the program reads and writes single keys. What
  it relies on is that a written value is read back, when reading does not fail, and that other keys
  keep theirs.
\<close>

record 'd dbm =
  db_Get :: "'d \<Rightarrow> bytes \<Rightarrow> json option res"
  db_Set :: "'d \<Rightarrow> bytes \<Rightarrow> json \<Rightarrow> 'd res"

definition db_laws :: "'d dbm \<Rightarrow> ('d \<Rightarrow> bytes \<rightharpoonup> json) \<Rightarrow> bool" where
  "db_laws D content \<longleftrightarrow> (\<forall>d k v. db_Get D d k = Ok v \<longrightarrow> v = content d k)
     \<and> (\<forall>d k v d'. db_Set D d k v = Ok d' \<longrightarrow> content d' = (content d)(k \<mapsto> v))"

definition mem_db :: "(bytes \<times> json) list dbm" where
  "mem_db = \<lparr>db_Get = (\<lambda>d k. Ok (map_of d k)), db_Set = (\<lambda>d k v. Ok ((k, v) # d))\<rparr>"

lemma mem_db_laws: "db_laws mem_db map_of"
  by (simp add: db_laws_def mem_db_def)

subsection \<open>Transactions of a block: first all handlers, then all commit functions\<close>

text \<open>
  Every application follows the same discipline: \<^verbatim>\<open>FinalizeBlock\<close> handles the transactions of a block
  and collects commit functions, \<^verbatim>\<open>Commit\<close> then runs them in order. \<open>run_txs\<close> and \<open>run_commits\<close> are
  these two loops for a handler \<open>fin\<close> and a commit step \<open>com\<close>.
\<close>

fun run_txs :: "('r \<Rightarrow> 's \<Rightarrow> (FinalizeBlockResponse \<times> 's) res) \<Rightarrow> 'r list \<Rightarrow> 's \<Rightarrow> (commit list \<times> 's) res" where
  "run_txs fin [] s = Ok ([], s)"
| "run_txs fin (r # rs) s = bind_res (fin r s) (\<lambda>(resp, s').
     map_res (\<lambda>(cs, s''). ((case fb_CommitFunc resp of None \<Rightarrow> [] | Some c \<Rightarrow> [c]) @ cs, s'')) (run_txs fin rs s'))"

fun run_commits :: "(commit \<Rightarrow> 's \<Rightarrow> 's res) \<Rightarrow> commit list \<Rightarrow> 's \<Rightarrow> 's res" where
  "run_commits com [] s = Ok s"
| "run_commits com (c # cs) s = bind_res (com c s) (run_commits com cs)"

definition run_block :: "('r \<Rightarrow> 's \<Rightarrow> (FinalizeBlockResponse \<times> 's) res) \<Rightarrow> (commit \<Rightarrow> 's \<Rightarrow> 's res) \<Rightarrow> 'r list \<Rightarrow> 's \<Rightarrow> 's res" where
  "run_block fin com rs s = bind_res (run_txs fin rs s) (\<lambda>(cs, s'). run_commits com cs s')"

definition commit_of :: "FinalizeBlockResponse \<Rightarrow> commit list" where
  "commit_of resp = (case fb_CommitFunc resp of None \<Rightarrow> [] | Some c \<Rightarrow> [c])"

text \<open>
  The contract of an application: an invariant \<open>handling s cs\<close> of the handlers, with the commit
  functions \<open>cs\<close> collected so far, an invariant \<open>committing s cs\<close> of the commit phase, with the commit
  functions that are still to run, and a preorder \<open>le\<close> along which the state moves.
\<close>

locale two_phase =
  fixes fin :: "'r \<Rightarrow> 's \<Rightarrow> (FinalizeBlockResponse \<times> 's) res" and com :: "commit \<Rightarrow> 's \<Rightarrow> 's res"
    and handling :: "'s \<Rightarrow> commit list \<Rightarrow> bool" and committing :: "'s \<Rightarrow> commit list \<Rightarrow> bool"
    and le :: "'s \<Rightarrow> 's \<Rightarrow> bool"
  assumes fin_step: "handling s cs \<Longrightarrow> fin r s = Ok (resp, s') \<Longrightarrow> handling s' (cs @ commit_of resp) \<and> le s s'"
    and start_commit: "handling s cs \<Longrightarrow> committing s cs"
    and com_step: "committing s (c # cs) \<Longrightarrow> com c s = Ok s' \<Longrightarrow> committing s' cs \<and> le s s'"
    and le_refl: "le s s"
    and le_trans: "le s s' \<Longrightarrow> le s' s'' \<Longrightarrow> le s s''"
begin

lemma run_txs_inv:
  "handling s ds \<Longrightarrow> run_txs fin rs s = Ok (cs, s') \<Longrightarrow> handling s' (ds @ cs) \<and> le s s'"
proof (induction rs arbitrary: s ds cs)
  case Nil
  then show ?case by (simp add: le_refl)
next
  case (Cons r rs)
  then obtain resp s1 cs1 where 1: "fin r s = Ok (resp, s1)" and 2: "run_txs fin rs s1 = Ok (cs1, s')"
    and 3: "cs = commit_of resp @ cs1"
    by (auto simp: commit_of_def)
  have "handling s1 (ds @ commit_of resp)" "le s s1" using fin_step [OF Cons.prems(1) 1] by auto
  from Cons.IH [OF this(1) 2] this(2) 3 show ?case by (auto intro: le_trans)
qed

lemma run_commits_inv:
  "committing s cs \<Longrightarrow> run_commits com cs s = Ok s' \<Longrightarrow> committing s' [] \<and> le s s'"
proof (induction cs arbitrary: s)
  case (Cons c cs)
  then obtain s1 where 1: "com c s = Ok s1" and 2: "run_commits com cs s1 = Ok s'" by auto
  from com_step [OF Cons.prems(1) 1] Cons.IH [OF _ 2] show ?case by (auto intro: le_trans)
qed (simp add: le_refl)

lemma run_block_inv:
  assumes "handling s []" "run_block fin com rs s = Ok s'"
  shows "committing s' [] \<and> le s s'"
proof -
  obtain cs s1 where 1: "run_txs fin rs s = Ok (cs, s1)" "run_commits com cs s1 = Ok s'"
    using assms(2) by (auto simp: run_block_def)
  have "handling s1 cs" "le s s1" using run_txs_inv [OF assms(1) 1(1)] by auto
  with run_commits_inv [OF start_commit 1(2)] show ?thesis
    using le_trans by blast
qed

end

text \<open>An application whose blocks can follow each other without further conditions.\<close>

locale repeatable = two_phase +
  assumes end_commit: "committing s [] \<Longrightarrow> handling s []"
begin

lemma run_blocks_inv:
  "handling s [] \<Longrightarrow> foldl (\<lambda>r b. bind_res r (run_block fin com b)) (Ok s) bs = Ok s' \<Longrightarrow> handling s' [] \<and> le s s'"
proof (induction bs arbitrary: s' rule: rev_induct)
  case (snoc b bs)
  then obtain s1 where "foldl (\<lambda>r b. bind_res r (run_block fin com b)) (Ok s) bs = Ok s1"
    and 2: "run_block fin com b s1 = Ok s'"
    by auto
  with snoc have "handling s1 []" "le s s1" by auto
  with run_block_inv [OF this(1) 2] end_commit show ?case using le_trans by blast
qed (simp add: le_refl)

end

end
