(* ===== verification/Iavl.thy ===== *)
theory Iavl
  imports AppTypes
begin

section \<open>The Merkle tree interface and its proofs (iavl, common/pkg/proof)\<close>

text \<open>
  The tree library github.com/cosmos/iavl is a parameter: a record of operations on a type \<open>'t\<close> of
  trees, with keys that are bytes and values that are JSON texts. What the program relies on is
  \<open>iavl_laws\<close>, stated through what a tree holds (\<open>view\<close>), what its last saved version holds
  (\<open>saved\<close>) and that version's number (\<open>latest\<close>); an operation may always fail instead. Proof
  verification of github.com/confio/ics23 is a parameter too.
\<close>

record 't iavl =
  iv_Get :: "'t \<Rightarrow> bytes \<Rightarrow> json option res"
  iv_GetWithIndex :: "'t \<Rightarrow> bytes \<Rightarrow> (int \<times> json option) res"
  iv_Has :: "'t \<Rightarrow> bytes \<Rightarrow> bool res"
  iv_Set :: "'t \<Rightarrow> bytes \<Rightarrow> json \<Rightarrow> 't res"
  iv_SaveVersion :: "'t \<Rightarrow> (bytes \<times> int \<times> 't) res"
  iv_Load :: "'t \<Rightarrow> (int \<times> 't) res"
  iv_LoadVersion :: "'t \<Rightarrow> int \<Rightarrow> 't res"
  iv_Rollback :: "'t \<Rightarrow> 't"
  iv_Hash :: "'t \<Rightarrow> bytes res"
  iv_GetProof :: "'t \<Rightarrow> bytes \<Rightarrow> CommitmentProof res"
  iv_Version :: "'t \<Rightarrow> int"
  iv_VersionExists :: "'t \<Rightarrow> int \<Rightarrow> bool"
  iv_Size :: "'t \<Rightarrow> int"

definition iavl_laws :: "'t iavl \<Rightarrow> ('t \<Rightarrow> bytes \<rightharpoonup> json) \<Rightarrow> ('t \<Rightarrow> bytes \<rightharpoonup> json) \<Rightarrow> ('t \<Rightarrow> int) \<Rightarrow> bool" where
  "iavl_laws T view saved latest \<longleftrightarrow>
     (\<forall>t k v. iv_Get T t k = Ok v \<longrightarrow> v = view t k) \<and>
     (\<forall>t k i v. iv_GetWithIndex T t k = Ok (i, v) \<longrightarrow> v = view t k) \<and>
     (\<forall>t k b. iv_Has T t k = Ok b \<longrightarrow> (b \<longleftrightarrow> view t k \<noteq> None)) \<and>
     (\<forall>t k v t'. iv_Set T t k v = Ok t' \<longrightarrow>
        view t' = (view t)(k \<mapsto> v) \<and> saved t' = saved t \<and> latest t' = latest t) \<and>
     (\<forall>t h n t'. iv_SaveVersion T t = Ok (h, n, t') \<longrightarrow>
        view t' = view t \<and> saved t' = view t \<and> latest t' = n) \<and>
     (\<forall>t t'. iv_LoadVersion T t (latest t) = Ok t' \<longrightarrow>
        view t' = saved t \<and> saved t' = saved t \<and> latest t' = latest t) \<and>
     (\<forall>t n t'. iv_Load T t = Ok (n, t') \<longrightarrow>
        view t' = saved t \<and> saved t' = saved t \<and> latest t' = n)"

text \<open>A storage that never fails.\<close>

definition iavl_total :: "'t iavl \<Rightarrow> bool" where
  "iavl_total T \<longleftrightarrow> (\<forall>t k. is_ok (iv_Get T t k)) \<and> (\<forall>t k. is_ok (iv_Has T t k))
     \<and> (\<forall>t k v. is_ok (iv_Set T t k v)) \<and> (\<forall>t. is_ok (iv_SaveVersion T t))
     \<and> (\<forall>t n. is_ok (iv_LoadVersion T t n)) \<and> (\<forall>t. is_ok (iv_Hash T t))"

lemma iavl_lawsD:
  assumes "iavl_laws T view saved latest"
  shows "iv_Get T t k = Ok v \<Longrightarrow> v = view t k"
    and "iv_GetWithIndex T t k = Ok (i, v) \<Longrightarrow> v = view t k"
    and "iv_Has T t k = Ok b \<Longrightarrow> b \<longleftrightarrow> view t k \<noteq> None"
    and "iv_Set T t k w = Ok t' \<Longrightarrow> view t' = (view t)(k \<mapsto> w) \<and> saved t' = saved t \<and> latest t' = latest t"
    and "iv_SaveVersion T t = Ok (h, n, t') \<Longrightarrow> view t' = view t \<and> saved t' = view t \<and> latest t' = n"
    and "iv_LoadVersion T t (latest t) = Ok t' \<Longrightarrow> view t' = saved t \<and> saved t' = saved t \<and> latest t' = latest t"
    and "iv_Load T t = Ok (n, t') \<Longrightarrow> view t' = saved t \<and> saved t' = saved t \<and> latest t' = n"
  using assms unfolding iavl_laws_def by metis+

lemma iavl_totalD:
  assumes "iavl_total T"
  shows "\<exists>v. iv_Get T t k = Ok v" "\<exists>b. iv_Has T t k = Ok b" "\<exists>t'. iv_Set T t k v = Ok t'"
    "\<exists>t'. iv_LoadVersion T t i = Ok t'" "\<exists>h. iv_Hash T t = Ok h" "\<exists>h n t'. iv_SaveVersion T t = Ok (h, n, t')"
  using assms unfolding iavl_total_def is_ok_iff by (blast, blast, blast, blast, blast, metis prod_cases3)

subsection \<open>proof: item.go, helpers.go, proof.go, tree_proof.go\<close>

record 'a ItemWithProof =
  it_Item :: "'a option"
  it_Index :: int
  it_Height :: int
  it_ProofOp :: ProofOp

definition ProofOps :: "ProofOp \<Rightarrow> ProofOp list" where
  "ProofOps proofOp = [proofOp]"

definition Item_ProofOps :: "'a ItemWithProof \<Rightarrow> ProofOp list" where
  "Item_ProofOps i = ProofOps (it_ProofOp i)"

definition GetProofHeight :: "'t iavl \<Rightarrow> 't \<Rightarrow> int" where
  "GetProofHeight T tree =
     (let latest = iv_Version T tree
      in if iv_VersionExists T tree (latest - 1) then latest - 1 else latest)"

text \<open>
  The functions of ics23: marshalling, and verification of an existence proof (root, key, and the
  value inside the proof) or a non-existence proof (root, key).
\<close>

record ics23 =
  pf_Marshal :: "CommitmentProof \<Rightarrow> bytes res"
  pf_Unmarshal :: "bytes \<Rightarrow> CommitmentProof res"
  exist_Value :: "bytes \<Rightarrow> bytes"
  exist_Verify :: "bytes \<Rightarrow> bytes \<Rightarrow> bytes \<Rightarrow> bytes \<Rightarrow> bool"
  nonexist_Verify :: "bytes \<Rightarrow> bytes \<Rightarrow> bytes \<Rightarrow> bool"

record TreeProof =
  tp_AppHash :: bytes
  tp_Proof :: CommitmentProof

definition TypeIAVL :: string where "TypeIAVL = ''ics23:iavl''"

definition TreeProof_MarshalJSON :: "ics23 \<Rightarrow> TreeProof \<Rightarrow> json res" where
  "TreeProof_MarshalJSON ics t = bind_res (pf_Marshal ics (tp_Proof t)) (\<lambda>proofMarshalled.
     Ok (JObj [(''app_hash'', JBytes (tp_AppHash t)), (''proof'', JBytes proofMarshalled)]))"

definition TreeProof_UnmarshalJSON :: "ics23 \<Rightarrow> json \<Rightarrow> TreeProof res" where
  "TreeProof_UnmarshalJSON ics b = bind_res (jfields b) (\<lambda>fs.
     bind_res (jbytes ''app_hash'' fs) (\<lambda>h.
     bind_res (jbytes ''proof'' fs) (\<lambda>p.
     bind_res (pf_Unmarshal ics p) (\<lambda>pr. Ok \<lparr>tp_AppHash = h, tp_Proof = pr\<rparr>))))"

definition ProofOpForTree :: "'t iavl \<Rightarrow> ics23 \<Rightarrow> 't \<Rightarrow> bytes \<Rightarrow> ProofOp res" where
  "ProofOpForTree T ics tree key =
     bind_res (iv_Hash T tree) (\<lambda>hash.
     case iv_GetProof T tree key of
       Panic \<Rightarrow> Panic
     | Err e \<Rightarrow> (if err_Error e = ''cannot generate the proof with nil root'' then Err ErrTreeUninitialized else Err e)
     | Ok pr \<Rightarrow>
         bind_res (TreeProof_MarshalJSON ics \<lparr>tp_AppHash = hash, tp_Proof = pr\<rparr>) (\<lambda>marshalled.
           Ok \<lparr>po_Type = TypeIAVL, po_Key = key, po_Data = marshalled\<rparr>))"

definition Validate_proof :: "ics23 \<Rightarrow> ProofOp \<Rightarrow> bool res" where
  "Validate_proof ics pr = bind_res (TreeProof_UnmarshalJSON ics (po_Data pr)) (\<lambda>treeProof.
     case tp_Proof treeProof of
       CommitmentProof_Exist e \<Rightarrow> Ok (exist_Verify ics e (tp_AppHash treeProof) (po_Key pr) (exist_Value ics e))
     | CommitmentProof_Nonexist n \<Rightarrow> Ok (nonexist_Verify ics n (tp_AppHash treeProof) (po_Key pr))
     | CommitmentProof_Other _ \<Rightarrow> Err (OtherError ''unsupported proof type''))"

definition ValidateProofOps :: "ics23 \<Rightarrow> ProofOp list option \<Rightarrow> unit res" where
  "ValidateProofOps ics proofOps = (case proofOps of
     None \<Rightarrow> Err ErrMissingProof
   | Some ops \<Rightarrow> (case ops of
        [] \<Rightarrow> Err ErrMissingProof
      | op # _ \<Rightarrow> bind_res (Validate_proof ics op) (\<lambda>valid.
          if \<not> valid then Err ErrInvalidProof else Ok ())))"

text \<open>
  A proof made for a key validates, when ics23 decodes what it has encoded and accepts the proof
  that the tree generates for its own root and that key.
\<close>

lemma TreeProof_json_roundtrip:
  assumes "pf_Marshal ics (tp_Proof t) = Ok m" "pf_Unmarshal ics m = Ok (tp_Proof t)"
  shows "bind_res (TreeProof_MarshalJSON ics t) (TreeProof_UnmarshalJSON ics) = Ok t"
  using assms by (simp add: TreeProof_MarshalJSON_def TreeProof_UnmarshalJSON_def jbytes_def ToLower_def to_lower_char_def)

definition proof_accepted :: "ics23 \<Rightarrow> bytes \<Rightarrow> bytes \<Rightarrow> CommitmentProof \<Rightarrow> bool" where
  "proof_accepted ics root key pr = (case pr of
     CommitmentProof_Exist e \<Rightarrow> exist_Verify ics e root key (exist_Value ics e)
   | CommitmentProof_Nonexist n \<Rightarrow> nonexist_Verify ics n root key
   | CommitmentProof_Other _ \<Rightarrow> False)"

lemma proof_op_validates:
  assumes "\<And>p. \<exists>m. pf_Marshal ics p = Ok m \<and> pf_Unmarshal ics m = Ok p"
    and "iv_Hash T tree = Ok root" "iv_GetProof T tree key = Ok pr" "proof_accepted ics root key pr"
  shows "bind_res (ProofOpForTree T ics tree key) (\<lambda>op. ValidateProofOps ics (Some (ProofOps op))) = Ok ()"
proof -
  obtain m where m: "pf_Marshal ics pr = Ok m" "pf_Unmarshal ics m = Ok pr" using assms(1) by blast
  then have "TreeProof_UnmarshalJSON ics (JObj [(''app_hash'', JBytes root), (''proof'', JBytes m)]) =
      Ok \<lparr>tp_AppHash = root, tp_Proof = pr\<rparr>"
    by (simp add: TreeProof_UnmarshalJSON_def jbytes_def ToLower_def to_lower_char_def)
  with assms(2-4) m show ?thesis
    by (cases pr) (simp_all add: ProofOpForTree_def TreeProof_MarshalJSON_def ValidateProofOps_def ProofOps_def
        Validate_proof_def proof_accepted_def)
qed

text \<open>
  The proof operation the node generates for a key is accepted by \<^verbatim>\<open>ValidateProofOps\<close>, for
  present and absent keys alike, whenever ics23 accepts the tree's own proof against the tree's own
  root; and \<^verbatim>\<open>ValidateProofOps\<close> refuses an answer without proof operations.
\<close>

lemma proof_generated_validates:
  assumes "\<And>p. \<exists>m. pf_Marshal ics p = Ok m \<and> pf_Unmarshal ics m = Ok p"
    and "iv_Hash T tree = Ok root" "iv_GetProof T tree key = Ok pr" "proof_accepted ics root key pr"
  shows "bind_res (ProofOpForTree T ics tree key) (\<lambda>op. ValidateProofOps ics (Some (ProofOps op))) = Ok ()
    \<and> ValidateProofOps ics None = Err ErrMissingProof \<and> ValidateProofOps ics (Some []) = Err ErrMissingProof"
  using proof_op_validates [OF assms] by (simp add: ValidateProofOps_def)

subsection \<open>A tree in memory\<close>

text \<open>A reference implementation that keeps every saved version as an association list; it satisfies the laws.\<close>

record mem_tree =
  mt_view :: "(bytes \<times> json) list"
  mt_versions :: "(bytes \<times> json) list list"

definition mem_iavl :: "mem_tree iavl" where
  "mem_iavl = \<lparr>
     iv_Get = (\<lambda>t k. Ok (map_of (mt_view t) k)),
     iv_GetWithIndex = (\<lambda>t k. Ok (0, map_of (mt_view t) k)),
     iv_Has = (\<lambda>t k. Ok (map_of (mt_view t) k \<noteq> None)),
     iv_Set = (\<lambda>t k v. Ok (t\<lparr>mt_view := (k, v) # mt_view t\<rparr>)),
     iv_SaveVersion = (\<lambda>t. Ok ([], int (length (mt_versions t)) + 1, t\<lparr>mt_versions := mt_versions t @ [mt_view t]\<rparr>)),
     iv_Load = (\<lambda>t. Ok (int (length (mt_versions t)),
        t\<lparr>mt_view := (if mt_versions t = [] then [] else last (mt_versions t))\<rparr>)),
     iv_LoadVersion = (\<lambda>t n. Ok (t\<lparr>mt_view := (if n \<le> 0 then [] else mt_versions t ! (nat n - 1))\<rparr>)),
     iv_Rollback = (\<lambda>t. t\<lparr>mt_view := (if mt_versions t = [] then [] else last (mt_versions t))\<rparr>),
     iv_Hash = (\<lambda>t. Ok [word_of_nat (length (mt_view t))]),
     iv_GetProof = (\<lambda>t k. if mt_view t = [] then Err (OtherError ''cannot generate the proof with nil root'')
        else if map_of (mt_view t) k = None then Ok (CommitmentProof_Nonexist k) else Ok (CommitmentProof_Exist k)),
     iv_Version = (\<lambda>t. int (length (mt_versions t))),
     iv_VersionExists = (\<lambda>t n. 0 < n \<and> n \<le> int (length (mt_versions t))),
     iv_Size = (\<lambda>t. int (length (mt_view t)))\<rparr>"

definition mem_view :: "mem_tree \<Rightarrow> bytes \<rightharpoonup> json" where "mem_view t = map_of (mt_view t)"
definition mem_saved :: "mem_tree \<Rightarrow> bytes \<rightharpoonup> json" where
  "mem_saved t = map_of (if mt_versions t = [] then [] else last (mt_versions t))"
definition mem_latest :: "mem_tree \<Rightarrow> int" where "mem_latest t = int (length (mt_versions t))"
definition mem_empty :: mem_tree where "mem_empty = \<lparr>mt_view = [], mt_versions = []\<rparr>"

lemma mem_iavl_laws: "iavl_laws mem_iavl mem_view mem_saved mem_latest"
  by (auto simp: iavl_laws_def mem_iavl_def mem_view_def mem_saved_def mem_latest_def last_conv_nth)

lemma mem_iavl_total: "iavl_total mem_iavl"
  by (simp add: iavl_total_def mem_iavl_def)

definition demo_ics :: ics23 where
  "demo_ics = \<lparr>
     pf_Marshal = (\<lambda>p. Ok (case p of CommitmentProof_Exist b \<Rightarrow> 0 # b | CommitmentProof_Nonexist b \<Rightarrow> 1 # b
        | CommitmentProof_Other b \<Rightarrow> 2 # b)),
     pf_Unmarshal = (\<lambda>b. case b of [] \<Rightarrow> Err EOF | k # b \<Rightarrow> Ok (if k = 0 then CommitmentProof_Exist b
        else if k = 1 then CommitmentProof_Nonexist b else CommitmentProof_Other b)),
     exist_Value = (\<lambda>b. b), exist_Verify = (\<lambda>e root key v. e = key), nonexist_Verify = (\<lambda>n root key. n = key)\<rparr>"

lemma demo_ics_codec: "\<exists>m. pf_Marshal demo_ics p = Ok m \<and> pf_Unmarshal demo_ics m = Ok p"
  by (cases p) (simp_all add: demo_ics_def)

end
