(* ===== verification/IdentityApp.thy ===== *)
theory IdentityApp
  imports Iavl
begin

section \<open>The identity application (wineventchain/pkg/identity)\<close>

text \<open>
  The repository of identities on top of the tree (merkle_repository.go) and the application that
  registers principals (app.go). The repository's contract is the locale \<open>identity_repository\<close>,
  interpreted on the Merkle repository; the application's discipline is an interpretation of
  \<open>two_phase\<close>. The properties: a stored identity never changes, the application is seeded at most
  once, and only a registered administrator's valid signature registers a principal.
\<close>

subsection \<open>merkle\_repository.go\<close>

definition principal_key :: "Principal \<Rightarrow> bytes" where "principal_key p = bz (''principal/'' @ p)"
definition seeded_key :: bytes where "seeded_key = bz ''meta/seeded''"

definition id_LoadLatest :: "'t iavl \<Rightarrow> 't \<Rightarrow> (int \<times> 't) res" where
  "id_LoadLatest T r = iv_Load T r"

definition id_LoadVersion :: "'t iavl \<Rightarrow> 't \<Rightarrow> int \<Rightarrow> 't res" where
  "id_LoadVersion T r version = iv_LoadVersion T r version"

definition id_Rollback :: "'t iavl \<Rightarrow> 't \<Rightarrow> 't" where
  "id_Rollback T r = iv_Rollback T r"

definition id_Hash :: "'t iavl \<Rightarrow> 't \<Rightarrow> bytes res" where
  "id_Hash T r = iv_Hash T r"

definition id_Save :: "'t iavl \<Rightarrow> 't \<Rightarrow> (bytes \<times> int \<times> 't) res" where
  "id_Save T r = iv_SaveVersion T r"

definition id_Get :: "'t iavl \<Rightarrow> 't \<Rightarrow> Principal \<Rightarrow> IdentityData res" where
  "id_Get T r p = bind_res (iv_Get T r (principal_key p)) (\<lambda>b.
     case b of None \<Rightarrow> Err ErrIdentityNotFound | Some j \<Rightarrow> IdentityData_UnmarshalJSON j)"

definition id_GetWithProof :: "'t iavl \<Rightarrow> ics23 \<Rightarrow> 't \<Rightarrow> Principal \<Rightarrow> IdentityData ItemWithProof res" where
  "id_GetWithProof T ics r p =
     (let key = principal_key p
      in bind_res (iv_GetWithIndex T r key) (\<lambda>(index, b).
         bind_res (ProofOpForTree T ics r key) (\<lambda>proofOp.
         case b of
           None \<Rightarrow> Ok \<lparr>it_Item = None, it_Index = index, it_Height = GetProofHeight T r, it_ProofOp = proofOp\<rparr>
         | Some j \<Rightarrow> bind_res (IdentityData_UnmarshalJSON j) (\<lambda>data.
             Ok \<lparr>it_Item = Some data, it_Index = index, it_Height = GetProofHeight T r, it_ProofOp = proofOp\<rparr>))))"

definition id_Has :: "'t iavl \<Rightarrow> 't \<Rightarrow> Principal \<Rightarrow> bool res" where
  "id_Has T r p = iv_Has T r (principal_key p)"

definition id_Store :: "'t iavl \<Rightarrow> 't \<Rightarrow> Principal \<Rightarrow> IdentityData \<Rightarrow> 't res" where
  "id_Store T r p data = iv_Set T r (principal_key p) (IdentityData_MarshalJSON data)"

definition id_IsSeeded :: "'t iavl \<Rightarrow> 't \<Rightarrow> bool res" where
  "id_IsSeeded T r = iv_Has T r seeded_key"

definition id_SetSeeded :: "'t iavl \<Rightarrow> 't \<Rightarrow> 't res" where
  "id_SetSeeded T r = iv_Set T r seeded_key (JBool True)"

subsection \<open>The repository's contract\<close>

text \<open>
  \<open>entry\<close> is the identity stored for a principal, \<open>present\<close> whether the principal has an entry at all,
  \<open>seeded\<close> whether the seed marker is set. A principal is present when its entry is.
\<close>

definition identities_preserved ::
    "('r \<Rightarrow> Principal \<Rightarrow> IdentityData option) \<Rightarrow> ('r \<Rightarrow> Principal \<Rightarrow> bool) \<Rightarrow> ('r \<Rightarrow> bool) \<Rightarrow> 'r \<Rightarrow> 'r \<Rightarrow> bool" where
  "identities_preserved entry present seeded r r' \<longleftrightarrow>
     (\<forall>p. present r p \<longrightarrow> present r' p \<and> entry r' p = entry r p) \<and> (seeded r \<longrightarrow> seeded r')"

locale identity_repository =
  fixes Get :: "'r \<Rightarrow> Principal \<Rightarrow> IdentityData res" and Has :: "'r \<Rightarrow> Principal \<Rightarrow> bool res"
    and Store :: "'r \<Rightarrow> Principal \<Rightarrow> IdentityData \<Rightarrow> 'r res"
    and IsSeeded :: "'r \<Rightarrow> bool res" and SetSeeded :: "'r \<Rightarrow> 'r res" and Save :: "'r \<Rightarrow> (bytes \<times> int \<times> 'r) res"
    and ok :: bool and entry :: "'r \<Rightarrow> Principal \<Rightarrow> IdentityData option" and present :: "'r \<Rightarrow> Principal \<Rightarrow> bool"
    and seeded :: "'r \<Rightarrow> bool"
  assumes entry_present: "entry r p = Some d \<Longrightarrow> present r p"
    and Get_entry: "ok \<Longrightarrow> Get r p = Ok d \<Longrightarrow> entry r p = Some d"
    and Has_present: "ok \<Longrightarrow> Has r p = Ok b \<Longrightarrow> b \<longleftrightarrow> present r p"
    and IsSeeded_seeded: "ok \<Longrightarrow> IsSeeded r = Ok b \<Longrightarrow> b \<longleftrightarrow> seeded r"
    and Store_law: "ok \<Longrightarrow> Store r p d = Ok r' \<Longrightarrow> entry r' = (entry r)(p := Some d)
      \<and> present r' = (present r)(p := True) \<and> seeded r' = seeded r"
    and SetSeeded_law: "ok \<Longrightarrow> SetSeeded r = Ok r' \<Longrightarrow> entry r' = entry r \<and> present r' = present r \<and> seeded r'"
    and Save_law: "ok \<Longrightarrow> Save r = Ok (h, n, r') \<Longrightarrow> entry r' = entry r \<and> present r' = present r \<and> seeded r' = seeded r"
begin

abbreviation preserves :: "'r \<Rightarrow> 'r \<Rightarrow> bool" where
  "preserves \<equiv> identities_preserved entry present seeded"

lemma preserves_refl: "preserves r r"
  by (simp add: identities_preserved_def)

lemma preserves_trans: "preserves r r' \<Longrightarrow> preserves r' r'' \<Longrightarrow> preserves r r''"
  by (simp add: identities_preserved_def)

lemma Store_Save:
  assumes ok "Store r p d = Ok r1" "Save r1 = Ok (h, n, r2)" "\<not> present r p"
  shows "preserves r r2 \<and> entry r2 p = Some d \<and> present r2 = (present r)(p := True) \<and> seeded r2 = seeded r"
  using Store_law [OF assms(1,2)] Save_law [OF assms(1,3)] assms(4) by (auto simp: identities_preserved_def)

lemma Store_SetSeeded_Save:
  assumes ok "Store r p d = Ok r1" "SetSeeded r1 = Ok r2" "Save r2 = Ok (h, n, r3)" "\<not> present r p"
  shows "preserves r r3 \<and> entry r3 p = Some d \<and> present r3 = (present r)(p := True) \<and> seeded r3"
  using Store_law [OF assms(1,2)] SetSeeded_law [OF assms(1,3)] Save_law [OF assms(1,4)] assms(5)
  by (auto simp: identities_preserved_def)

end

definition id_entry :: "('t \<Rightarrow> bytes \<rightharpoonup> json) \<Rightarrow> 't \<Rightarrow> Principal \<Rightarrow> IdentityData option" where
  "id_entry view r p = (case view r (principal_key p) of
     None \<Rightarrow> None | Some j \<Rightarrow> (case IdentityData_UnmarshalJSON j of Ok d \<Rightarrow> Some d | _ \<Rightarrow> None))"

definition id_present :: "('t \<Rightarrow> bytes \<rightharpoonup> json) \<Rightarrow> 't \<Rightarrow> Principal \<Rightarrow> bool" where
  "id_present view r p \<longleftrightarrow> view r (principal_key p) \<noteq> None"

definition id_seeded :: "('t \<Rightarrow> bytes \<rightharpoonup> json) \<Rightarrow> 't \<Rightarrow> bool" where
  "id_seeded view r \<longleftrightarrow> view r seeded_key \<noteq> None"

lemma principal_key_inj [simp]: "principal_key p = principal_key q \<longleftrightarrow> p = q"
  by (simp add: principal_key_def)

lemma principal_key_seeded [simp]: "principal_key p \<noteq> seeded_key" "seeded_key \<noteq> principal_key p"
  by (simp_all add: principal_key_def seeded_key_def)

interpretation id_repo: identity_repository "id_Get T" "id_Has T" "id_Store T" "id_IsSeeded T" "id_SetSeeded T"
    "id_Save T" "iavl_laws T view saved latest" "id_entry view" "id_present view" "id_seeded view"
proof (unfold_locales, goal_cases)
  case (1 r p d)
  then show ?case by (auto simp: id_entry_def id_present_def split: option.splits)
next
  case (2 r p d)
  then show ?case using iavl_lawsD(1) [OF 2(1)]
    by (fastforce simp: id_Get_def id_entry_def split: option.splits)
next
  case (3 r p b)
  then show ?case using iavl_lawsD(3) [OF 3(1)] by (simp add: id_Has_def id_present_def)
next
  case (4 r b)
  then show ?case using iavl_lawsD(3) [OF 4(1)] by (simp add: id_IsSeeded_def id_seeded_def)
next
  case (5 r p d r')
  have "view r' = (view r)(principal_key p \<mapsto> IdentityData_MarshalJSON d)"
    using iavl_lawsD(4) [OF 5(1)] 5(2) by (simp add: id_Store_def)
  then show ?case
    using identity_json.dec_enc [of d] by (auto simp: id_entry_def id_present_def id_seeded_def fun_eq_iff)
next
  case (6 r r')
  have "view r' = (view r)(seeded_key \<mapsto> JBool True)"
    using iavl_lawsD(4) [OF 6(1)] 6(2) by (simp add: id_SetSeeded_def)
  then show ?case by (auto simp: id_entry_def id_present_def id_seeded_def fun_eq_iff)
next
  case (7 r h n r')
  have "view r' = view r" using iavl_lawsD(5) [OF 7(1)] 7(2) by (simp add: id_Save_def)
  then show ?case by (auto simp: id_entry_def id_present_def id_seeded_def fun_eq_iff)
qed

subsection \<open>app.go\<close>

record 't IdentityApp =
  ia_tree :: 't
  ia_versionNumber :: int
  ia_seeded :: bool
  ia_registering :: "Principal list"

text \<open>The two fields of \<^verbatim>\<open>txState\<close> are fields of the application's record.\<close>

definition id_reset_txState :: "'t IdentityApp \<Rightarrow> 't IdentityApp" where
  "id_reset_txState app = app\<lparr>ia_seeded := False, ia_registering := []\<rparr>"

definition NewIdentityApp :: "'t iavl \<Rightarrow> 't \<Rightarrow> 't IdentityApp res" where
  "NewIdentityApp T tree = bind_res (iv_Load T tree) (\<lambda>(versionNumber, tree).
     Ok \<lparr>ia_tree = tree, ia_versionNumber = versionNumber, ia_seeded = False, ia_registering = []\<rparr>)"

definition identity_AppName :: string where "identity_AppName = ''identity''"
definition RequestTypeSeed :: string where "RequestTypeSeed = ''seed''"
definition RequestTypeRegister :: string where "RequestTypeRegister = ''register''"

text \<open>An error of the hash function ends the process (\<^verbatim>\<open>logger.Fatal\<close>).\<close>

definition identity_Info :: "'t iavl \<Rightarrow> 't IdentityApp \<Rightarrow> (ErrorResponse + json) res" where
  "identity_Info T app = on_err (id_Hash T (ia_tree app))
     (\<lambda>e. Ok (Inl (NewErrorResponse CodeUnknownError mux_Codespace (Some e))))
     (\<lambda>appHash. Ok (Inr (JObj [(''app_hash'', JStr (hex_EncodeToString appHash)), (''version'', jnum (ia_versionNumber app))])))"

definition identity_InitChain :: "'t iavl \<Rightarrow> 't IdentityApp \<Rightarrow> bytes res" where
  "identity_InitChain T app = on_err (id_Hash T (ia_tree app)) (\<lambda>_. Panic) Ok"

definition extractIdentityData :: "'t iavl \<Rightarrow> extlib \<Rightarrow> 't \<Rightarrow> SignedPayload \<Rightarrow> (ErrorResponse + IdentityData) res" where
  "extractIdentityData T lib r payload =
     on_err (id_Get T r (sp_Principal payload))
       (\<lambda>e. Ok (Inl (NewErrorResponse CodeUnknownError mux_Codespace (Some e))))
       (\<lambda>requester.
         on_err (ValidateSignature lib payload (id_PublicKey requester))
           (\<lambda>e. Ok (Inl (NewErrorResponse CodeUnknownError mux_Codespace (Some e))))
           (\<lambda>valid.
             if \<not> valid then Ok (Inl (NewErrorResponse identity_CodeInvalidSignature identity_Codespace None))
             else Ok (Inr requester)))"

text \<open>The zero value of the requester, which a seed request keeps.\<close>

definition zero_identity :: IdentityData where
  "zero_identity = \<lparr>id_PublicKey = [], id_Role = []\<rparr>"

definition identity_requester :: "'t iavl \<Rightarrow> extlib \<Rightarrow> 't \<Rightarrow> SignedPayload \<Rightarrow> (ErrorResponse + IdentityData) res" where
  "identity_requester T lib r payload =
     (if pl_Type (sp_Payload payload) \<noteq> RequestTypeSeed then extractIdentityData T lib r payload
      else Ok (Inr zero_identity))"

text \<open>The two branches of the switch of \<^verbatim>\<open>CheckTx\<close>.\<close>

definition identity_check_seed :: "'t iavl \<Rightarrow> 't IdentityApp \<Rightarrow> json option \<Rightarrow> ResponseCheckTx res" where
  "identity_check_seed T app data =
     on_err (json_Unmarshal PayloadSeed_UnmarshalJSON data)
       (\<lambda>e. Ok (ck_error CodeEncodingError mux_Codespace (Some e)))
       (\<lambda>seedData.
         on_err (id_IsSeeded T (ia_tree app))
           (\<lambda>e. Ok (ck_error CodeUnknownError mux_Codespace (Some e)))
           (\<lambda>alreadySeeded.
             if alreadySeeded \<or> ia_seeded app
             then Ok (ck_error CodeAlreadySeeded identity_Codespace
                    (Some (OtherError ''identity app is already seeded'')))
             else Ok \<lparr>ck_Code = CodeOk, ck_Log = [], ck_Codespace = identity_Codespace\<rparr>))"

definition identity_check_register :: "'t iavl \<Rightarrow> 't IdentityApp \<Rightarrow> IdentityData \<Rightarrow> json option \<Rightarrow> ResponseCheckTx res" where
  "identity_check_register T app requester data =
     (if id_Role requester \<noteq> RoleAdmin
      then Ok (ck_error identity_CodeUnauthorized identity_Codespace (Some (OtherError
             ''only principals with the administrator role can register new principals'')))
      else
        on_err (json_Unmarshal PayloadRegister_UnmarshalJSON data)
          (\<lambda>e. Ok (ck_error CodeEncodingError mux_Codespace (Some e)))
          (\<lambda>registerData.
            on_err (id_Has T (ia_tree app) (rg_Principal registerData))
              (\<lambda>e. Ok (ck_error CodeUnknownError mux_Codespace (Some e)))
              (\<lambda>found.
                if found \<or> Contains (ia_registering app) (rg_Principal registerData)
                then Ok (ck_error CodePrincipalAlreadyExists identity_Codespace
                       (Some (OtherError ''principal already exists'')))
                else Ok \<lparr>ck_Code = CodeOk, ck_Log = [], ck_Codespace = identity_Codespace\<rparr>)))"

definition identity_CheckTx :: "'t iavl \<Rightarrow> extlib \<Rightarrow> 't IdentityApp \<Rightarrow> json option \<Rightarrow> ResponseCheckTx res" where
  "identity_CheckTx T lib app data =
     on_err (json_Unmarshal SignedPayload_of_json data)
       (\<lambda>e. Ok (ck_error CodeEncodingError mux_Codespace (Some e)))
       (\<lambda>payload.
         on_err (identity_requester T lib (ia_tree app) payload) (\<lambda>_. Panic) (\<lambda>who. case who of
           Inl e \<Rightarrow> Ok (IntoCheckTxResponse e)
         | Inr requester \<Rightarrow>
             if pl_Type (sp_Payload payload) = RequestTypeSeed
             then identity_check_seed T app (pl_Data (sp_Payload payload))
             else if pl_Type (sp_Payload payload) = RequestTypeRegister
             then identity_check_register T app requester (pl_Data (sp_Payload payload))
             else Ok (ck_error identity_CodeUnknownRequestType identity_Codespace None)))"

text \<open>The two branches of the switch of \<^verbatim>\<open>FinalizeBlock\<close>.\<close>

definition ok_result :: ExecTxResult where
  "ok_result = \<lparr>tr_Code = CodeOk, tr_Data = None, tr_Log = [], tr_Events = [], tr_Codespace = []\<rparr>"

definition identity_finalize_seed ::
    "'t iavl \<Rightarrow> 't IdentityApp \<Rightarrow> json option \<Rightarrow> (FinalizeBlockResponse \<times> 't IdentityApp) res" where
  "identity_finalize_seed T app data =
     on_err (json_Unmarshal PayloadSeed_UnmarshalJSON data)
       (\<lambda>e. Ok (fb_error CodeEncodingError mux_Codespace (Some e), app))
       (\<lambda>seedData.
         on_err (id_IsSeeded T (ia_tree app))
           (\<lambda>e. Ok (fb_error CodeUnknownError mux_Codespace (Some e), app))
           (\<lambda>alreadySeeded.
             if alreadySeeded \<or> ia_seeded app
             then Ok (fb_error CodeAlreadySeeded identity_Codespace
                    (Some (OtherError ''identity app is already seeded'')), app)
             else
               let identityData = \<lparr>id_PublicKey = ps_Key seedData, id_Role = RoleAdmin\<rparr>;
                   app = app\<lparr>ia_seeded := True, ia_registering := ia_registering app @ [ps_Principal seedData]\<rparr>
               in on_err (id_Hash T (ia_tree app))
                    (\<lambda>e. Ok (fb_error CodeUnknownError mux_Codespace (Some e), app))
                    (\<lambda>appHash. Ok (\<lparr>fb_TxResult = ok_result, fb_AppHash = appHash,
                       fb_CommitFunc = Some (CommitSeed (ps_Principal seedData) identityData)\<rparr>, app))))"

definition identity_finalize_register ::
    "'t iavl \<Rightarrow> 't IdentityApp \<Rightarrow> IdentityData \<Rightarrow> json option \<Rightarrow> (FinalizeBlockResponse \<times> 't IdentityApp) res" where
  "identity_finalize_register T app requester data =
     (if id_Role requester \<noteq> RoleAdmin
      then Ok (fb_error identity_CodeUnauthorized identity_Codespace (Some (OtherError
             ''only principals with the administrator role can register new principals'')), app)
      else
        on_err (json_Unmarshal PayloadRegister_UnmarshalJSON data)
          (\<lambda>e. Ok (fb_error CodeEncodingError mux_Codespace (Some e), app))
          (\<lambda>registerData.
            let identityData = \<lparr>id_PublicKey = rg_Key registerData, id_Role = rg_Role registerData\<rparr>
            in on_err (id_Has T (ia_tree app) (rg_Principal registerData))
                 (\<lambda>e. Ok (fb_error CodeUnknownError mux_Codespace (Some e), app))
                 (\<lambda>found.
                   if found \<or> Contains (ia_registering app) (rg_Principal registerData)
                   then Ok (fb_error CodePrincipalAlreadyExists identity_Codespace
                          (Some (OtherError ''principal already exists'')), app)
                   else
                     let app = app\<lparr>ia_registering := ia_registering app @ [rg_Principal registerData]\<rparr>
                     in on_err (id_Hash T (ia_tree app))
                          (\<lambda>e. Ok (fb_error CodeUnknownError mux_Codespace (Some e), app))
                          (\<lambda>appHash. Ok (\<lparr>fb_TxResult = ok_result, fb_AppHash = appHash,
                             fb_CommitFunc = Some (CommitRegister (rg_Principal registerData) identityData)\<rparr>, app)))))"

definition identity_FinalizeBlock ::
    "'t iavl \<Rightarrow> extlib \<Rightarrow> json option \<Rightarrow> 't IdentityApp \<Rightarrow> (FinalizeBlockResponse \<times> 't IdentityApp) res" where
  "identity_FinalizeBlock T lib data app =
     on_err (json_Unmarshal SignedPayload_of_json data)
       (\<lambda>e. Ok (fb_error CodeEncodingError mux_Codespace (Some e), app))
       (\<lambda>payload.
         on_err (identity_requester T lib (ia_tree app) payload) (\<lambda>_. Panic) (\<lambda>who. case who of
           Inl e \<Rightarrow> Ok (IntoFinalizeBlockResponse e, app)
         | Inr requester \<Rightarrow>
             if pl_Type (sp_Payload payload) = RequestTypeSeed
             then identity_finalize_seed T app (pl_Data (sp_Payload payload))
             else if pl_Type (sp_Payload payload) = RequestTypeRegister
             then identity_finalize_register T app requester (pl_Data (sp_Payload payload))
             else Ok (fb_error identity_CodeUnknownRequestType identity_Codespace None, app)))"

text \<open>The commit functions that \<^verbatim>\<open>FinalizeBlock\<close> returns; the other commits are not this application's.\<close>

definition identity_commit :: "'t iavl \<Rightarrow> commit \<Rightarrow> 't IdentityApp \<Rightarrow> 't IdentityApp res" where
  "identity_commit T c app = (case c of
     CommitSeed p identityData \<Rightarrow>
       (let app = id_reset_txState app
        in bind_res (id_Store T (ia_tree app) p identityData) (\<lambda>r1.
           bind_res (id_SetSeeded T r1) (\<lambda>r2.
           bind_res (id_Save T r2) (\<lambda>(_, versionNumber, r3).
             Ok (app\<lparr>ia_tree := r3, ia_versionNumber := versionNumber\<rparr>)))))
   | CommitRegister p identityData \<Rightarrow>
       (let app = id_reset_txState app
        in bind_res (id_Store T (ia_tree app) p identityData) (\<lambda>r1.
           bind_res (id_Save T r1) (\<lambda>(_, versionNumber, r2).
             Ok (app\<lparr>ia_tree := r2, ia_versionNumber := versionNumber\<rparr>))))
   | CommitEvent _ \<Rightarrow> Ok app
   | CommitPolicy _ \<Rightarrow> Ok app)"

definition identity_Query :: "'t iavl \<Rightarrow> ics23 \<Rightarrow> 't IdentityApp \<Rightarrow> RequestQuery \<Rightarrow> ResponseQuery res" where
  "identity_Query T ics app req =
     (let p = TrimPrefix (rqq_Path req) ''/''
      in on_err (id_GetWithProof T ics (ia_tree app) p)
        (\<lambda>e. if e = ErrTreeUninitialized
             then Ok (q_error identity_CodeTreeUninitialized identity_Codespace (Some e))
             else Ok (q_error identity_CodeUnknownError identity_Codespace (Some e)))
        (\<lambda>item. case it_Item item of
           None \<Rightarrow> Ok \<lparr>rq_Code = CodeNotFound, rq_Log = ''item not found'', rq_Index = it_Index item, rq_Key = bz p,
                     rq_Value = None, rq_ProofOps = Some (Item_ProofOps item), rq_Height = it_Height item,
                     rq_Codespace = identity_Codespace\<rparr>
         | Some d \<Rightarrow> Ok \<lparr>rq_Code = CodeOk, rq_Log = [], rq_Index = it_Index item, rq_Key = bz p,
                     rq_Value = Some (IdentityData_MarshalJSON d), rq_ProofOps = Some (Item_ProofOps item),
                     rq_Height = it_Height item, rq_Codespace = identity_Codespace\<rparr>))"

subsection \<open>What a handler does\<close>

lemma extractIdentityData_Inr:
  assumes "extractIdentityData T lib r payload = Ok (Inr requester)"
  shows "id_Get T r (sp_Principal payload) = Ok requester \<and> ValidateSignature lib payload (id_PublicKey requester) = Ok True"
  using assms by (auto simp: extractIdentityData_def on_err_eq_Ok split: if_splits)

lemma identity_FinalizeBlock_cases:
  assumes "identity_FinalizeBlock T lib data app = Ok (resp, app')"
  obtains (error) "fb_CommitFunc resp = None" "app' = app"
  | (seed) payload where "json_Unmarshal SignedPayload_of_json data = Ok payload"
      "identity_finalize_seed T app (pl_Data (sp_Payload payload)) = Ok (resp, app')"
  | (register) payload requester where "json_Unmarshal SignedPayload_of_json data = Ok payload"
      "pl_Type (sp_Payload payload) = RequestTypeRegister"
      "extractIdentityData T lib (ia_tree app) payload = Ok (Inr requester)"
      "identity_finalize_register T app requester (pl_Data (sp_Payload payload)) = Ok (resp, app')"
proof (cases "json_Unmarshal SignedPayload_of_json data")
  case (Ok payload)
  let ?ty = "pl_Type (sp_Payload payload)"
  consider "?ty = RequestTypeSeed" | "?ty \<noteq> RequestTypeSeed" "?ty = RequestTypeRegister"
    | "?ty \<noteq> RequestTypeSeed" "?ty \<noteq> RequestTypeRegister" by blast
  then show ?thesis
  proof cases
    case 1
    with Ok assms seed show ?thesis by (simp add: identity_FinalizeBlock_def identity_requester_def)
  next
    case 2
    then have "on_err (extractIdentityData T lib (ia_tree app) payload) (\<lambda>_. Panic) (\<lambda>who. case who of
        Inl e \<Rightarrow> Ok (IntoFinalizeBlockResponse e, app)
      | Inr requester \<Rightarrow> identity_finalize_register T app requester (pl_Data (sp_Payload payload))) = Ok (resp, app')"
      using Ok assms by (simp add: identity_FinalizeBlock_def identity_requester_def)
    then show ?thesis using Ok 2 error register by (elim on_errE) (auto split: sum.split_asm)
  next
    case 3
    then have "on_err (extractIdentityData T lib (ia_tree app) payload) (\<lambda>_. Panic) (\<lambda>who. case who of
        Inl e \<Rightarrow> Ok (IntoFinalizeBlockResponse e, app)
      | Inr requester \<Rightarrow> Ok (fb_error identity_CodeUnknownRequestType identity_Codespace None, app)) = Ok (resp, app')"
      using Ok assms by (simp add: identity_FinalizeBlock_def identity_requester_def)
    then show ?thesis using error by (elim on_errE) (auto split: sum.split_asm)
  qed
qed (use assms error in \<open>auto simp: identity_FinalizeBlock_def\<close>)

lemma identity_finalize_seed_cases:
  assumes "identity_finalize_seed T app data = Ok (resp, app')"
  obtains (none) "fb_CommitFunc resp = None" "app' = app"
  | (failed) p where "fb_CommitFunc resp = None" "app' = app\<lparr>ia_seeded := True, ia_registering := ia_registering app @ [p]\<rparr>"
  | (commit) p k where "id_IsSeeded T (ia_tree app) = Ok False" "\<not> ia_seeded app"
      "fb_CommitFunc resp = Some (CommitSeed p \<lparr>id_PublicKey = k, id_Role = RoleAdmin\<rparr>)"
      "tr_Code (fb_TxResult resp) = CodeOk"
      "app' = app\<lparr>ia_seeded := True, ia_registering := ia_registering app @ [p]\<rparr>"
proof (cases "json_Unmarshal PayloadSeed_UnmarshalJSON data")
  case (Ok seedData)
  note d = this
  show ?thesis
  proof (cases "id_IsSeeded T (ia_tree app) = Ok False \<and> \<not> ia_seeded app")
    case True
    let ?app = "app\<lparr>ia_seeded := True, ia_registering := ia_registering app @ [ps_Principal seedData]\<rparr>"
    have "on_err (id_Hash T (ia_tree app)) (\<lambda>e. Ok (fb_error CodeUnknownError mux_Codespace (Some e), ?app))
        (\<lambda>appHash. Ok (\<lparr>fb_TxResult = ok_result, fb_AppHash = appHash, fb_CommitFunc = Some (CommitSeed
           (ps_Principal seedData) \<lparr>id_PublicKey = ps_Key seedData, id_Role = RoleAdmin\<rparr>)\<rparr>, ?app)) = Ok (resp, app')"
      using assms d True by (simp add: identity_finalize_seed_def Let_def)
    then have "(fb_CommitFunc resp = None \<or> fb_CommitFunc resp = Some (CommitSeed (ps_Principal seedData)
        \<lparr>id_PublicKey = ps_Key seedData, id_Role = RoleAdmin\<rparr>) \<and> tr_Code (fb_TxResult resp) = CodeOk) \<and> app' = ?app"
      by (elim on_errE) (auto simp: ok_result_def)
    with True failed commit show ?thesis by blast
  next
    case False
    with assms d have "fb_CommitFunc resp = None \<and> app' = app"
      unfolding identity_finalize_seed_def
      by (cases "id_IsSeeded T (ia_tree app)") (auto split: if_split_asm)
    then show ?thesis by (intro none) simp_all
  qed
next
  case (Err e)
  with assms have "fb_CommitFunc resp = None \<and> app' = app" by (auto simp: identity_finalize_seed_def)
  then show ?thesis by (intro none) simp_all
qed (use assms in \<open>simp add: identity_finalize_seed_def\<close>)

lemma identity_finalize_register_cases:
  assumes "identity_finalize_register T app requester data = Ok (resp, app')"
  obtains (none) "fb_CommitFunc resp = None" "app' = app"
  | (failed) p where "fb_CommitFunc resp = None" "app' = app\<lparr>ia_registering := ia_registering app @ [p]\<rparr>"
  | (commit) p d where "id_Role requester = RoleAdmin" "id_Has T (ia_tree app) p = Ok False"
      "p \<notin> set (ia_registering app)" "fb_CommitFunc resp = Some (CommitRegister p d)"
      "tr_Code (fb_TxResult resp) = CodeOk"
      "app' = app\<lparr>ia_registering := ia_registering app @ [p]\<rparr>"
proof (cases "id_Role requester = RoleAdmin")
  case admin: True
  show ?thesis
  proof (cases "json_Unmarshal PayloadRegister_UnmarshalJSON data")
    case (Ok rd)
    note d = this
    show ?thesis
    proof (cases "id_Has T (ia_tree app) (rg_Principal rd) = Ok False \<and> rg_Principal rd \<notin> set (ia_registering app)")
      case True
      let ?app = "app\<lparr>ia_registering := ia_registering app @ [rg_Principal rd]\<rparr>"
      have "on_err (id_Hash T (ia_tree app)) (\<lambda>e. Ok (fb_error CodeUnknownError mux_Codespace (Some e), ?app))
          (\<lambda>appHash. Ok (\<lparr>fb_TxResult = ok_result, fb_AppHash = appHash, fb_CommitFunc = Some (CommitRegister
             (rg_Principal rd) \<lparr>id_PublicKey = rg_Key rd, id_Role = rg_Role rd\<rparr>)\<rparr>, ?app)) = Ok (resp, app')"
        using assms d admin True by (simp add: identity_finalize_register_def Let_def)
      then have "(fb_CommitFunc resp = None \<or> fb_CommitFunc resp = Some (CommitRegister (rg_Principal rd)
          \<lparr>id_PublicKey = rg_Key rd, id_Role = rg_Role rd\<rparr>) \<and> tr_Code (fb_TxResult resp) = CodeOk) \<and> app' = ?app"
        by (elim on_errE) (auto simp: ok_result_def)
      with True admin failed commit show ?thesis by blast
    next
      case False
      with assms d admin have "fb_CommitFunc resp = None \<and> app' = app"
        unfolding identity_finalize_register_def
        by (cases "id_Has T (ia_tree app) (rg_Principal rd)") (auto split: if_split_asm)
      then show ?thesis by (intro none) simp_all
    qed
  next
    case (Err e)
    with assms admin have "fb_CommitFunc resp = None \<and> app' = app" by (auto simp: identity_finalize_register_def)
    then show ?thesis by (intro none) simp_all
  qed (use assms admin in \<open>simp add: identity_finalize_register_def\<close>)
next
  case False
  with assms have "fb_CommitFunc resp = None \<and> app' = app" by (auto simp: identity_finalize_register_def)
  then show ?thesis by (intro none) simp_all
qed

subsection \<open>The invariant of a block\<close>

fun commit_principals :: "commit list \<Rightarrow> Principal list" where
  "commit_principals [] = []"
| "commit_principals (CommitSeed p d # cs) = p # commit_principals cs"
| "commit_principals (CommitRegister p d # cs) = p # commit_principals cs"
| "commit_principals (_ # cs) = commit_principals cs"

fun seed_commits :: "commit list \<Rightarrow> nat" where
  "seed_commits [] = 0"
| "seed_commits (CommitSeed p d # cs) = Suc (seed_commits cs)"
| "seed_commits (_ # cs) = seed_commits cs"

lemma commit_principals_append [simp]: "commit_principals (cs @ ds) = commit_principals cs @ commit_principals ds"
  by (induction cs rule: commit_principals.induct) simp_all

lemma seed_commits_append [simp]: "seed_commits (cs @ ds) = seed_commits cs + seed_commits ds"
  by (induction cs rule: seed_commits.induct) simp_all

lemma seed_commits_le: "seed_commits cs \<le> length (commit_principals cs)"
  by (induction cs rule: commit_principals.induct) simp_all

text \<open>
  A principal is stored only after the application has been seeded. While the commit functions of a
  block wait, their principals are distinct and not stored yet; either all of them register
  principals in a seeded application, or there is one, and it seeds. While transactions are being
  handled, the principals are also recorded in the transaction state.
\<close>

definition id_committing :: "('t \<Rightarrow> bytes \<rightharpoonup> json) \<Rightarrow> 't IdentityApp \<Rightarrow> commit list \<Rightarrow> bool" where
  "id_committing view app cs \<longleftrightarrow>
     (\<forall>p. id_present view (ia_tree app) p \<longrightarrow> id_seeded view (ia_tree app))
     \<and> distinct (commit_principals cs)
     \<and> (\<forall>p \<in> set (commit_principals cs). \<not> id_present view (ia_tree app) p)
     \<and> (if id_seeded view (ia_tree app) then seed_commits cs = 0
        else length (commit_principals cs) \<le> 1 \<and> seed_commits cs = length (commit_principals cs))"

definition id_handling :: "('t \<Rightarrow> bytes \<rightharpoonup> json) \<Rightarrow> 't IdentityApp \<Rightarrow> commit list \<Rightarrow> bool" where
  "id_handling view app cs \<longleftrightarrow> id_committing view app cs
     \<and> set (commit_principals cs) \<subseteq> set (ia_registering app) \<and> (0 < seed_commits cs \<longrightarrow> ia_seeded app)"

abbreviation id_preserved :: "('t \<Rightarrow> bytes \<rightharpoonup> json) \<Rightarrow> 't IdentityApp \<Rightarrow> 't IdentityApp \<Rightarrow> bool" where
  "id_preserved view app app' \<equiv>
     identities_preserved (id_entry view) (id_present view) (id_seeded view) (ia_tree app) (ia_tree app')"

lemma id_handling_fin:
  assumes laws: "iavl_laws T view saved latest" and h: "id_handling view app cs"
    and f: "identity_FinalizeBlock T lib data app = Ok (resp, app')"
  shows "id_handling view app' (cs @ commit_of resp) \<and> id_preserved view app app'"
  using f
proof (cases rule: identity_FinalizeBlock_cases)
  case error
  then show ?thesis using h by (simp add: commit_of_def id_repo.preserves_refl)
next
  case (seed payload)
  from seed(2) show ?thesis
  proof (cases rule: identity_finalize_seed_cases)
    case (commit p k)
    have s: "\<not> id_seeded view (ia_tree app)" using id_repo.IsSeeded_seeded [OF laws commit(1)] by simp
    with h commit(2) have "commit_principals cs = []" "\<not> id_present view (ia_tree app) p"
      by (auto simp: id_handling_def id_committing_def)
    then show ?thesis using s h commit
      by (auto simp: commit_of_def id_handling_def id_committing_def id_repo.preserves_refl)
  qed (use h in \<open>auto simp: commit_of_def id_handling_def id_committing_def id_repo.preserves_refl\<close>)
next
  case (register payload requester)
  have "id_Get T (ia_tree app) (sp_Principal payload) = Ok requester"
    using extractIdentityData_Inr [OF register(3)] by simp
  then have "id_present view (ia_tree app) (sp_Principal payload)"
    by (rule id_repo.entry_present [OF id_repo.Get_entry [OF laws]])
  then have s: "id_seeded view (ia_tree app)" using h unfolding id_handling_def id_committing_def by blast
  from register(4) show ?thesis
  proof (cases rule: identity_finalize_register_cases)
    case (commit p d)
    have "\<not> id_present view (ia_tree app) p" using id_repo.Has_present [OF laws commit(2)] by simp
    then show ?thesis using s h commit
      by (auto simp: commit_of_def id_handling_def id_committing_def id_repo.preserves_refl)
  qed (use h in \<open>auto simp: commit_of_def id_handling_def id_committing_def id_repo.preserves_refl\<close>)
qed

lemma identity_commit_register:
  assumes laws: "iavl_laws T view saved latest" and c: "identity_commit T (CommitRegister p d) app = Ok app'"
    and new: "\<not> id_present view (ia_tree app) p"
  shows "id_preserved view app app' \<and> id_entry view (ia_tree app') p = Some d
    \<and> id_present view (ia_tree app') = (id_present view (ia_tree app))(p := True)
    \<and> id_seeded view (ia_tree app') = id_seeded view (ia_tree app)"
proof -
  obtain r1 h n r2 where r: "id_Store T (ia_tree app) p d = Ok r1" "id_Save T r1 = Ok (h, n, r2)" "ia_tree app' = r2"
    using c by (auto simp: identity_commit_def id_reset_txState_def Let_def)
  show ?thesis using id_repo.Store_Save [OF laws r(1,2) new] r(3) by simp
qed

lemma identity_commit_seed:
  assumes laws: "iavl_laws T view saved latest" and c: "identity_commit T (CommitSeed p d) app = Ok app'"
    and new: "\<not> id_present view (ia_tree app) p"
  shows "id_preserved view app app' \<and> id_entry view (ia_tree app') p = Some d
    \<and> id_present view (ia_tree app') = (id_present view (ia_tree app))(p := True) \<and> id_seeded view (ia_tree app')"
proof -
  obtain r1 r2 h n r3 where r: "id_Store T (ia_tree app) p d = Ok r1" "id_SetSeeded T r1 = Ok r2"
      "id_Save T r2 = Ok (h, n, r3)" "ia_tree app' = r3"
    using c by (auto simp: identity_commit_def id_reset_txState_def Let_def)
  show ?thesis using id_repo.Store_SetSeeded_Save [OF laws r(1-3) new] r(4) by simp
qed

lemma id_committing_com:
  assumes laws: "iavl_laws T view saved latest" and h: "id_committing view app (c # cs)"
    and f: "identity_commit T c app = Ok app'"
  shows "id_committing view app' cs \<and> id_preserved view app app'"
proof (cases c)
  case (CommitSeed p d)
  then have "\<not> id_present view (ia_tree app) p" "commit_principals cs = []" "seed_commits cs = 0"
    using h by (auto simp: id_committing_def split: if_split_asm)
  with identity_commit_seed [OF laws f [unfolded CommitSeed]] show ?thesis
    by (auto simp: id_committing_def)
next
  case (CommitRegister p d)
  then have "\<not> id_present view (ia_tree app) p" "id_seeded view (ia_tree app)"
    "p \<notin> set (commit_principals cs)" "distinct (commit_principals cs)"
    "\<forall>q \<in> set (commit_principals cs). \<not> id_present view (ia_tree app) q" "seed_commits cs = 0"
    using h seed_commits_le [of cs] by (auto simp: id_committing_def split: if_split_asm)
  with identity_commit_register [OF laws f [unfolded CommitRegister]] show ?thesis
    by (auto simp: id_committing_def)
next
  case (CommitEvent e)
  then show ?thesis using h f
    by (simp add: identity_commit_def id_committing_def id_repo.preserves_refl split: if_split_asm)
next
  case (CommitPolicy q)
  then show ?thesis using h f
    by (simp add: identity_commit_def id_committing_def id_repo.preserves_refl split: if_split_asm)
qed

interpretation identity_phases: repeatable "identity_FinalizeBlock T lib" "identity_commit T"
    "\<lambda>app cs. iavl_laws T view saved latest \<and> id_handling view app cs"
    "\<lambda>app cs. iavl_laws T view saved latest \<and> id_committing view app cs" "id_preserved view"
proof (unfold_locales, goal_cases)
  case 1
  then show ?case using id_handling_fin by blast
next
  case 2
  then show ?case by (simp add: id_handling_def)
next
  case 3
  then show ?case using id_committing_com by blast
next
  case 4
  then show ?case by (rule id_repo.preserves_refl)
next
  case 5
  then show ?case by (rule id_repo.preserves_trans)
next
  case 6
  then show ?case by (simp add: id_handling_def)
qed

subsection \<open>Properties\<close>

text \<open>
  Over any sequence of blocks, with any transactions in them, an identity that is stored keeps
  its key and role, and a seeded application stays seeded; storage failures do not matter as long as
  the commits that ran returned.
\<close>

lemma identities_immutable:
  assumes "iavl_laws T view saved latest"
    and "\<And>p. id_present view (ia_tree app) p \<Longrightarrow> id_seeded view (ia_tree app)"
    and "foldl (\<lambda>r b. bind_res r (run_block (identity_FinalizeBlock T lib) (identity_commit T) b)) (Ok app) blocks = Ok app'"
    and "id_entry view (ia_tree app) p = Some d"
  shows "id_entry view (ia_tree app') p = Some d \<and> id_seeded view (ia_tree app')"
proof -
  have "iavl_laws T view saved latest \<and> id_handling view app []"
    using assms(1,2) by (auto simp: id_handling_def id_committing_def)
  from identity_phases.run_blocks_inv [OF this assms(3)]
  have "id_preserved view app app'" by simp
  moreover have "id_present view (ia_tree app) p" using assms(4) by (rule id_repo.entry_present)
  ultimately show ?thesis using assms(2,4) by (simp add: identities_preserved_def)
qed

text \<open>
  C22. A registration is prepared only for a request that decodes, whose principal is registered as an
  administrator, whose signature validates under that administrator's key, and whose new principal is
  neither stored nor being registered in the same block.
\<close>

theorem register_authorised:
  assumes "iavl_laws T view saved latest"
    and "identity_FinalizeBlock T lib data app = Ok (resp, app')" "fb_CommitFunc resp = Some (CommitRegister p d)"
  shows "\<exists>payload admin. json_Unmarshal SignedPayload_of_json data = Ok payload
    \<and> id_entry view (ia_tree app) (sp_Principal payload) = Some admin \<and> IsAdmin admin
    \<and> ValidateSignature lib payload (id_PublicKey admin) = Ok True
    \<and> \<not> id_present view (ia_tree app) p \<and> p \<notin> set (ia_registering app)"
  using assms(2)
proof (cases rule: identity_FinalizeBlock_cases)
  case (seed payload)
  from seed(2) show ?thesis by (cases rule: identity_finalize_seed_cases) (use assms(3) in auto)
next
  case (register payload requester)
  have r: "id_Get T (ia_tree app) (sp_Principal payload) = Ok requester"
    "ValidateSignature lib payload (id_PublicKey requester) = Ok True"
    using extractIdentityData_Inr [OF register(3)] by auto
  from register(4) show ?thesis
  proof (cases rule: identity_finalize_register_cases)
    case (commit q e)
    then have q: "q = p" using assms(3) by simp
    have "\<not> id_present view (ia_tree app) p" using id_repo.Has_present [OF assms(1) commit(2)] q by simp
    with register(1) r commit(1,3) q id_repo.Get_entry [OF assms(1) r(1)] show ?thesis
      by (auto simp: IsAdmin_def)
  qed (use assms(3) in auto)
qed (use assms(3) in simp)

text \<open>
  The first seed wins: when the seed marker is stored, or a seed is already waiting in the block,
  every further seed request gets the code CodeAlreadySeeded and no commit function.
\<close>

lemma seed_once:
  assumes "iavl_laws T view saved latest" "id_seeded view (ia_tree app) \<or> ia_seeded app"
    and "identity_FinalizeBlock T lib data app = Ok (resp, app')"
  shows "fb_CommitFunc resp \<noteq> Some (CommitSeed p d)"
  using assms(3)
proof (cases rule: identity_FinalizeBlock_cases)
  case (seed payload)
  from seed(2) show ?thesis
  proof (cases rule: identity_finalize_seed_cases)
    case (commit q k)
    then have "\<not> id_seeded view (ia_tree app)" using id_repo.IsSeeded_seeded [OF assms(1) commit(1)] by simp
    with commit(2) assms(2) show ?thesis by simp
  qed auto
next
  case (register payload requester)
  from register(4) show ?thesis by (cases rule: identity_finalize_register_cases) auto
qed auto

text \<open>What a result of FinalizeBlock says about the result of CheckTx in the same state.\<close>

definition check_agrees :: "(FinalizeBlockResponse \<times> 's) res \<Rightarrow> ResponseCheckTx res \<Rightarrow> bool" where
  "check_agrees f c = (case f of
     Ok (resp, app') \<Rightarrow> (case c of Ok ck \<Rightarrow> ck_Code ck = tr_Code (fb_TxResult resp)
         \<and> (ck_Code ck = CodeOk \<longleftrightarrow> fb_CommitFunc resp \<noteq> None) | _ \<Rightarrow> False)
   | Err e \<Rightarrow> False
   | Panic \<Rightarrow> c = Panic)"

lemma check_seed_agrees:
  assumes "iv_Hash T (ia_tree app) = Ok h"
  shows "check_agrees (identity_finalize_seed T app data) (identity_check_seed T app data)"
  using assms
  by (cases "json_Unmarshal PayloadSeed_UnmarshalJSON data"; cases "id_IsSeeded T (ia_tree app)")
    (simp_all add: identity_finalize_seed_def identity_check_seed_def check_agrees_def id_Hash_def ok_result_def
      code_defs Let_def)

lemma check_register_agrees:
  assumes "iv_Hash T (ia_tree app) = Ok h"
  shows "check_agrees (identity_finalize_register T app requester data) (identity_check_register T app requester data)"
proof (cases "json_Unmarshal PayloadRegister_UnmarshalJSON data")
  case (Ok rd)
  then show ?thesis using assms
    by (cases "id_Has T (ia_tree app) (rg_Principal rd)")
      (simp_all add: identity_finalize_register_def identity_check_register_def check_agrees_def id_Hash_def
        ok_result_def code_defs Let_def)
qed (simp_all add: identity_finalize_register_def identity_check_register_def check_agrees_def code_defs)

lemma identity_requester_Inl:
  "identity_requester T lib r payload = Ok (Inl e) \<Longrightarrow> er_Code e \<noteq> 0"
  by (auto simp: identity_requester_def extractIdentityData_def NewErrorResponse_def code_defs
      elim!: on_errE split: if_split_asm)

text \<open>
  C23. CheckTx and FinalizeBlock agree: in the same state, when the tree can be hashed, they give a
  transaction the same result code, FinalizeBlock returns a commit function exactly for the
  transactions that CheckTx accepts, and neither panics unless the other does.
\<close>

theorem identity_check_agrees:
  assumes "iv_Hash T (ia_tree app) = Ok h"
  shows "check_agrees (identity_FinalizeBlock T lib data app) (identity_CheckTx T lib app data)"
proof (cases "json_Unmarshal SignedPayload_of_json data")
  case (Ok payload)
  note d = this
  show ?thesis
  proof (cases "identity_requester T lib (ia_tree app) payload")
    case (Ok who)
    note w = this
    show ?thesis
    proof (cases who)
      case (Inl e)
      then show ?thesis using d w identity_requester_Inl [OF w [unfolded Inl]]
        by (simp add: identity_FinalizeBlock_def identity_CheckTx_def check_agrees_def CodeOk_def)
    next
      case (Inr requester)
      show ?thesis using d w Inr check_seed_agrees [OF assms] check_register_agrees [OF assms]
        by (simp add: identity_FinalizeBlock_def identity_CheckTx_def) (simp add: check_agrees_def code_defs)
    qed
  qed (use d in \<open>simp_all add: identity_FinalizeBlock_def identity_CheckTx_def check_agrees_def\<close>)
qed (simp_all add: identity_FinalizeBlock_def identity_CheckTx_def check_agrees_def code_defs)

theorem identity_check_agrees_witness:
  "check_agrees (identity_FinalizeBlock mem_iavl demo_lib None \<lparr>ia_tree = mem_empty, ia_versionNumber = 0,
        ia_seeded = False, ia_registering = []\<rparr>)
     (identity_CheckTx mem_iavl demo_lib \<lparr>ia_tree = mem_empty, ia_versionNumber = 0,
        ia_seeded = False, ia_registering = []\<rparr> None)"
  by (rule identity_check_agrees [where h = "[0]"]) (simp add: mem_iavl_def mem_empty_def)

subsection \<open>A small chain\<close>

text \<open>A seeded application in memory, with an administrator \<^verbatim>\<open>root\<close>, and a request of hers.\<close>

definition demo_admin :: IdentityData where
  "demo_admin = \<lparr>id_PublicKey = replicate 32 3, id_Role = RoleAdmin\<rparr>"

definition demo_identities :: "mem_tree IdentityApp" where
  "demo_identities = \<lparr>ia_tree = \<lparr>mt_view = [(seeded_key, JBool True), (principal_key ''root'', IdentityData_MarshalJSON demo_admin)],
     mt_versions = []\<rparr>, ia_versionNumber = 0, ia_seeded = False, ia_registering = []\<rparr>"

definition demo_signed :: "string \<Rightarrow> json \<Rightarrow> json" where
  "demo_signed ty d = SignedPayload_json \<lparr>sp_Payload = \<lparr>pl_Type = ty, pl_Data = Some d\<rparr>, sp_Principal = ''root'',
     sp_Signature = hex_EncodeToString (ed25519_sign demo_lib (replicate 64 3) (raw_bytes demo_lib (Some d)))\<rparr>"

definition demo_register :: json where
  "demo_register = demo_signed RequestTypeRegister
     (JObj [(''principal'', JStr ''bob''), (''role'', JStr ''user''), (''public_key'', JStr ''0707'')])"

lemma demo_register_eval:
  "map_res (\<lambda>(r, a). fb_CommitFunc r) (identity_FinalizeBlock mem_iavl demo_lib (Some demo_register) demo_identities) =
     Ok (Some (CommitRegister ''bob'' \<lparr>id_PublicKey = [7, 7], id_Role = ''user''\<rparr>))"
  by code_simp

lemma demo_run_ok:
  "is_ok (foldl (\<lambda>r b. bind_res r (run_block (identity_FinalizeBlock mem_iavl demo_lib) (identity_commit mem_iavl) b))
     (Ok demo_identities) [[Some demo_register], []])"
  by code_simp

lemma demo_identities_facts:
  "id_present mem_view (ia_tree demo_identities) p \<Longrightarrow> id_seeded mem_view (ia_tree demo_identities)"
  "id_entry mem_view (ia_tree demo_identities) ''root'' = Some demo_admin"
  using identity_json.dec_enc [of demo_admin]
  by (simp_all add: id_seeded_def id_entry_def demo_identities_def mem_view_def)

theorem register_authorised_witness:
  "\<exists>payload admin. json_Unmarshal SignedPayload_of_json (Some demo_register) = Ok payload
    \<and> id_entry mem_view (ia_tree demo_identities) (sp_Principal payload) = Some admin \<and> IsAdmin admin
    \<and> ValidateSignature demo_lib payload (id_PublicKey admin) = Ok True
    \<and> \<not> id_present mem_view (ia_tree demo_identities) ''bob'' \<and> ''bob'' \<notin> set (ia_registering demo_identities)"
proof -
  obtain resp app' where "identity_FinalizeBlock mem_iavl demo_lib (Some demo_register) demo_identities = Ok (resp, app')"
    "fb_CommitFunc resp = Some (CommitRegister ''bob'' \<lparr>id_PublicKey = [7, 7], id_Role = ''user''\<rparr>)"
    using demo_register_eval by (auto simp: map_res_eq_Ok)
  then show ?thesis by (rule register_authorised [OF mem_iavl_laws])
qed

end
