(* ===== verification/EventsApp.thy ===== *)
theory EventsApp
  imports IdentityApp
begin

section \<open>The events application (wineventchain/pkg/events)\<close>

text \<open>
  The repository of events (merkle_repository.go) and the application that creates them (app.go).
  The repository's contract is the locale \<open>event_repository\<close>. Within a block the application is an
  interpretation of \<open>two_phase\<close>; across blocks the keys differ because the height is hashed into
  them. The properties: only a registered principal's valid signature creates an event, a stored
  event can be read back, and it never changes.
\<close>

subsection \<open>merkle\_repository.go\<close>

definition ev_LoadLatest :: "'t iavl \<Rightarrow> 't \<Rightarrow> (int \<times> 't) res" where
  "ev_LoadLatest T r = iv_Load T r"

definition ev_LoadVersion :: "'t iavl \<Rightarrow> 't \<Rightarrow> int \<Rightarrow> 't res" where
  "ev_LoadVersion T r version = iv_LoadVersion T r version"

definition ev_Rollback :: "'t iavl \<Rightarrow> 't \<Rightarrow> 't" where
  "ev_Rollback T r = iv_Rollback T r"

definition ev_Hash :: "'t iavl \<Rightarrow> 't \<Rightarrow> bytes res" where
  "ev_Hash T r = iv_Hash T r"

definition ev_Save :: "'t iavl \<Rightarrow> 't \<Rightarrow> (bytes \<times> int \<times> 't) res" where
  "ev_Save T r = iv_SaveVersion T r"

definition GetByEventId :: "'t iavl \<Rightarrow> extlib \<Rightarrow> 't \<Rightarrow> EventHash \<Rightarrow> EventWithMetadata res" where
  "GetByEventId T lib r i = bind_res (iv_Get T r i) (\<lambda>b.
     case b of None \<Rightarrow> Err ErrEventRecordNotFound | Some j \<Rightarrow> EventWithMetadata_of_json lib j)"

definition ev_GetWithProof :: "'t iavl \<Rightarrow> ics23 \<Rightarrow> extlib \<Rightarrow> 't \<Rightarrow> EventHash \<Rightarrow> EventWithMetadata ItemWithProof res" where
  "ev_GetWithProof T ics lib r i =
     bind_res (iv_GetWithIndex T r i) (\<lambda>(index, b).
     bind_res (ProofOpForTree T ics r i) (\<lambda>proofOp.
     case b of
       None \<Rightarrow> Ok \<lparr>it_Item = None, it_Index = index, it_Height = GetProofHeight T r, it_ProofOp = proofOp\<rparr>
     | Some j \<Rightarrow> bind_res (EventWithMetadata_of_json lib j) (\<lambda>event.
         Ok \<lparr>it_Item = Some event, it_Index = index, it_Height = GetProofHeight T r, it_ProofOp = proofOp\<rparr>)))"

definition EventCount :: "'t iavl \<Rightarrow> 't \<Rightarrow> int res" where
  "EventCount T r = (let size = iv_Size T r in if size < 0 then Err (OtherError ''negative size'') else Ok size)"

definition ev_Store :: "'t iavl \<Rightarrow> extlib \<Rightarrow> 't \<Rightarrow> EventWithMetadata \<Rightarrow> 't res" where
  "ev_Store T lib r event = iv_Set T r (md_EventId (em_Metadata event)) (EventWithMetadata_json lib event)"

subsection \<open>app.go\<close>

record 't EventsApp =
  ea_tree :: 't
  ea_versionNumber :: int
  ea_creating :: "string list"

definition NewEventsApp :: "'t iavl \<Rightarrow> 't \<Rightarrow> 't EventsApp res" where
  "NewEventsApp T tree = bind_res (iv_Load T tree) (\<lambda>(versionNumber, tree).
     Ok \<lparr>ea_tree = tree, ea_versionNumber = versionNumber, ea_creating = []\<rparr>)"

definition events_AppName :: string where "events_AppName = ''events''"
definition RequestTypeCreate :: string where "RequestTypeCreate = ''create''"

definition events_Info :: "'t iavl \<Rightarrow> 't EventsApp \<Rightarrow> (ErrorResponse + json) res" where
  "events_Info T app = on_err (ev_Hash T (ea_tree app))
     (\<lambda>e. Ok (Inl (NewErrorResponse CodeUnknownError mux_Codespace (Some e))))
     (\<lambda>appHash. Ok (Inr (JObj [(''app_hash'', JStr (hex_EncodeToString appHash)), (''version'', jnum (ea_versionNumber app))])))"

definition events_InitChain :: "'t iavl \<Rightarrow> 't EventsApp \<Rightarrow> bytes res" where
  "events_InitChain T app = on_err (ev_Hash T (ea_tree app)) (\<lambda>_. Panic) Ok"

text \<open>\<open>ids\<close> is the tree of the identity repository, which the application shares.\<close>

definition events_decode :: "'t iavl \<Rightarrow> extlib \<Rightarrow> 't \<Rightarrow> json option \<Rightarrow> (ErrorResponse + SignedPayload) res" where
  "events_decode T lib ids data =
     on_err (json_Unmarshal SignedPayload_of_json data)
       (\<lambda>e. Ok (Inl (NewErrorResponse CodeEncodingError mux_Codespace (Some e))))
       (\<lambda>payload.
         on_err (id_Get T ids (sp_Principal payload))
           (\<lambda>e. Ok (Inl (NewErrorResponse CodeUnknownError mux_Codespace (Some e))))
           (\<lambda>requester.
             on_err (ValidateSignature lib payload (id_PublicKey requester))
               (\<lambda>e. Ok (Inl (NewErrorResponse CodeUnknownError mux_Codespace (Some e))))
               (\<lambda>valid.
                 if \<not> valid then Ok (Inl (NewErrorResponse rpc_CodeInvalidSignature rpc_Codespace None))
                 else Ok (Inr payload))))"

definition events_CheckTx :: "'t iavl \<Rightarrow> extlib \<Rightarrow> 't \<Rightarrow> json option \<Rightarrow> ResponseCheckTx res" where
  "events_CheckTx T lib ids data =
     on_err (events_decode T lib ids data) (\<lambda>_. Panic) (\<lambda>dec. case dec of
       Inl e \<Rightarrow> Ok (IntoCheckTxResponse e)
     | Inr decoded \<Rightarrow>
         if pl_Type (sp_Payload decoded) = RequestTypeCreate then
           on_err (json_Unmarshal (CreateRequest_of_json lib) (pl_Data (sp_Payload decoded)))
             (\<lambda>e. Ok (ck_error CodeEncodingError mux_Codespace (Some e)))
             (\<lambda>payload. Ok \<lparr>ck_Code = CodeOk, ck_Log = [], ck_Codespace = mux_Codespace\<rparr>)
         else Ok (ck_error rpc_CodeUnknownRequestType rpc_Codespace (Some (OtherError ''unknown request type''))))"

definition create_attributes :: "EventHash \<Rightarrow> Principal \<Rightarrow> (string \<times> string \<times> bool) list" where
  "create_attributes eventId signer =
     [(''type'', ''create'', True), (''event_id'', TxHash_String eventId, True), (''principal'', signer, True)]"

text \<open>The create branch of \<^verbatim>\<open>FinalizeBlock\<close>.\<close>

definition events_finalize_create ::
    "'t iavl \<Rightarrow> extlib \<Rightarrow> RequestFinalizeBlock \<Rightarrow> SignedPayload \<Rightarrow> 't EventsApp \<Rightarrow> (FinalizeBlockResponse \<times> 't EventsApp) res" where
  "events_finalize_create T lib req decoded app =
     on_err (json_Unmarshal (CreateRequest_of_json lib) (pl_Data (sp_Payload decoded)))
       (\<lambda>e. Ok (fb_error CodeEncodingError mux_Codespace (Some e), app))
       (\<lambda>payload.
         on_err (NewEventHash lib (word_of_int (fr_Height req)) (sp_Principal decoded) (sc_Event (cr_Event payload)))
           (\<lambda>e. Ok (fb_error CodeUnknownError mux_Codespace (Some e), app))
           (\<lambda>eventId.
             if Contains (ea_creating app) (TxHash_String eventId)
             then Ok (fb_error events_CodeUnknownError events_Codespace None, app)
             else
               let app = app\<lparr>ea_creating := ea_creating app @ [TxHash_String eventId]\<rparr>;
                   metadata = \<lparr>md_EventId = eventId, ReceivedTime = fr_Time req, md_Principal = sp_Principal decoded\<rparr>
               in on_err (ev_Hash T (ea_tree app))
                    (\<lambda>e. Ok (fb_error CodeUnknownError mux_Codespace (Some e), app))
                    (\<lambda>appHash. Ok (\<lparr>
                       fb_TxResult = \<lparr>tr_Code = CodeOk,
                         tr_Data = Some (JObj [(''metadata'', Metadata_json metadata)]),
                         tr_Log = ''event stored'',
                         tr_Events = [utils_Event ''create'' (create_attributes eventId (sp_Principal decoded))],
                         tr_Codespace = events_Codespace\<rparr>,
                       fb_AppHash = appHash,
                       fb_CommitFunc = Some (CommitEvent \<lparr>em_ScrubbedEvent = cr_Event payload, em_Metadata = metadata\<rparr>)\<rparr>, app))))"

definition events_FinalizeBlock ::
    "'t iavl \<Rightarrow> extlib \<Rightarrow> 't \<Rightarrow> RequestFinalizeBlock \<Rightarrow> json option \<Rightarrow> 't EventsApp \<Rightarrow> (FinalizeBlockResponse \<times> 't EventsApp) res" where
  "events_FinalizeBlock T lib ids req data app =
     on_err (events_decode T lib ids data) (\<lambda>_. Panic) (\<lambda>dec. case dec of
       Inl e \<Rightarrow> Ok (IntoFinalizeBlockResponse e, app)
     | Inr decoded \<Rightarrow>
         on_err (ev_LoadVersion T (ea_tree app) (ea_versionNumber app))
           (\<lambda>e. Ok (fb_error rpc_CodeUnknownRequestType rpc_Codespace (Some e), app))
           (\<lambda>tree.
             let app = app\<lparr>ea_tree := tree\<rparr>
             in if pl_Type (sp_Payload decoded) = RequestTypeCreate
                then events_finalize_create T lib req decoded app
                else Ok (fb_error rpc_CodeUnknownRequestType rpc_Codespace
                           (Some (OtherError ''unknown request type'')), app)))"

definition events_commit :: "'t iavl \<Rightarrow> extlib \<Rightarrow> commit \<Rightarrow> 't EventsApp \<Rightarrow> 't EventsApp res" where
  "events_commit T lib c app = (case c of
     CommitEvent event \<Rightarrow>
       (let app = app\<lparr>ea_creating := []\<rparr>
        in bind_res (ev_Store T lib (ea_tree app) event) (\<lambda>r1.
           bind_res (ev_Save T r1) (\<lambda>(newHash, versionNumber, r2).
             Ok (app\<lparr>ea_tree := r2, ea_versionNumber := versionNumber\<rparr>))))
   | _ \<Rightarrow> Ok app)"

text \<open>
  \<^verbatim>\<open>^/event-by-id/([a-f0-9]{64})$\<close>: the path has the prefix, followed by exactly 64 lower-case
  hexadecimal digits.
\<close>

definition lower_hex :: "char \<Rightarrow> bool" where
  "lower_hex c \<longleftrightarrow> is_digit c \<or> (97 \<le> (of_char c :: nat) \<and> (of_char c :: nat) \<le> 102)"

definition match_event_path :: "string \<Rightarrow> string option" where
  "match_event_path path =
     (let p = ''/event-by-id/''; rest = drop (length p) path
      in if HasPrefix path p \<and> length rest = 64 \<and> list_all lower_hex rest then Some rest else None)"

definition events_Query :: "'t iavl \<Rightarrow> ics23 \<Rightarrow> extlib \<Rightarrow> 't EventsApp \<Rightarrow> RequestQuery \<Rightarrow> ResponseQuery res" where
  "events_Query T ics lib app req =
     (if rqq_Path req = ''/count'' then
        on_err (EventCount T (ea_tree app))
          (\<lambda>e. Ok (q_error events_CodeUnknownError events_Codespace (Some e)))
          (\<lambda>count. Ok \<lparr>rq_Code = CodeOk, rq_Log = ''event count'', rq_Index = 0, rq_Key = [],
             rq_Value = Some (JObj [(''count'', jnum count)]), rq_ProofOps = None, rq_Height = rqq_Height req,
             rq_Codespace = events_Codespace\<rparr>)
      else case match_event_path (rqq_Path req) of
        None \<Rightarrow> Ok (q_error CodeInvalidQueryPath events_Codespace None)
      | Some m \<Rightarrow>
          on_err (hex_DecodeString m)
            (\<lambda>e. Ok (q_error CodeInvalidQueryPath events_Codespace None))
            (\<lambda>eventId.
              on_err (ev_GetWithProof T ics lib (ea_tree app) eventId)
                (\<lambda>e. if e = ErrEventRecordNotFound then Ok (q_error CodeEventNotFound events_Codespace (Some e))
                     else if e = ErrTreeUninitialized
                       then Ok (q_error events_CodeTreeUninitialized events_Codespace (Some e))
                     else Ok (q_error events_CodeUnknownError events_Codespace (Some e)))
                (\<lambda>ev.
                  let height = (if rqq_Height req = 0 then it_Height ev else rqq_Height req)
                  in case it_Item ev of
                       None \<Rightarrow> Ok \<lparr>rq_Code = CodeEventNotFound, rq_Log = ''Event not found'', rq_Index = it_Index ev,
                         rq_Key = eventId, rq_Value = None, rq_ProofOps = Some (Item_ProofOps ev), rq_Height = height,
                         rq_Codespace = events_Codespace\<rparr>
                     | Some e \<Rightarrow> Ok \<lparr>rq_Code = CodeOk, rq_Log = ''Event found'', rq_Index = it_Index ev,
                         rq_Key = eventId, rq_Value = Some (EventWithMetadata_json lib e),
                         rq_ProofOps = Some (Item_ProofOps ev), rq_Height = height,
                         rq_Codespace = events_Codespace\<rparr>)))"

subsection \<open>The repository's contract\<close>

locale event_repository =
  fixes Get :: "'r \<Rightarrow> EventHash \<Rightarrow> EventWithMetadata res" and Store :: "'r \<Rightarrow> EventWithMetadata \<Rightarrow> 'r res"
    and Save :: "'r \<Rightarrow> (bytes \<times> int \<times> 'r) res" and ok :: bool and readable :: "EventWithMetadata \<Rightarrow> bool"
    and content :: "'r \<Rightarrow> EventHash \<Rightarrow> 'j option" and image :: "EventWithMetadata \<Rightarrow> 'j"
  assumes Get_image: "ok \<Longrightarrow> readable e \<Longrightarrow> content r k = Some (image e) \<Longrightarrow> Get r k = Ok x \<Longrightarrow> x = e"
    and Get_None: "ok \<Longrightarrow> content r k = None \<Longrightarrow> Get r k \<noteq> Ok x"
    and Store_law: "ok \<Longrightarrow> Store r e = Ok r' \<Longrightarrow> content r' = (content r)(md_EventId (em_Metadata e) := Some (image e))"
    and Save_law: "ok \<Longrightarrow> Save r = Ok (h, n, r') \<Longrightarrow> content r' = content r"
begin

lemma Store_new:
  assumes ok "Store r e = Ok r'" "content r (md_EventId (em_Metadata e)) = None"
  shows "content r \<subseteq>\<^sub>m content r'"
  using Store_law [OF assms(1,2)] assms(3) by (auto simp: map_le_def)

lemma Store_Save_Get:
  assumes ok "Store r e = Ok r1" "Save r1 = Ok (h, n, r2)" "readable e" "Get r2 (md_EventId (em_Metadata e)) = Ok x"
  shows "x = e"
  using Store_law [OF assms(1,2)] Save_law [OF assms(1,3)] Get_image [OF assms(1,4) _ assms(5)] by simp

end

definition event_readable :: "extlib \<Rightarrow> EventWithMetadata \<Rightarrow> bool" where
  "event_readable lib e \<longleftrightarrow> uuid_laws lib \<and> Event_wf (sc_Event (em_ScrubbedEvent e))"

interpretation ev_repo: event_repository "GetByEventId T lib" "ev_Store T lib" "ev_Save T" "iavl_laws T view saved latest"
    "event_readable lib" view "EventWithMetadata_json lib"
proof (unfold_locales, goal_cases)
  case (1 e r k x)
  obtain b where "iv_Get T r k = Ok b" using 1(4) by (auto simp: GetByEventId_def)
  moreover from iavl_lawsD(1) [OF 1(1) this] have "b = Some (EventWithMetadata_json lib e)" using 1(3) by simp
  ultimately show ?case using 1(2,4) EventWithMetadata_json_roundtrip [of lib e]
    by (simp add: GetByEventId_def event_readable_def)
next
  case (2 r k x)
  then show ?case using iavl_lawsD(1) [OF 2(1)] by (fastforce simp: GetByEventId_def)
next
  case (3 r e r')
  then show ?case using iavl_lawsD(4) [OF 3(1)] by (simp add: ev_Store_def)
next
  case (4 r h n r')
  then show ?case using iavl_lawsD(5) [OF 4(1)] by (simp add: ev_Save_def)
qed

subsection \<open>What a handler does\<close>

lemma events_decode_Inr:
  assumes "events_decode T lib ids data = Ok (Inr payload)"
  shows "\<exists>requester. json_Unmarshal SignedPayload_of_json data = Ok payload \<and> id_Get T ids (sp_Principal payload) = Ok requester
    \<and> ValidateSignature lib payload (id_PublicKey requester) = Ok True"
  using assms by (auto simp: events_decode_def elim!: on_errE split: if_split_asm)

definition create_event :: "RequestFinalizeBlock \<Rightarrow> SignedPayload \<Rightarrow> CreateRequest \<Rightarrow> EventHash \<Rightarrow> EventWithMetadata" where
  "create_event req payload r i = \<lparr>em_ScrubbedEvent = cr_Event r,
     em_Metadata = \<lparr>md_EventId = i, ReceivedTime = fr_Time req, md_Principal = sp_Principal payload\<rparr>\<rparr>"

lemma events_finalize_create_cases:
  assumes "events_finalize_create T lib req payload app = Ok (resp, app')"
  obtains (none) "fb_CommitFunc resp = None" "app' = app"
  | (failed) i where "fb_CommitFunc resp = None" "app' = app\<lparr>ea_creating := ea_creating app @ [TxHash_String i]\<rparr>"
  | (commit) r i where "json_Unmarshal (CreateRequest_of_json lib) (pl_Data (sp_Payload payload)) = Ok r"
      "NewEventHash lib (word_of_int (fr_Height req)) (sp_Principal payload) (sc_Event (cr_Event r)) = Ok i"
      "TxHash_String i \<notin> set (ea_creating app)"
      "fb_CommitFunc resp = Some (CommitEvent (create_event req payload r i))"
      "app' = app\<lparr>ea_creating := ea_creating app @ [TxHash_String i]\<rparr>"
proof (cases "json_Unmarshal (CreateRequest_of_json lib) (pl_Data (sp_Payload payload))")
  case (Ok r)
  note d = this
  obtain i where i: "NewEventHash lib (word_of_int (fr_Height req)) (sp_Principal payload) (sc_Event (cr_Event r)) = Ok i"
    by (simp add: NewEventHash_def)
  show ?thesis
  proof (cases "TxHash_String i \<in> set (ea_creating app)")
    case True
    with assms d i have "fb_CommitFunc resp = None \<and> app' = app" by (auto simp: events_finalize_create_def)
    then show ?thesis by (intro none) simp_all
  next
    case False
    let ?app = "app\<lparr>ea_creating := ea_creating app @ [TxHash_String i]\<rparr>"
    have "(fb_CommitFunc resp = None \<or> fb_CommitFunc resp = Some (CommitEvent (create_event req payload r i))) \<and> app' = ?app"
      using assms d i False
      by (cases "ev_Hash T (ea_tree app)") (auto simp: events_finalize_create_def create_event_def Let_def)
    with d i False failed commit show ?thesis by blast
  qed
next
  case (Err e)
  with assms have "fb_CommitFunc resp = None \<and> app' = app" by (auto simp: events_finalize_create_def)
  then show ?thesis by (intro none) simp_all
qed (use assms in \<open>simp add: events_finalize_create_def\<close>)

lemma events_FinalizeBlock_cases:
  assumes "events_FinalizeBlock T lib ids req data app = Ok (resp, app')"
  obtains (error) "fb_CommitFunc resp = None" "app' = app"
  | (other) tree where "ev_LoadVersion T (ea_tree app) (ea_versionNumber app) = Ok tree"
      "fb_CommitFunc resp = None" "app' = app\<lparr>ea_tree := tree\<rparr>"
  | (create) payload tree where "events_decode T lib ids data = Ok (Inr payload)"
      "ev_LoadVersion T (ea_tree app) (ea_versionNumber app) = Ok tree"
      "pl_Type (sp_Payload payload) = RequestTypeCreate"
      "events_finalize_create T lib req payload (app\<lparr>ea_tree := tree\<rparr>) = Ok (resp, app')"
proof -
  obtain d where d: "events_decode T lib ids data = Ok d"
    using assms by (cases "events_decode T lib ids data") (auto simp: events_FinalizeBlock_def)
  show ?thesis
  proof (cases d)
    case (Inl e)
    with assms d have "fb_CommitFunc resp = None \<and> app' = app" by (auto simp: events_FinalizeBlock_def)
    then show ?thesis by (intro error) simp_all
  next
    case (Inr payload)
    note d = d [unfolded Inr]
    show ?thesis
    proof (cases "ev_LoadVersion T (ea_tree app) (ea_versionNumber app)")
      case (Ok tree)
      show ?thesis
      proof (cases "pl_Type (sp_Payload payload) = RequestTypeCreate")
        case True
        with assms d Ok show ?thesis by (intro create [of payload tree]) (simp_all add: events_FinalizeBlock_def)
      next
        case False
        with assms d Ok have "fb_CommitFunc resp = None \<and> app' = app\<lparr>ea_tree := tree\<rparr>"
          by (auto simp: events_FinalizeBlock_def)
        with Ok show ?thesis by (intro other [of tree]) simp_all
      qed
    next
      case (Err e)
      with assms d have "fb_CommitFunc resp = None \<and> app' = app" by (auto simp: events_FinalizeBlock_def)
      then show ?thesis by (intro error) simp_all
    qed (use assms d in \<open>simp add: events_FinalizeBlock_def\<close>)
  qed
qed

subsection \<open>The invariant of a block\<close>

fun commit_events :: "commit list \<Rightarrow> EventHash list" where
  "commit_events [] = []"
| "commit_events (CommitEvent e # cs) = md_EventId (em_Metadata e) # commit_events cs"
| "commit_events (_ # cs) = commit_events cs"

lemma commit_events_append [simp]: "commit_events (cs @ ds) = commit_events cs @ commit_events ds"
  by (induction cs rule: commit_events.induct) simp_all

text \<open>
  The bytes hashed for an event, and the bytes that a transaction makes the application hash. That
  identifiers of different blocks differ rests on the absence of collisions, among the bytes \<open>S\<close> that
  a run really hashes, of SHA-256: \<open>inj_on (sha256 lib) S\<close>.
\<close>

definition event_text :: "extlib \<Rightarrow> 64 word \<Rightarrow> Principal \<Rightarrow> Event \<Rightarrow> bytes" where
  "event_text lib w p e = PutUint64 w @ bz p @ bz (render (rfc3339 lib) (Event_json lib e))"

definition tx_texts :: "extlib \<Rightarrow> int \<Rightarrow> json option \<Rightarrow> bytes set" where
  "tx_texts lib h data = (case json_Unmarshal SignedPayload_of_json data of
     Ok payload \<Rightarrow> (case json_Unmarshal (CreateRequest_of_json lib) (pl_Data (sp_Payload payload)) of
         Ok r \<Rightarrow> {event_text lib (word_of_int h) (sp_Principal payload) (sc_Event (cr_Event r))}
       | _ \<Rightarrow> {})
   | _ \<Rightarrow> {})"

definition from_height :: "extlib \<Rightarrow> bytes set \<Rightarrow> 64 word \<Rightarrow> EventHash \<Rightarrow> bool" where
  "from_height lib S w k \<longleftrightarrow> (\<exists>p e. k = sha256 lib (event_text lib w p e) \<and> event_text lib w p e \<in> S)"

lemma from_height_unique:
  assumes "inj_on (sha256 lib) S" "from_height lib S w k" "from_height lib S w' k"
  shows "w = w'"
proof -
  obtain p e q f where a: "k = sha256 lib (event_text lib w p e)" "event_text lib w p e \<in> S"
    and b: "k = sha256 lib (event_text lib w' q f)" "event_text lib w' q f \<in> S"
    using assms(2,3) unfolding from_height_def by blast
  then have "event_text lib w p e = event_text lib w' q f" using inj_onD [OF assms(1)] by simp
  then have "PutUint64 w = PutUint64 w'" by (simp add: event_text_def append_eq_append_conv)
  then show ?thesis by (metis Uint64_PutUint64)
qed

text \<open>
  The tree holds its last saved version, whose keys come from earlier heights; the pending events
  come from the block's height, have distinct keys and are recorded in the transaction state.
\<close>

definition ev_synced :: "('t \<Rightarrow> bytes \<rightharpoonup> json) \<Rightarrow> ('t \<Rightarrow> bytes \<rightharpoonup> json) \<Rightarrow> ('t \<Rightarrow> int) \<Rightarrow> 't EventsApp \<Rightarrow> bool" where
  "ev_synced view saved latest app \<longleftrightarrow> ea_versionNumber app = latest (ea_tree app) \<and> view (ea_tree app) = saved (ea_tree app)"

definition ev_handling :: "extlib \<Rightarrow> bytes set \<Rightarrow> 64 word \<Rightarrow> ('t \<Rightarrow> bytes \<rightharpoonup> json) \<Rightarrow> 't EventsApp \<Rightarrow> commit list \<Rightarrow> bool" where
  "ev_handling lib S w view app cs \<longleftrightarrow>
     (\<forall>k \<in> dom (view (ea_tree app)). \<exists>w'. w' < w \<and> from_height lib S w' k)
     \<and> distinct (commit_events cs)
     \<and> (\<forall>k \<in> set (commit_events cs). from_height lib S w k \<and> TxHash_String k \<in> set (ea_creating app))"

definition ev_committing :: "extlib \<Rightarrow> bytes set \<Rightarrow> 64 word \<Rightarrow> ('t \<Rightarrow> bytes \<rightharpoonup> json) \<Rightarrow> 't EventsApp \<Rightarrow> commit list \<Rightarrow> bool" where
  "ev_committing lib S w view app cs \<longleftrightarrow>
     (\<forall>k \<in> dom (view (ea_tree app)). \<exists>w'. w' \<le> w \<and> from_height lib S w' k)
     \<and> distinct (commit_events cs)
     \<and> (\<forall>k \<in> set (commit_events cs). from_height lib S w k \<and> k \<notin> dom (view (ea_tree app)))"

abbreviation ev_preserved :: "('t \<Rightarrow> bytes \<rightharpoonup> json) \<Rightarrow> 't EventsApp \<Rightarrow> 't EventsApp \<Rightarrow> bool" where
  "ev_preserved view app app' \<equiv> view (ea_tree app) \<subseteq>\<^sub>m view (ea_tree app')"

lemma ev_handling_committing:
  assumes "inj_on (sha256 lib) S" "ev_handling lib S w view app cs"
  shows "ev_committing lib S w view app cs"
proof -
  have "k \<notin> dom (view (ea_tree app))" if "k \<in> set (commit_events cs)" for k
    using assms that from_height_unique [OF assms(1)] unfolding ev_handling_def by (metis order_less_irrefl)
  moreover have "\<exists>w'\<le>w. from_height lib S w' k" if "k \<in> dom (view (ea_tree app))" for k
    using assms(2) that unfolding ev_handling_def by (meson less_imp_le)
  ultimately show ?thesis using assms(2) unfolding ev_handling_def ev_committing_def by blast
qed

lemma ev_load_synced:
  assumes "iavl_laws T view saved latest" "ev_synced view saved latest app"
    and "ev_LoadVersion T (ea_tree app) (ea_versionNumber app) = Ok tree"
  shows "view tree = view (ea_tree app)" "ev_synced view saved latest (app\<lparr>ea_tree := tree\<rparr>)"
  using iavl_lawsD(6) [OF assms(1), of "ea_tree app" tree] assms(2,3) by (simp_all add: ev_synced_def ev_LoadVersion_def)

lemma ev_handling_fin:
  assumes laws: "iavl_laws T view saved latest" and sync: "ev_synced view saved latest app"
    and h: "ev_handling lib S w view app cs" and w: "w = word_of_int (fr_Height req)"
    and S: "tx_texts lib (fr_Height req) data \<subseteq> S"
    and f: "events_FinalizeBlock T lib ids req data app = Ok (resp, app')"
  shows "ev_handling lib S w view app' (cs @ commit_of resp) \<and> ev_synced view saved latest app' \<and> ev_preserved view app app'"
  using f
proof (cases rule: events_FinalizeBlock_cases)
  case error
  then show ?thesis using h sync by (simp add: commit_of_def)
next
  case (other tree)
  then show ?thesis using h ev_load_synced [OF laws sync other(1)] by (simp add: commit_of_def ev_handling_def)
next
  case (create payload tree)
  note l = ev_load_synced [OF laws sync create(2)]
  from create(4) show ?thesis
  proof (cases rule: events_finalize_create_cases)
    case (commit r i)
    have "from_height lib S w i"
      using commit(1,2) S events_decode_Inr [OF create(1)]
      by (auto simp: from_height_def w tx_texts_def NewEventHash_def event_text_def)
    moreover have "i \<notin> set (commit_events cs)" using h commit(3) by (auto simp: ev_handling_def)
    ultimately show ?thesis using h commit l
      by (auto simp: commit_of_def ev_handling_def create_event_def ev_synced_def)
  qed (use h l in \<open>auto simp: commit_of_def ev_handling_def ev_synced_def\<close>)
qed

lemma events_commit_event:
  assumes laws: "iavl_laws T view saved latest" and c: "events_commit T lib (CommitEvent e) app = Ok app'"
  shows "view (ea_tree app') = (view (ea_tree app))(md_EventId (em_Metadata e) \<mapsto> EventWithMetadata_json lib e)
    \<and> ev_synced view saved latest app'"
proof -
  obtain r1 h n r2 where r: "ev_Store T lib (ea_tree app) e = Ok r1" "ev_Save T r1 = Ok (h, n, r2)"
      "app' = app\<lparr>ea_creating := [], ea_tree := r2, ea_versionNumber := n\<rparr>"
    using c by (auto simp: events_commit_def Let_def)
  show ?thesis
    using ev_repo.Store_law [OF laws r(1)] ev_repo.Save_law [OF laws r(2)] iavl_lawsD(5) [OF laws] r(2,3)
    by (fastforce simp: ev_synced_def ev_Save_def)
qed

lemma ev_committing_com:
  assumes laws: "iavl_laws T view saved latest" and sync: "ev_synced view saved latest app"
    and h: "ev_committing lib S w view app (c # cs)" and f: "events_commit T lib c app = Ok app'"
  shows "ev_committing lib S w view app' cs \<and> ev_synced view saved latest app' \<and> ev_preserved view app app'"
proof (cases "\<exists>e. c = CommitEvent e")
  case True
  then obtain e where c: "c = CommitEvent e" by blast
  note n = events_commit_event [OF laws f [unfolded c]]
  have k: "md_EventId (em_Metadata e) \<notin> dom (view (ea_tree app))" "from_height lib S w (md_EventId (em_Metadata e))"
    using h by (auto simp: c ev_committing_def)
  then have "ev_preserved view app app'" using n by (auto simp: map_le_def)
  moreover have "ev_committing lib S w view app' cs" using h n k by (auto simp: c ev_committing_def)
  ultimately show ?thesis using n by blast
next
  case False
  then have "app' = app" "commit_events (c # cs) = commit_events cs"
    using f by (cases c; simp add: events_commit_def)+
  then show ?thesis using h sync by (simp add: ev_committing_def)
qed

interpretation events_phases: two_phase "\<lambda>(ids, req, data). if tx_texts lib h data \<subseteq> S then events_FinalizeBlock T lib ids (req\<lparr>fr_Height := h\<rparr>) data else (\<lambda>_. Panic)"
    "events_commit T lib"
    "\<lambda>app cs. iavl_laws T view saved latest \<and> inj_on (sha256 lib) S \<and> ev_synced view saved latest app \<and> ev_handling lib S (word_of_int h) view app cs"
    "\<lambda>app cs. iavl_laws T view saved latest \<and> inj_on (sha256 lib) S \<and> ev_synced view saved latest app \<and> ev_committing lib S (word_of_int h) view app cs"
    "ev_preserved view"
proof (unfold_locales, goal_cases)
  case (1 s cs r resp s')
  obtain ids req data where r: "r = (ids, req, data)" by (cases r)
  have f: "events_FinalizeBlock T lib ids (req\<lparr>fr_Height := h\<rparr>) data s = Ok (resp, s')"
    and t: "tx_texts lib (fr_Height (req\<lparr>fr_Height := h\<rparr>)) data \<subseteq> S"
    using 1(2) by (simp_all add: r split: if_split_asm)
  have w: "(word_of_int h :: 64 word) = word_of_int (fr_Height (req\<lparr>fr_Height := h\<rparr>))" by simp
  from 1(1) have inv: "iavl_laws T view saved latest" "ev_synced view saved latest s"
    "ev_handling lib S (word_of_int h) view s cs" by blast+
  from ev_handling_fin [OF inv w t f] 1(1) show ?case by blast
next
  case (2 s cs)
  then show ?case using ev_handling_committing by blast
next
  case (3 s c cs s')
  then show ?case using ev_committing_com [of T view saved latest s lib S "word_of_int h" c cs s'] by blast
next
  case (5 s s' s'')
  then show ?case by (rule map_le_trans)
qed simp

subsection \<open>Properties\<close>

lemma events_fin_view:
  assumes "iavl_laws T view saved latest" "ev_synced view saved latest app"
    and "events_FinalizeBlock T lib ids req data app = Ok (resp, app')"
  shows "view (ea_tree app') = view (ea_tree app)"
  using assms(3)
proof (cases rule: events_FinalizeBlock_cases)
  case (other tree)
  then show ?thesis using ev_load_synced [OF assms(1,2) other(1)] by simp
next
  case (create payload tree)
  from create(4) ev_load_synced [OF assms(1,2) create(2)] show ?thesis
    by (cases rule: events_finalize_create_cases) simp_all
qed simp

lemma events_prepared:
  assumes "iavl_laws T view saved latest"
    and "events_FinalizeBlock T lib ids req data app = Ok (resp, app')" "fb_CommitFunc resp = Some c"
  shows "\<exists>payload signer r i. json_Unmarshal SignedPayload_of_json data = Ok payload
    \<and> id_entry view ids (sp_Principal payload) = Some signer
    \<and> ValidateSignature lib payload (id_PublicKey signer) = Ok True
    \<and> json_Unmarshal (CreateRequest_of_json lib) (pl_Data (sp_Payload payload)) = Ok r
    \<and> NewEventHash lib (word_of_int (fr_Height req)) (sp_Principal payload) (sc_Event (cr_Event r)) = Ok i
    \<and> TxHash_String i \<notin> set (ea_creating app)
    \<and> c = CommitEvent \<lparr>em_ScrubbedEvent = cr_Event r, em_Metadata = \<lparr>md_EventId = i, ReceivedTime = fr_Time req,
         md_Principal = sp_Principal payload\<rparr>\<rparr>"
  using assms(2)
proof (cases rule: events_FinalizeBlock_cases)
  case (create payload tree)
  obtain signer where s: "json_Unmarshal SignedPayload_of_json data = Ok payload"
    "id_Get T ids (sp_Principal payload) = Ok signer" "ValidateSignature lib payload (id_PublicKey signer) = Ok True"
    using events_decode_Inr [OF create(1)] by blast
  from create(4) show ?thesis
  proof (cases rule: events_finalize_create_cases)
    case (commit r i)
    with s id_repo.Get_entry [OF assms(1) s(2)] assms(3) show ?thesis
      by (intro exI [of _ payload] exI [of _ signer] exI [of _ r] exI [of _ i]) (simp add: create_event_def)
  qed (use assms(3) in auto)
qed (use assms(3) in auto)

text \<open>
  An event is prepared for storage only when the request decodes, its principal is registered, the
  signature validates under the registered key, and the same event has not been prepared in this
  block; its identifier is the hash of the block height, the principal and the event, its time is
  the block's time and its principal is the signer.
\<close>

lemma create_authorised:
  assumes "iavl_laws T view saved latest"
    and "events_FinalizeBlock T lib ids req data app = Ok (resp, app')" "fb_CommitFunc resp = Some c"
  shows "\<exists>payload signer r i. json_Unmarshal SignedPayload_of_json data = Ok payload
    \<and> id_entry view ids (sp_Principal payload) = Some signer
    \<and> ValidateSignature lib payload (id_PublicKey signer) = Ok True
    \<and> json_Unmarshal (CreateRequest_of_json lib) (pl_Data (sp_Payload payload)) = Ok r
    \<and> NewEventHash lib (word_of_int (fr_Height req)) (sp_Principal payload) (sc_Event (cr_Event r)) = Ok i
    \<and> TxHash_String i \<notin> set (ea_creating app)
    \<and> c = CommitEvent \<lparr>em_ScrubbedEvent = cr_Event r, em_Metadata = \<lparr>md_EventId = i, ReceivedTime = fr_Time req,
         md_Principal = sp_Principal payload\<rparr>\<rparr>"
  by (rule events_prepared [OF assms])

lemma events_commit_readable:
  assumes "iavl_laws T view saved latest" "iavl_total T" "uuid_laws lib" "Event_wf (sc_Event (em_ScrubbedEvent e))"
    and "events_commit T lib (CommitEvent e) app = Ok app'"
  shows "GetByEventId T lib (ea_tree app') (md_EventId (em_Metadata e)) = Ok e
    \<and> (\<forall>k. k \<noteq> md_EventId (em_Metadata e) \<longrightarrow> GetByEventId T lib (ea_tree app') k = GetByEventId T lib (ea_tree app) k)"
proof -
  have v: "view (ea_tree app') = (view (ea_tree app))(md_EventId (em_Metadata e) \<mapsto> EventWithMetadata_json lib e)"
    using events_commit_event [OF assms(1,5)] by blast
  have get: "iv_Get T t k = Ok (view t k)" for t k
    using iavl_totalD(1) [OF assms(2)] iavl_lawsD(1) [OF assms(1)] by metis
  show ?thesis
    using EventWithMetadata_json_roundtrip [OF assms(3,4)] by (simp add: GetByEventId_def get v)
qed

text \<open>On storage that does not fail, a signed create request of a registered principal is accepted.\<close>

lemma events_create_accepted:
  assumes "iavl_laws T view saved latest" "iavl_total T"
    and "json_Unmarshal SignedPayload_of_json data = Ok payload" "pl_Type (sp_Payload payload) = RequestTypeCreate"
    and "id_entry view ids (sp_Principal payload) = Some d" "ValidateSignature lib payload (id_PublicKey d) = Ok True"
    and "json_Unmarshal (CreateRequest_of_json lib) (pl_Data (sp_Payload payload)) = Ok r"
    and "i = sha256 lib (event_text lib (word_of_int (fr_Height req)) (sp_Principal payload) (sc_Event (cr_Event r)))"
    and "TxHash_String i \<notin> set (ea_creating app)"
  shows "\<exists>res app'. events_FinalizeBlock T lib ids req data app = Ok (res, app') \<and> tr_Code (fb_TxResult res) = CodeOk
    \<and> fb_CommitFunc res = Some (CommitEvent (create_event req payload r i))"
proof -
  obtain v where "iv_Get T ids (principal_key (sp_Principal payload)) = Ok v" using iavl_totalD(1) [OF assms(2)] by blast
  then have "id_Get T ids (sp_Principal payload) = Ok d"
    using iavl_lawsD(1) [OF assms(1)] assms(5)
    by (fastforce simp: id_Get_def id_entry_def split: option.split_asm res.split_asm)
  then have dec: "events_decode T lib ids data = Ok (Inr payload)" using assms(3,6) by (simp add: events_decode_def)
  obtain tree h where "ev_LoadVersion T (ea_tree app) (ea_versionNumber app) = Ok tree" "ev_Hash T tree = Ok h"
    using iavl_totalD(4,5) [OF assms(2)] unfolding ev_LoadVersion_def ev_Hash_def by blast
  with dec assms(4,7-) show ?thesis
    by (simp add: events_FinalizeBlock_def events_finalize_create_def NewEventHash_def event_text_def create_event_def Let_def)
qed

lemma events_commit_total:
  assumes "iavl_total T"
  shows "\<exists>app'. events_commit T lib (CommitEvent e) app = Ok app'"
proof -
  obtain r1 h n r2 where "ev_Store T lib (ea_tree app) e = Ok r1" "ev_Save T r1 = Ok (h, n, r2)"
    using iavl_totalD(3,6) [OF assms] unfolding ev_Store_def ev_Save_def by metis
  then show ?thesis by (simp add: events_commit_def Let_def)
qed


subsection \<open>A small block\<close>

lemma hex_digit_not_brace: "n < 16 \<Longrightarrow> hex_digit n \<noteq> CHR ''{''"
  by (auto simp: hex_digit_def char_of_eq_iff take_bit_eq_mod)

lemma demo_lib_uuid_laws: "uuid_laws demo_lib"
proof -
  have "\<not> HasPrefix (hex_EncodeToString u @ t) ''{''" if len: "length u = 16" for u t
  proof -
    obtain b bs where "u = b # bs" using len by (cases u) auto
    moreover have "unat b div 16 < 16" using unat_word_bounds(1) [of b] by simp
    ultimately show ?thesis using hex_digit_not_brace by simp
  qed
  then show ?thesis
    by (auto simp: uuid_laws_def demo_lib_def plain_char_def json_escape_char_def Let_def split: if_split_asm)
qed

definition demo_event :: Event where
  "demo_event = \<lparr>ev_System = \<lparr>sy_Provider = \<lparr>pr_Name = Some ''p'', pr_Guid = None, pr_EventSourceName = None\<rparr>,
     sy_EventId = 4624, sy_TimeCreated = \<lparr>SystemTime = 0\<rparr>, sy_EventRecordId = 7,
     sy_Correlation = \<lparr>ActivityId = None\<rparr>, sy_Execution = \<lparr>ProcessId = Some 4, ThreadId = None\<rparr>,
     sy_Channel = ''Security'', sy_Computer = ''pc''\<rparr>\<rparr>"

definition demo_create :: json where
  "demo_create = demo_signed RequestTypeCreate (JObj [(''event'', JObj [(''offchain_hash'', JStr ''00''),
     (''event'', JObj [(''system'', JObj [(''event_id'', JNum ''4624'')])])])])"

definition demo_block :: RequestFinalizeBlock where
  "demo_block = \<lparr>fr_Txs = [], fr_Misbehavior = [], fr_Height = 5, fr_Time = 1000\<rparr>"

definition demo_events :: "mem_tree EventsApp" where
  "demo_events = \<lparr>ea_tree = mem_empty, ea_versionNumber = 0, ea_creating = []\<rparr>"

lemma demo_create_eval:
  "(case events_FinalizeBlock mem_iavl demo_lib (ia_tree demo_identities) demo_block (Some demo_create) demo_events of
      Ok (r, a) \<Rightarrow> fb_CommitFunc r \<noteq> None | _ \<Rightarrow> False)"
  by code_simp


end
