(* ===== verification/RetentionApp.thy ===== *)
theory RetentionApp
  imports IdentityApp
begin

section \<open>The retention policy application (wineventchain/pkg/retentionpolicy/app.go)\<close>

text \<open>
  The application that stores the chain's retention policy. The structure hash of
  github.com/mitchellh/hashstructure is a parameter \<open>hs\<close>. The properties: only an administrator's
  validated policy is accepted, and only once; and which policies survive a restart.
\<close>

record 'd RetentionPolicyApp =
  ra_db :: 'd
  ra_policy :: "StoredPolicy option"
  ra_txPolicy :: "StoredPolicy option"

definition dbKey :: string where "dbKey = ''policy''"
definition retention_AppName :: string where "retention_AppName = ''retention_policy''"
definition RequestTypeSetPolicy :: string where "RequestTypeSetPolicy = ''set_policy''"

definition loadPolicy :: "'d dbm \<Rightarrow> extlib \<Rightarrow> 'd RetentionPolicyApp \<Rightarrow> 'd RetentionPolicyApp res" where
  "loadPolicy D lib app = bind_res (db_Get D (ra_db app) (bz dbKey)) (\<lambda>data.
     case data of None \<Rightarrow> Ok app
     | Some j \<Rightarrow> bind_res (StoredPolicy_of_json lib j) (\<lambda>policy. Ok (app\<lparr>ra_policy := Some policy\<rparr>)))"

definition NewRetentionPolicyApp :: "'d dbm \<Rightarrow> extlib \<Rightarrow> 'd \<Rightarrow> 'd RetentionPolicyApp res" where
  "NewRetentionPolicyApp D lib db = loadPolicy D lib \<lparr>ra_db = db, ra_policy = None, ra_txPolicy = None\<rparr>"

definition retention_appHash :: "(StoredPolicy option \<Rightarrow> 64 word res) \<Rightarrow> 'd RetentionPolicyApp \<Rightarrow> bytes res" where
  "retention_appHash hs app = bind_res (hs (ra_policy app)) (\<lambda>appHash. Ok (PutUint64 appHash))"

definition retention_Info :: "(StoredPolicy option \<Rightarrow> 64 word res) \<Rightarrow> 'd RetentionPolicyApp \<Rightarrow> (ErrorResponse + json) res" where
  "retention_Info hs app = on_err (retention_appHash hs app)
     (\<lambda>e. Ok (Inl (NewErrorResponse CodeUnknownError mux_Codespace (Some e))))
     (\<lambda>appHash. Ok (Inr (JObj [(''app_hash'', JStr (hex_EncodeToString appHash)), (''is_set'', JBool (ra_policy app \<noteq> None))])))"

definition retention_InitChain :: "(StoredPolicy option \<Rightarrow> 64 word res) \<Rightarrow> 'd RetentionPolicyApp \<Rightarrow> bytes res" where
  "retention_InitChain hs app = on_err (retention_appHash hs app) (\<lambda>_. Panic) Ok"

definition retention_decode :: "'t iavl \<Rightarrow> extlib \<Rightarrow> 't \<Rightarrow> json option \<Rightarrow> (ErrorResponse + (SignedPayload \<times> IdentityData)) res" where
  "retention_decode T lib ids data =
     on_err (json_Unmarshal SignedPayload_of_json data)
       (\<lambda>e. Ok (Inl (NewErrorResponse CodeEncodingError mux_Codespace (Some e))))
       (\<lambda>payload.
         on_err (id_Get T ids (sp_Principal payload))
           (\<lambda>e. Ok (Inl (NewErrorResponse CodeUnknownError mux_Codespace (Some e))))
           (\<lambda>requester.
             on_err (ValidateSignature lib payload (id_PublicKey requester))
               (\<lambda>e. Ok (Inl (NewErrorResponse CodeUnknownError mux_Codespace (Some e))))
               (\<lambda>valid.
                 if \<not> valid then Ok (Inl (NewErrorResponse rpc_CodeInvalidSignature rpc_Codespace None))
                 else Ok (Inr (payload, requester)))))"

definition retention_CheckTx :: "'t iavl \<Rightarrow> extlib \<Rightarrow> 't \<Rightarrow> 'd RetentionPolicyApp \<Rightarrow> json option \<Rightarrow> ResponseCheckTx res" where
  "retention_CheckTx T lib ids app data =
     on_err (retention_decode T lib ids data) (\<lambda>_. Panic) (\<lambda>dec. case dec of
       Inl e \<Rightarrow> Ok (IntoCheckTxResponse e)
     | Inr (payload, requester) \<Rightarrow>
         if id_Role requester \<noteq> RoleAdmin
         then Ok (ck_error retention_CodeUnauthorized retention_Codespace
                (Some (OtherError ''only principals with the admin role can set the retention policy'')))
         else if ra_policy app \<noteq> None \<or> ra_txPolicy app \<noteq> None
         then Ok (ck_error CodePolicyAlreadySet retention_Codespace (Some (OtherError ''retention policy already set'')))
         else if pl_Type (sp_Payload payload) = RequestTypeSetPolicy then
           on_err (json_Unmarshal (SetPolicyRequest_of_json lib) (pl_Data (sp_Payload payload)))
             (\<lambda>e. Ok (ck_error CodeEncodingError mux_Codespace (Some e)))
             (\<lambda>request.
               on_err (RetentionPolicy_Validate (sr_Policy request))
                 (\<lambda>e. Ok (ck_error CodeInvalidPolicy retention_Codespace (Some e)))
                 (\<lambda>_. Ok \<lparr>ck_Code = CodeOk, ck_Log = [], ck_Codespace = retention_Codespace\<rparr>))
         else Ok (ck_error retention_CodeUnknownRequestType retention_Codespace None))"

text \<open>
  After computing the application hash the code tests \<^verbatim>\<open>errRes\<close>, which is nil there, instead of
  \<^verbatim>\<open>err\<close>: a failing hash is used as the nil hash.
\<close>

definition retention_FinalizeBlock ::
    "'t iavl \<Rightarrow> extlib \<Rightarrow> (StoredPolicy option \<Rightarrow> 64 word res) \<Rightarrow> 't \<Rightarrow> RequestFinalizeBlock \<Rightarrow> json option
     \<Rightarrow> 'd RetentionPolicyApp \<Rightarrow> (FinalizeBlockResponse \<times> 'd RetentionPolicyApp) res" where
  "retention_FinalizeBlock T lib hs ids req data app =
     on_err (retention_decode T lib ids data) (\<lambda>_. Panic) (\<lambda>dec. case dec of
       Inl e \<Rightarrow> Ok (IntoFinalizeBlockResponse e, app)
     | Inr (payload, requester) \<Rightarrow>
         if id_Role requester \<noteq> RoleAdmin
         then Ok (fb_error retention_CodeUnauthorized retention_Codespace
                (Some (OtherError ''only principals with the admin role can set the retention policy'')), app)
         else if ra_policy app \<noteq> None \<or> ra_txPolicy app \<noteq> None
         then Ok (fb_error CodePolicyAlreadySet retention_Codespace
                (Some (OtherError ''retention policy already set'')), app)
         else
           on_err (on_err (retention_appHash hs app) (\<lambda>_. Ok []) Ok) (\<lambda>_. Panic) (\<lambda>appHash.
           if pl_Type (sp_Payload payload) = RequestTypeSetPolicy then
             on_err (json_Unmarshal (SetPolicyRequest_of_json lib) (pl_Data (sp_Payload payload)))
               (\<lambda>e. Ok (fb_error CodeEncodingError mux_Codespace (Some e), app))
               (\<lambda>request.
                 on_err (RetentionPolicy_Validate (sr_Policy request))
                   (\<lambda>e. Ok (fb_error CodeInvalidPolicy retention_Codespace (Some e), app))
                   (\<lambda>_.
                     let policy = \<lparr>so_Policy = sr_Policy request, so_Author = sp_Principal payload,
                                   so_AppliedAt = fr_Time req\<rparr>;
                         app = app\<lparr>ra_txPolicy := Some policy\<rparr>
                     in Ok (\<lparr>fb_TxResult = \<lparr>tr_Code = CodeOk, tr_Data = Some (JObj []), tr_Log = ''policy set'',
                                tr_Events = [utils_Event ''policy_set'' []], tr_Codespace = retention_Codespace\<rparr>,
                              fb_AppHash = appHash, fb_CommitFunc = Some (CommitPolicy policy)\<rparr>, app)))
           else Ok (fb_error retention_CodeUnknownRequestType retention_Codespace None, app)))"

definition retention_commit :: "'d dbm \<Rightarrow> commit \<Rightarrow> 'd RetentionPolicyApp \<Rightarrow> 'd RetentionPolicyApp res" where
  "retention_commit D c app = (case c of
     CommitPolicy policy \<Rightarrow>
       (let app = app\<lparr>ra_policy := Some policy, ra_txPolicy := None\<rparr>
        in bind_res (db_Set D (ra_db app) (bz dbKey) (StoredPolicy_json policy)) (\<lambda>db. Ok (app\<lparr>ra_db := db\<rparr>)))
   | _ \<Rightarrow> Ok app)"

definition retention_Query :: "'d RetentionPolicyApp \<Rightarrow> RequestQuery \<Rightarrow> ResponseQuery res" where
  "retention_Query app req =
     (if rqq_Prove req
      then Ok (q_error CodeUnsupportedRequest retention_Codespace (Some (OtherError ''proof operation not valid for RetentionPolicyApp, as there is no merkle tree to provide a proof for'')))
      else case ra_policy app of
        None \<Rightarrow> Ok (q_error CodePolicyNotSet retention_Codespace None)
      | Some policy \<Rightarrow> Ok \<lparr>rq_Code = CodeOk, rq_Log = ''policy found'', rq_Index = 0, rq_Key = [],
          rq_Value = Some (StoredPolicy_json policy), rq_ProofOps = None, rq_Height = 0,
          rq_Codespace = retention_Codespace\<rparr>)"

subsection \<open>What a handler does\<close>

lemma retention_decode_Inr:
  assumes "retention_decode T lib ids data = Ok (Inr (payload, requester))"
  shows "json_Unmarshal SignedPayload_of_json data = Ok payload \<and> id_Get T ids (sp_Principal payload) = Ok requester
    \<and> ValidateSignature lib payload (id_PublicKey requester) = Ok True"
  using assms by (auto simp: retention_decode_def elim!: on_errE split: if_split_asm)

lemma retention_FinalizeBlock_cases:
  assumes "retention_FinalizeBlock T lib hs ids req data app = Ok (resp, app')"
  obtains (error) "fb_CommitFunc resp = None" "app' = app"
  | (commit) payload requester r where
      "retention_decode T lib ids data = Ok (Inr (payload, requester))" "id_Role requester = RoleAdmin"
      "ra_policy app = None" "ra_txPolicy app = None"
      "json_Unmarshal (SetPolicyRequest_of_json lib) (pl_Data (sp_Payload payload)) = Ok r"
      "RetentionPolicy_Validate (sr_Policy r) = Ok ()"
      "fb_CommitFunc resp = Some (CommitPolicy (NewStoredPolicy (sr_Policy r) (sp_Principal payload) (fr_Time req)))"
      "app' = app\<lparr>ra_txPolicy := Some (NewStoredPolicy (sr_Policy r) (sp_Principal payload) (fr_Time req))\<rparr>"
proof -
  obtain d where d: "retention_decode T lib ids data = Ok d"
    using assms by (cases "retention_decode T lib ids data") (auto simp: retention_FinalizeBlock_def)
  show ?thesis
  proof (cases "fb_CommitFunc resp = None \<and> app' = app")
    case True
    then show ?thesis by (intro error) simp_all
  next
    case False
    obtain payload requester where p: "d = Inr (payload, requester)"
      using assms d False by (cases d) (auto simp: retention_FinalizeBlock_def)
    have a: "id_Role requester = RoleAdmin" "ra_policy app = None" "ra_txPolicy app = None"
      using assms d p False by (auto simp: retention_FinalizeBlock_def split: if_split_asm)
    have h: "retention_appHash hs app \<noteq> Panic" using assms d p a by (auto simp: retention_FinalizeBlock_def)
    obtain r where r: "json_Unmarshal (SetPolicyRequest_of_json lib) (pl_Data (sp_Payload payload)) = Ok r"
      using assms d p a h False by (cases "retention_appHash hs app")
        (auto simp: retention_FinalizeBlock_def elim!: on_errE split: if_split_asm)
    have v: "RetentionPolicy_Validate (sr_Policy r) = Ok ()"
      using assms d p a h r False by (cases "retention_appHash hs app"; cases "RetentionPolicy_Validate (sr_Policy r)")
        (auto simp: retention_FinalizeBlock_def split: if_split_asm)
    show ?thesis
      using assms d p a h r v False
      by (cases "retention_appHash hs app") (auto simp: retention_FinalizeBlock_def NewStoredPolicy_def Let_def
          split: if_split_asm intro!: commit [of payload requester r])
  qed
qed

subsection \<open>The invariant of a block\<close>

fun commit_policies :: "commit list \<Rightarrow> StoredPolicy list" where
  "commit_policies [] = []"
| "commit_policies (CommitPolicy p # cs) = p # commit_policies cs"
| "commit_policies (_ # cs) = commit_policies cs"

lemma commit_policies_append [simp]: "commit_policies (cs @ ds) = commit_policies cs @ commit_policies ds"
  by (induction cs rule: commit_policies.induct) simp_all

text \<open>
  At most one policy waits for the commit phase, and only while none is stored; during the handling
  of transactions it is also kept in the transaction state. A stored policy is valid.
\<close>

definition ret_committing :: "'d RetentionPolicyApp \<Rightarrow> commit list \<Rightarrow> bool" where
  "ret_committing app cs \<longleftrightarrow> length (commit_policies cs) \<le> 1 \<and> (commit_policies cs \<noteq> [] \<longrightarrow> ra_policy app = None)
     \<and> (\<forall>p \<in> set (commit_policies cs). RetentionPolicy_Validate (so_Policy p) = Ok ())
     \<and> (\<forall>p. ra_policy app = Some p \<longrightarrow> RetentionPolicy_Validate (so_Policy p) = Ok ())"

definition ret_handling :: "'d RetentionPolicyApp \<Rightarrow> commit list \<Rightarrow> bool" where
  "ret_handling app cs \<longleftrightarrow> ret_committing app cs \<and> (commit_policies cs \<noteq> [] \<longrightarrow> ra_txPolicy app \<noteq> None)"

definition policy_preserved :: "'d RetentionPolicyApp \<Rightarrow> 'd RetentionPolicyApp \<Rightarrow> bool" where
  "policy_preserved app app' \<longleftrightarrow> ra_policy app \<noteq> None \<longrightarrow> ra_policy app' = ra_policy app"

lemma ret_handling_fin:
  assumes h: "ret_handling app cs" and f: "retention_FinalizeBlock T lib hs ids req data app = Ok (resp, app')"
  shows "ret_handling app' (cs @ commit_of resp) \<and> policy_preserved app app'"
  using f
proof (cases rule: retention_FinalizeBlock_cases)
  case error
  then show ?thesis using h by (simp add: commit_of_def policy_preserved_def)
next
  case (commit payload requester r)
  with h have "commit_policies cs = []" by (auto simp: ret_handling_def)
  with h commit show ?thesis
    by (simp add: commit_of_def policy_preserved_def ret_handling_def ret_committing_def NewStoredPolicy_def)
qed

lemma ret_committing_com:
  assumes h: "ret_committing app (c # cs)" and f: "retention_commit D c app = Ok app'"
  shows "ret_committing app' cs \<and> policy_preserved app app'"
proof (cases "\<exists>p. c = CommitPolicy p")
  case True
  then show ?thesis using h f
    by (auto simp: retention_commit_def ret_committing_def policy_preserved_def Let_def)
next
  case False
  then have "app' = app" "commit_policies (c # cs) = commit_policies cs"
    using f by (cases c; simp add: retention_commit_def)+
  then show ?thesis using h by (simp add: ret_committing_def policy_preserved_def)
qed

interpretation retention_phases: repeatable "\<lambda>(ids, req, data). retention_FinalizeBlock T lib hs ids req data"
    "retention_commit D" ret_handling ret_committing policy_preserved
proof (unfold_locales, goal_cases)
  case (1 s cs r resp s')
  then show ?case by (cases r) (auto dest: ret_handling_fin)
next
  case (2 s cs)
  then show ?case by (simp add: ret_handling_def)
next
  case (3 s c cs s')
  then show ?case using ret_committing_com by blast
next
  case (6 s)
  then show ?case by (simp add: ret_handling_def)
qed (simp_all add: policy_preserved_def)

subsection \<open>Properties\<close>

text \<open>
  C24. A policy is prepared only for a request that decodes and whose signature validates under the key
  of a registered administrator, when no policy is stored or waiting; the policy satisfies
  \<^verbatim>\<open>Validate\<close>, its author is the signer and its time is the block's time.
\<close>

theorem set_policy_authorised:
  assumes "iavl_laws T view saved latest"
    and "retention_FinalizeBlock T lib hs ids req data app = Ok (resp, app')" "fb_CommitFunc resp = Some c"
  shows "\<exists>payload admin p. json_Unmarshal SignedPayload_of_json data = Ok payload
    \<and> id_entry view ids (sp_Principal payload) = Some admin \<and> IsAdmin admin
    \<and> ValidateSignature lib payload (id_PublicKey admin) = Ok True
    \<and> ra_policy app = None \<and> ra_txPolicy app = None
    \<and> c = CommitPolicy p \<and> RetentionPolicy_Validate (so_Policy p) = Ok ()
    \<and> so_Author p = sp_Principal payload \<and> so_AppliedAt p = fr_Time req"
  using assms(2)
proof (cases rule: retention_FinalizeBlock_cases)
  case (commit payload requester r)
  note d = retention_decode_Inr [OF commit(1)]
  have "id_entry view ids (sp_Principal payload) = Some requester"
    using id_repo.Get_entry [OF assms(1)] d by blast
  with d commit assms(3) show ?thesis
    by (intro exI [of _ payload] exI [of _ requester] exI [of _ "NewStoredPolicy (sr_Policy r) (sp_Principal payload) (fr_Time req)"])
      (simp add: IsAdmin_def NewStoredPolicy_def)
qed (use assms(3) in simp)

text \<open>
  C25. The policy is written once: over any sequence of blocks, a policy that is set stays the same
  policy, and a policy that is ever set has passed \<^verbatim>\<open>Validate\<close>.
\<close>

theorem policy_write_once:
  assumes "foldl (\<lambda>r b. bind_res r (run_block (\<lambda>(ids, req, data). retention_FinalizeBlock T lib hs ids req data)
      (retention_commit D) b)) (Ok app) blocks = Ok app'"
    and "\<And>p. ra_policy app = Some p \<Longrightarrow> RetentionPolicy_Validate (so_Policy p) = Ok ()"
  shows "(ra_policy app \<noteq> None \<longrightarrow> ra_policy app' = ra_policy app)
    \<and> (\<forall>p. ra_policy app' = Some p \<longrightarrow> RetentionPolicy_Validate (so_Policy p) = Ok ())"
proof -
  have "ret_handling app []" using assms(2) by (simp add: ret_handling_def ret_committing_def)
  from retention_phases.run_blocks_inv [OF this assms(1)]
  show ?thesis by (simp add: policy_preserved_def ret_handling_def ret_committing_def)
qed

text \<open>
  C26. After a policy has been committed, a restarted node loads exactly that policy when every
  retention period can be printed and read back (\<^verbatim>\<open>duration_printable\<close>); otherwise, for instance with a
  period of 1.5 seconds, which \<^verbatim>\<open>Validate\<close> accepts, the application cannot be created again.
\<close>

theorem policy_restart:
  assumes "db_laws D content" "db_Get D (ra_db app') (bz dbKey) = Ok v"
    and "retention_commit D (CommitPolicy p) app = Ok app'"
    and "\<forall>f \<in> set (rp_Filters (so_Policy p)). Filter_ints f"
  shows "map_res ra_policy (NewRetentionPolicyApp D lib (ra_db app')) =
    (if \<forall>f \<in> set (rp_Filters (so_Policy p)). duration_printable (pa_RetentionPeriod (fi_PolicyAction f))
     then Ok (Some p) else Err (OtherError ''invalid duration''))"
proof -
  obtain db where db: "db_Set D (ra_db app) (bz dbKey) (StoredPolicy_json p) = Ok db" "ra_db app' = db"
    using assms(3) by (auto simp: retention_commit_def Let_def)
  have "content db (bz dbKey) = Some (StoredPolicy_json p)" using assms(1) db(1) by (auto simp: db_laws_def)
  moreover have "v = content db (bz dbKey)" using assms(1,2) db(2) by (auto simp: db_laws_def)
  ultimately show ?thesis
    using assms(2) db(2) StoredPolicy_json_decode [OF assms(4)]
    by (simp add: NewRetentionPolicyApp_def loadPolicy_def)
qed

subsection \<open>A small block\<close>

definition demo_set_policy :: json where
  "demo_set_policy = demo_signed RequestTypeSetPolicy (JObj [(''policy'', JObj [(''filters'', JArr
     [JObj [(''policy'', JObj [(''type'', JStr ''timestamp''), (''retention_period'', JStr ''2h'')])]])])])"

definition demo_retention :: "(bytes \<times> json) list RetentionPolicyApp" where
  "demo_retention = \<lparr>ra_db = [], ra_policy = None, ra_txPolicy = None\<rparr>"

definition demo_stored :: "int \<Rightarrow> StoredPolicy" where
  "demo_stored d = \<lparr>so_Policy = \<lparr>rp_Filters = [\<lparr>fi_Label = [],
     fi_Match = \<lparr>ma_Channel = None, ma_EventId = None, ma_ProviderGuid = None\<rparr>,
     fi_PolicyAction = \<lparr>pa_Type = ''timestamp'', pa_RuleGroup = [], pa_RetentionPeriod = d, pa_Volume = 0\<rparr>\<rparr>]\<rparr>,
     so_Author = ''root'', so_AppliedAt = 1000\<rparr>"

lemma demo_set_policy_eval:
  "(case retention_FinalizeBlock mem_iavl demo_lib (\<lambda>_. Ok 0) (ia_tree demo_identities)
       \<lparr>fr_Txs = [], fr_Misbehavior = [], fr_Height = 5, fr_Time = 1000\<rparr> (Some demo_set_policy) demo_retention of
      Ok (r, a) \<Rightarrow> fb_CommitFunc r = Some (CommitPolicy (demo_stored 7200000000000)) | _ \<Rightarrow> False)"
  by code_simp

lemma demo_retention_run:
  "map_res ra_policy (foldl (\<lambda>r b. bind_res r (run_block (\<lambda>(ids, req, data). retention_FinalizeBlock mem_iavl demo_lib (\<lambda>_. Ok 0) ids req data)
      (retention_commit mem_db) b)) (Ok demo_retention)
      [[(ia_tree demo_identities, \<lparr>fr_Txs = [], fr_Misbehavior = [], fr_Height = 5, fr_Time = 1000\<rparr>, Some demo_set_policy)], []])
   = Ok (Some (demo_stored 7200000000000))"
  using demo_set_policy_eval
  by (auto simp: run_block_def retention_commit_def mem_db_def Let_def split: res.splits)

theorem set_policy_authorised_witness:
  "\<exists>payload admin. json_Unmarshal SignedPayload_of_json (Some demo_set_policy) = Ok payload
    \<and> id_entry mem_view (ia_tree demo_identities) (sp_Principal payload) = Some admin \<and> IsAdmin admin"
proof -
  obtain resp app' c where
    r: "retention_FinalizeBlock mem_iavl demo_lib (\<lambda>_. Ok 0) (ia_tree demo_identities)
       \<lparr>fr_Txs = [], fr_Misbehavior = [], fr_Height = 5, fr_Time = 1000\<rparr> (Some demo_set_policy) demo_retention = Ok (resp, app')"
    and c: "fb_CommitFunc resp = Some c"
    using demo_set_policy_eval by (auto split: res.splits)
  from set_policy_authorised [OF mem_iavl_laws r c] show ?thesis by blast
qed

theorem policy_write_once_witness:
  "RetentionPolicy_Validate (so_Policy (demo_stored 7200000000000)) = Ok ()"
proof -
  obtain app' where r: "foldl (\<lambda>r b. bind_res r (run_block (\<lambda>(ids, req, data). retention_FinalizeBlock mem_iavl demo_lib (\<lambda>_. Ok 0) ids req data)
      (retention_commit mem_db) b)) (Ok demo_retention)
      [[(ia_tree demo_identities, \<lparr>fr_Txs = [], fr_Misbehavior = [], fr_Height = 5, fr_Time = 1000\<rparr>, Some demo_set_policy)], []] = Ok app'"
    and p: "ra_policy app' = Some (demo_stored 7200000000000)"
    by (rule exE [OF demo_retention_run [unfolded map_res_eq_Ok]]) (elim conjE, rule that, assumption, erule sym)
  have "\<And>p. ra_policy demo_retention = Some p \<Longrightarrow> RetentionPolicy_Validate (so_Policy p) = Ok ()"
    by (simp add: demo_retention_def)
  from policy_write_once [OF r this] p show ?thesis by simp
qed

theorem policy_restart_witness:
  "bind_res (retention_commit mem_db (CommitPolicy (demo_stored 7200000000000)) demo_retention)
      (\<lambda>app'. map_res ra_policy (NewRetentionPolicyApp mem_db demo_lib (ra_db app'))) = Ok (Some (demo_stored 7200000000000))
   \<and> bind_res (retention_commit mem_db (CommitPolicy (demo_stored 1500000000)) demo_retention)
      (\<lambda>app'. map_res ra_policy (NewRetentionPolicyApp mem_db demo_lib (ra_db app'))) = Err (OtherError ''invalid duration'')
   \<and> RetentionPolicy_Validate (so_Policy (demo_stored 1500000000)) = Ok ()"
proof -
  have c: "retention_commit mem_db (CommitPolicy (demo_stored d)) demo_retention =
      Ok \<lparr>ra_db = [(bz dbKey, StoredPolicy_json (demo_stored d))], ra_policy = Some (demo_stored d), ra_txPolicy = None\<rparr>" for d
    by (simp add: retention_commit_def mem_db_def demo_retention_def)
  have i: "\<forall>f \<in> set (rp_Filters (so_Policy (demo_stored d))). Filter_ints f" if "int64 d" for d
    using that by (simp add: demo_stored_def Filter_ints_def)
  have g: "\<exists>v. db_Get mem_db db (bz dbKey) = Ok v" for db by (simp add: mem_db_def)
  have d: "duration_printable 7200000000000" "\<not> duration_printable 1500000000" by code_simp+
  obtain v w where v: "db_Get mem_db (ra_db \<lparr>ra_db = [(bz dbKey, StoredPolicy_json (demo_stored 7200000000000))],
        ra_policy = Some (demo_stored 7200000000000), ra_txPolicy = None\<rparr>) (bz dbKey) = Ok v"
    and w: "db_Get mem_db (ra_db \<lparr>ra_db = [(bz dbKey, StoredPolicy_json (demo_stored 1500000000))],
        ra_policy = Some (demo_stored 1500000000), ra_txPolicy = None\<rparr>) (bz dbKey) = Ok w"
    using g by blast
  have "RetentionPolicy_Validate (so_Policy (demo_stored 1500000000)) = Ok ()" by code_simp
  with policy_restart [OF mem_db_laws v c i, of demo_lib] policy_restart [OF mem_db_laws w c i, of demo_lib] c d
  show ?thesis by (simp add: demo_stored_def int64_def)
qed

end
