(* ===== verification/Multiplexer.thy ===== *)
theory Multiplexer
  imports EventsApp RetentionApp "HOL-Library.List_Lexorder" "HOL-Library.Char_ord" "HOL-Library.AList"
begin

section \<open>The multiplexer (wineventchain/pkg/multiplexer: abci.go, state.go, validator.go)\<close>

text \<open>
  The ABCI application of a node: it routes every transaction to one of the three applications that
  \<^verbatim>\<open>main\<close> passes to \<^verbatim>\<open>NewApplication\<close>, collects their commit functions, combines their hashes and stores
  its own state. The applications share the tree of the identity repository. The theorems are about
  whole blocks and chains of blocks: what is stored stays stored, what a restarted node loads, the
  application hash, and the treatment of validator transactions and misbehaviour.
\<close>

subsection \<open>validator.go\<close>

type_synonym Address = string

record Validator =
  va_Address :: Address
  va_PubKey :: bytes

type_synonym ValidatorMap = "(Address \<times> Validator) list"

definition NewValidatorMap :: ValidatorMap where "NewValidatorMap = []"

definition ValidatorMap_Add :: "ValidatorMap \<Rightarrow> Validator \<Rightarrow> ValidatorMap" where
  "ValidatorMap_Add v val = AList.update (va_Address val) val v"

definition ValidatorMap_Get :: "ValidatorMap \<Rightarrow> Address \<Rightarrow> Validator option" where
  "ValidatorMap_Get v address = map_of v address"

subsection \<open>state.go\<close>

text \<open>
  \<^verbatim>\<open>AppHashes\<close> is a Go map: an association list with distinct keys, whose order stands for the
  unspecified order of iteration. \<^verbatim>\<open>encoding/json\<close> prints its keys sorted; the nil hash is \<^verbatim>\<open>null\<close>.
\<close>

record State =
  st_Size :: int
  st_Height :: int
  st_AppHashes :: "(string \<times> bytes) list"

definition Keys :: "('k \<times> 'v) list \<Rightarrow> 'k list" where
  "Keys m = map fst m"

definition map_get :: "(string \<times> bytes) list \<Rightarrow> string \<Rightarrow> bytes" where
  "map_get m k = (case map_of m k of None \<Rightarrow> [] | Some v \<Rightarrow> v)"

definition combined_hashes :: "(string \<times> bytes) list \<Rightarrow> bytes" where
  "combined_hashes m = concat (map (map_get m) (sort (Keys m)))"

definition GenerateAppHash :: "extlib \<Rightarrow> State \<Rightarrow> bytes" where
  "GenerateAppHash lib s = sha256 lib (combined_hashes (st_AppHashes s))"

definition stateKey :: string where "stateKey = ''muxer_state''"

definition hash_json :: "bytes \<Rightarrow> json" where
  "hash_json h = (if h = [] then JNull else JBytes h)"

definition hash_of_json :: "json \<Rightarrow> bytes res" where
  "hash_of_json j = (case j of JNull \<Rightarrow> Ok [] | JBytes b \<Rightarrow> Ok b | _ \<Rightarrow> Err (OtherError ''illegal base64 data''))"

definition State_json :: "State \<Rightarrow> json" where
  "State_json s = JObj [(''size'', jnum (st_Size s)), (''height'', jnum (st_Height s)),
     (''app_hash'', JObj (map (\<lambda>k. (k, hash_json (map_get (st_AppHashes s) k))) (sort (Keys (st_AppHashes s)))))]"

definition entry_of_json :: "string \<times> json \<Rightarrow> (string \<times> bytes) res" where
  "entry_of_json = (\<lambda>(k, j). map_res (Pair k) (hash_of_json j))"

definition AppHashes_of_json :: "json \<Rightarrow> (string \<times> bytes) list res" where
  "AppHashes_of_json j = (case j of
     JNull \<Rightarrow> Ok []
   | JObj fs \<Rightarrow> map_res (\<lambda>es. foldl (\<lambda>m (k, v). AList.update k v m) [] es) (map_res_list entry_of_json fs)
   | _ \<Rightarrow> Err (OtherError ''cannot unmarshal into map''))"

definition State_of_json :: "json \<Rightarrow> State res" where
  "State_of_json j = bind_res (jfields j) (\<lambda>fs.
     bind_res (jint ''size'' fs) (\<lambda>size.
     bind_res (jint ''height'' fs) (\<lambda>height.
     bind_res (case jlookup ''app_hash'' fs of None \<Rightarrow> Ok [] | Some h \<Rightarrow> AppHashes_of_json h) (\<lambda>hashes.
       Ok \<lparr>st_Size = size, st_Height = height, st_AppHashes = hashes\<rparr>))))"

definition Must :: "'a res \<Rightarrow> 'a res" where
  "Must r = on_err r (\<lambda>_. Panic) Ok"

definition loadState :: "'d dbm \<Rightarrow> 'd \<Rightarrow> State res" where
  "loadState D db = bind_res (Must (db_Get D db (bz stateKey))) (\<lambda>stateBytes.
     case stateBytes of
       None \<Rightarrow> Ok \<lparr>st_Size = 0, st_Height = 0, st_AppHashes = []\<rparr>
     | Some j \<Rightarrow> Must (State_of_json j))"

definition saveState :: "'d dbm \<Rightarrow> 'd \<Rightarrow> State \<Rightarrow> 'd res" where
  "saveState D db state = Must (db_Set D db (bz stateKey) (State_json state))"

subsection \<open>abci.go: the application\<close>

text \<open>The libraries the node runs on, gathered in one record, and the state of the whole application.\<close>

record ('t, 'd) env =
  en_T :: "'t iavl"
  en_D :: "'d dbm"
  en_lib :: extlib
  en_ics :: ics23
  en_hs :: "StoredPolicy option \<Rightarrow> 64 word res"
  en_UpdateValidator :: "bytes \<Rightarrow> int \<Rightarrow> string \<Rightarrow> (bytes \<times> int) res"

record ('t, 'd) MultiplexedApplication =
  mx_identity :: "'t IdentityApp"
  mx_events :: "'t EventsApp"
  mx_retention :: "'d RetentionPolicyApp"
  mx_db :: 'd
  mx_state :: State
  mx_commitFuncs :: "commit list"
  mx_RetainBlocks :: int
  mx_validators :: ValidatorMap

record ResponseFinalizeBlock =
  rf_TxResults :: "ExecTxResult list"
  rf_ValidatorUpdates :: "(bytes \<times> int) list"
  rf_AppHash :: bytes

definition AppVersion :: nat where "AppVersion = 1"

record ResponseInfo =
  ri_AppVersion :: nat
  ri_LastBlockHeight :: int
  ri_LastBlockAppHash :: bytes

text \<open>\<^verbatim>\<open>apps\<close> maps the names of the three applications; \<open>lookup_app\<close> is \<^verbatim>\<open>app.apps[name]\<close>.\<close>

datatype subapp = Identity | Events | Retention

fun subapp_Name :: "subapp \<Rightarrow> string" where
  "subapp_Name Identity = identity_AppName"
| "subapp_Name Events = events_AppName"
| "subapp_Name Retention = retention_AppName"

definition lookup_app :: "string \<Rightarrow> subapp option" where
  "lookup_app name = map_of [(identity_AppName, Identity), (events_AppName, Events), (retention_AppName, Retention)] name"

definition NewApplication :: "('t, 'd) env \<Rightarrow> 'd \<Rightarrow> 't IdentityApp \<Rightarrow> 't EventsApp \<Rightarrow> 'd RetentionPolicyApp
    \<Rightarrow> ('t, 'd) MultiplexedApplication res" where
  "NewApplication E db i e r = bind_res (loadState (en_D E) db) (\<lambda>state.
     Ok \<lparr>mx_identity = i, mx_events = e, mx_retention = r, mx_db = db, mx_state = state,
         mx_commitFuncs = [], mx_RetainBlocks = 0, mx_validators = NewValidatorMap\<rparr>)"

definition mux_Info :: "('t, 'd) env \<Rightarrow> ('t, 'd) MultiplexedApplication \<Rightarrow> ResponseInfo" where
  "mux_Info E app = \<lparr>ri_AppVersion = AppVersion, ri_LastBlockHeight = st_Height (mx_state app),
     ri_LastBlockAppHash = GenerateAppHash (en_lib E) (mx_state app)\<rparr>"

definition set_hash :: "string \<Rightarrow> bytes \<Rightarrow> ('t, 'd) MultiplexedApplication \<Rightarrow> ('t, 'd) MultiplexedApplication" where
  "set_hash name h app = app\<lparr>mx_state := (mx_state app)\<lparr>st_AppHashes := AList.update name h (st_AppHashes (mx_state app))\<rparr>\<rparr>"

fun subapp_InitChain :: "('t, 'd) env \<Rightarrow> subapp \<Rightarrow> ('t, 'd) MultiplexedApplication \<Rightarrow> bytes res" where
  "subapp_InitChain E Identity app = identity_InitChain (en_T E) (mx_identity app)"
| "subapp_InitChain E Events app = events_InitChain (en_T E) (mx_events app)"
| "subapp_InitChain E Retention app = retention_InitChain (en_hs E) (mx_retention app)"

fun init_apps :: "('t, 'd) env \<Rightarrow> subapp list \<Rightarrow> ('t, 'd) MultiplexedApplication \<Rightarrow> ('t, 'd) MultiplexedApplication res" where
  "init_apps E [] app = Ok app"
| "init_apps E (s # ss) app = bind_res (subapp_InitChain E s app) (\<lambda>h. init_apps E ss (set_hash (subapp_Name s) h app))"

text \<open>\<open>order\<close> is the order in which the range over the map visits the applications.\<close>

definition mux_InitChain :: "('t, 'd) env \<Rightarrow> subapp list \<Rightarrow> ('t, 'd) MultiplexedApplication
    \<Rightarrow> (bytes \<times> ('t, 'd) MultiplexedApplication) res" where
  "mux_InitChain E order app = bind_res (init_apps E order app) (\<lambda>app.
     Ok (GenerateAppHash (en_lib E) (mx_state app), app))"

definition mux_Query :: "('t, 'd) env \<Rightarrow> RequestQuery \<Rightarrow> ('t, 'd) MultiplexedApplication \<Rightarrow> ResponseQuery res" where
  "mux_Query E req app =
     on_err (json_Unmarshal MuxedRequest_of_json (rqq_Data req))
       (\<lambda>_. Ok (q_error CodeEncodingError mux_Codespace (Some (OtherError ''error decoding request''))))
       (\<lambda>decoded. case lookup_app (mx_App decoded) of
          None \<Rightarrow> Ok (q_error CodeUnknownApp mux_Codespace (Some (OtherError ''unknown app name'')))
        | Some Identity \<Rightarrow> identity_Query (en_T E) (en_ics E) (mx_identity app) req
        | Some Events \<Rightarrow> events_Query (en_T E) (en_ics E) (en_lib E) (mx_events app) req
        | Some Retention \<Rightarrow> retention_Query (mx_retention app) req)"

definition validatorPrefix :: string where "validatorPrefix = ''val:''"

text \<open>
  \<^verbatim>\<open>base64.StdEncoding.Decode\<close> into the nil slice: the first complete quantum of the input is written
  behind the end of the slice, a panic; an incomplete or malformed quantum is an error.
\<close>

definition is_b64 :: "char \<Rightarrow> bool" where
  "is_b64 c \<longleftrightarrow> (let n = of_char c :: nat in 65 \<le> n \<and> n \<le> 90 \<or> 97 \<le> n \<and> n \<le> 122 \<or> 48 \<le> n \<and> n \<le> 57 \<or> n = 43 \<or> n = 47)"

definition is_newline :: "char \<Rightarrow> bool" where
  "is_newline c \<longleftrightarrow> (let n = of_char c :: nat in n = 10 \<or> n = 13)"

fun b64_Decode_nil :: "nat \<Rightarrow> string \<Rightarrow> unit res" where
  "b64_Decode_nil j [] = (if j = 0 then Ok () else Err (OtherError ''illegal base64 data''))"
| "b64_Decode_nil j (c # cs) =
     (if is_b64 c then (if j = 3 then Panic else b64_Decode_nil (Suc j) cs)
      else if is_newline c then b64_Decode_nil j cs
      else if c \<noteq> CHR ''='' then Err (OtherError ''illegal base64 data'')
      else if j < 2 then Err (OtherError ''illegal base64 data'')
      else if j = 2 then
        (case dropWhile is_newline cs of
           [] \<Rightarrow> Err (OtherError ''illegal base64 data'')
         | d # _ \<Rightarrow> if d \<noteq> CHR ''='' then Err (OtherError ''illegal base64 data'') else Panic)
      else Panic)"

definition parseValidatorTx :: "('t, 'd) env \<Rightarrow> string \<Rightarrow> (bytes \<times> int) res" where
  "parseValidatorTx E t =
     (let t = TrimPrefix t validatorPrefix;
          parts = Split (CHR ''!'') t
      in if length parts \<noteq> 3 then Err (OtherError ''invalid validator tx'')
         else
           bind_res (b64_Decode_nil 0 (parts ! 1)) (\<lambda>_.
           bind_res (ParseInt (parts ! 2)) (\<lambda>power.
             if power < 0 then Err (OtherError ''power must be non-negative'')
             else en_UpdateValidator E [] power (parts ! 0))))"

definition tx_Unmarshal :: "tx \<Rightarrow> MuxedRequest res" where
  "tx_Unmarshal t = (case t of TxJson j \<Rightarrow> MuxedRequest_of_json j | TxText _ \<Rightarrow> Err (OtherError ''invalid character''))"

definition mux_CheckTx :: "('t, 'd) env \<Rightarrow> tx \<Rightarrow> ('t, 'd) MultiplexedApplication \<Rightarrow> ResponseCheckTx res" where
  "mux_CheckTx E t app =
     (case t of
        TxText s \<Rightarrow>
          if HasPrefix s validatorPrefix then
            on_err (parseValidatorTx E s)
              (\<lambda>_. Ok (ck_error CodeInvalidValidatorTx mux_Codespace (Some (OtherError ''error parsing validator tx''))))
              (\<lambda>_. Ok \<lparr>ck_Code = CodeOk, ck_Log = [], ck_Codespace = []\<rparr>)
          else Ok (ck_error CodeEncodingError mux_Codespace (Some (OtherError ''error decoding request'')))
      | TxJson j \<Rightarrow>
          on_err (MuxedRequest_of_json j)
            (\<lambda>_. Ok (ck_error CodeEncodingError mux_Codespace (Some (OtherError ''error decoding request''))))
            (\<lambda>decoded. case lookup_app (mx_App decoded) of
               None \<Rightarrow> Ok (ck_error CodeUnknownApp mux_Codespace (Some (OtherError ''unknown app name'')))
             | Some Identity \<Rightarrow> identity_CheckTx (en_T E) (en_lib E) (mx_identity app) (mx_Data decoded)
             | Some Events \<Rightarrow> events_CheckTx (en_T E) (en_lib E) (ia_tree (mx_identity app)) (mx_Data decoded)
             | Some Retention \<Rightarrow> retention_CheckTx (en_T E) (en_lib E) (ia_tree (mx_identity app)) (mx_retention app) (mx_Data decoded)))"

fun subapp_FinalizeBlock :: "('t, 'd) env \<Rightarrow> subapp \<Rightarrow> RequestFinalizeBlock \<Rightarrow> json option
    \<Rightarrow> ('t, 'd) MultiplexedApplication \<Rightarrow> (FinalizeBlockResponse \<times> ('t, 'd) MultiplexedApplication) res" where
  "subapp_FinalizeBlock E Identity req data app =
     map_res (\<lambda>(r, i). (r, app\<lparr>mx_identity := i\<rparr>)) (identity_FinalizeBlock (en_T E) (en_lib E) data (mx_identity app))"
| "subapp_FinalizeBlock E Events req data app =
     map_res (\<lambda>(r, e). (r, app\<lparr>mx_events := e\<rparr>))
       (events_FinalizeBlock (en_T E) (en_lib E) (ia_tree (mx_identity app)) req data (mx_events app))"
| "subapp_FinalizeBlock E Retention req data app =
     map_res (\<lambda>(r, p). (r, app\<lparr>mx_retention := p\<rparr>))
       (retention_FinalizeBlock (en_T E) (en_lib E) (en_hs E) (ia_tree (mx_identity app)) req data (mx_retention app))"

definition code_result :: "nat \<Rightarrow> ExecTxResult" where
  "code_result code = \<lparr>tr_Code = code, tr_Data = None, tr_Log = [], tr_Events = [], tr_Codespace = []\<rparr>"

text \<open>One round of the loop over the transactions of the block.\<close>

definition mux_tx :: "('t, 'd) env \<Rightarrow> RequestFinalizeBlock \<Rightarrow> tx \<Rightarrow> ('t, 'd) MultiplexedApplication
    \<Rightarrow> (ExecTxResult \<times> ('t, 'd) MultiplexedApplication) res" where
  "mux_tx E req t app =
     on_err (tx_Unmarshal t)
       (\<lambda>_. Ok (code_result CodeEncodingError, app))
       (\<lambda>decoded. case lookup_app (mx_App decoded) of
          None \<Rightarrow> Ok (code_result CodeUnknownApp, app)
        | Some s \<Rightarrow> bind_res (subapp_FinalizeBlock E s req (mx_Data decoded) app) (\<lambda>(res, app).
            let app = app\<lparr>mx_commitFuncs := mx_commitFuncs app @ commit_of res\<rparr>
            in Ok (fb_TxResult res, set_hash (subapp_Name s) (fb_AppHash res) app)))"

fun mux_txs :: "('t, 'd) env \<Rightarrow> RequestFinalizeBlock \<Rightarrow> tx list \<Rightarrow> ('t, 'd) MultiplexedApplication
    \<Rightarrow> (ExecTxResult list \<times> ('t, 'd) MultiplexedApplication) res" where
  "mux_txs E req [] app = Ok ([], app)"
| "mux_txs E req (t # ts) app = bind_res (mux_tx E req t app) (\<lambda>(r, app).
     map_res (\<lambda>(rs, app). (r # rs, app)) (mux_txs E req ts app))"

definition utils_Max :: "int \<Rightarrow> int \<Rightarrow> int" where
  "utils_Max a b = (if a > b then a else b)"

fun punish :: "ValidatorMap \<Rightarrow> Misbehavior list \<Rightarrow> (bytes \<times> int) list" where
  "punish v [] = []"
| "punish v (evidence # es) =
     (if mb_DuplicateVote evidence then
        (case ValidatorMap_Get v (mb_Address evidence) of
           None \<Rightarrow> punish v es
         | Some validator \<Rightarrow> (va_PubKey validator, utils_Max (mb_Power evidence - 1) 0) # punish v es)
      else punish v es)"

definition mux_FinalizeBlock :: "('t, 'd) env \<Rightarrow> RequestFinalizeBlock \<Rightarrow> ('t, 'd) MultiplexedApplication
    \<Rightarrow> (ResponseFinalizeBlock \<times> ('t, 'd) MultiplexedApplication) res" where
  "mux_FinalizeBlock E req app =
     (let app = app\<lparr>mx_commitFuncs := []\<rparr>;
          validatorUpdates = punish (mx_validators app) (fr_Misbehavior req)
      in bind_res (mux_txs E req (fr_Txs req) app) (\<lambda>(results, app).
           let app = app\<lparr>mx_state := (mx_state app)\<lparr>st_Height := fr_Height req\<rparr>\<rparr>
           in Ok (\<lparr>rf_TxResults = results, rf_ValidatorUpdates = validatorUpdates,
                   rf_AppHash = GenerateAppHash (en_lib E) (mx_state app)\<rparr>, app)))"

text \<open>A commit function belongs to the application whose data it has captured.\<close>

definition mux_commit :: "('t, 'd) env \<Rightarrow> commit \<Rightarrow> ('t, 'd) MultiplexedApplication \<Rightarrow> ('t, 'd) MultiplexedApplication res" where
  "mux_commit E c app = (case c of
     CommitEvent _ \<Rightarrow> map_res (\<lambda>e. app\<lparr>mx_events := e\<rparr>) (events_commit (en_T E) (en_lib E) c (mx_events app))
   | CommitPolicy _ \<Rightarrow> map_res (\<lambda>r. app\<lparr>mx_retention := r\<rparr>) (retention_commit (en_D E) c (mx_retention app))
   | _ \<Rightarrow> map_res (\<lambda>i. app\<lparr>mx_identity := i\<rparr>) (identity_commit (en_T E) c (mx_identity app)))"

definition mux_Commit :: "('t, 'd) env \<Rightarrow> ('t, 'd) MultiplexedApplication \<Rightarrow> (int \<times> ('t, 'd) MultiplexedApplication) res" where
  "mux_Commit E app =
     bind_res (run_commits (mux_commit E) (mx_commitFuncs app) app) (\<lambda>app.
     bind_res (saveState (en_D E) (mx_db app) (mx_state app)) (\<lambda>db.
       let height = st_Height (mx_state app);
           retain = mx_RetainBlocks app
       in Ok (if retain > 0 \<and> height \<ge> retain then height - retain + 1 else 0, app\<lparr>mx_db := db\<rparr>)))"

text \<open>CometBFT's protocol: FinalizeBlock and then Commit, for one block after the other.\<close>

definition mux_block :: "('t, 'd) env \<Rightarrow> RequestFinalizeBlock \<Rightarrow> ('t, 'd) MultiplexedApplication \<Rightarrow> ('t, 'd) MultiplexedApplication res" where
  "mux_block E req app = bind_res (mux_FinalizeBlock E req app) (\<lambda>(_, app). map_res snd (mux_Commit E app))"

fun run_chain :: "('t, 'd) env \<Rightarrow> RequestFinalizeBlock list \<Rightarrow> ('t, 'd) MultiplexedApplication \<Rightarrow> ('t, 'd) MultiplexedApplication res" where
  "run_chain E [] app = Ok app"
| "run_chain E (b # bs) app = bind_res (mux_block E b app) (run_chain E bs)"

subsection \<open>The application hash\<close>

text \<open>The names are sorted before the hashes are joined, so the order of the map does not matter.\<close>

lemma Keys_update [simp]: "set (Keys (AList.update k v m)) = insert k (set (Keys m))"
  by (simp add: Keys_def dom_update)

lemma distinct_Keys_update [simp]: "distinct (Keys m) \<Longrightarrow> distinct (Keys (AList.update k v m))"
  by (simp add: Keys_def distinct_update)

lemma set_Keys: "set (Keys m) = dom (map_of m)"
  by (simp add: Keys_def dom_map_of_conv_image_fst)

lemma combined_hashes_map_of:
  assumes "distinct (Keys m)" "distinct (Keys m')" "map_of m = map_of m'"
  shows "combined_hashes m = combined_hashes m'"
proof -
  have "sort (Keys m) = sort (Keys m')"
    using assms by (intro sorted_distinct_set_unique) (simp_all add: set_Keys)
  moreover have "map_get m = map_get m'" using assms(3) by (simp add: map_get_def fun_eq_iff)
  ultimately show ?thesis by (simp add: combined_hashes_def)
qed

lemma mux_set_hash [simp]:
  "mx_identity (set_hash n h app) = mx_identity app" "mx_events (set_hash n h app) = mx_events app"
  "mx_retention (set_hash n h app) = mx_retention app" "mx_commitFuncs (set_hash n h app) = mx_commitFuncs app"
  "mx_validators (set_hash n h app) = mx_validators app" "mx_db (set_hash n h app) = mx_db app"
  "mx_RetainBlocks (set_hash n h app) = mx_RetainBlocks app"
  "st_Height (mx_state (set_hash n h app)) = st_Height (mx_state app)"
  "st_Size (mx_state (set_hash n h app)) = st_Size (mx_state app)"
  "map_of (st_AppHashes (mx_state (set_hash n h app))) = (map_of (st_AppHashes (mx_state app)))(n \<mapsto> h)"
  "distinct (Keys (st_AppHashes (mx_state app))) \<Longrightarrow> distinct (Keys (st_AppHashes (mx_state (set_hash n h app))))"
  by (simp_all add: set_hash_def update_conv')

lemma subapp_InitChain_set_hash [simp]: "subapp_InitChain E s (set_hash n h app) = subapp_InitChain E s app"
  by (cases s) simp_all

lemma subapp_Name_inj [simp]: "subapp_Name a = subapp_Name b \<longleftrightarrow> a = b"
  by (cases a; cases b) (simp_all add: identity_AppName_def events_AppName_def retention_AppName_def)

lemma subapp_Name_image [simp]: "subapp_Name s \<in> subapp_Name ` A \<longleftrightarrow> s \<in> A"
  by auto

lemma subapp_InitChain_Err: "subapp_InitChain E s app \<noteq> Err e"
  by (cases s)
    (simp_all add: identity_InitChain_def events_InitChain_def retention_InitChain_def on_err_def split: res.split)

lemma init_apps_hashes:
  "init_apps E ss app = Panic \<and> (\<exists>s \<in> set ss. subapp_InitChain E s app = Panic)
   \<or> (\<exists>app'. init_apps E ss app = Ok app'
      \<and> (distinct (Keys (st_AppHashes (mx_state app))) \<longrightarrow> distinct (Keys (st_AppHashes (mx_state app'))))
      \<and> (\<forall>s \<in> set ss. \<exists>h. subapp_InitChain E s app = Ok h \<and> map_of (st_AppHashes (mx_state app')) (subapp_Name s) = Some h)
      \<and> (\<forall>n. n \<notin> subapp_Name ` set ss \<longrightarrow> map_of (st_AppHashes (mx_state app')) n = map_of (st_AppHashes (mx_state app)) n))"
proof (induction ss arbitrary: app)
  case (Cons s ss)
  show ?case
  proof (cases "subapp_InitChain E s app")
    case (Ok h)
    show ?thesis
    proof (cases "init_apps E ss (set_hash (subapp_Name s) h app)")
      case o: (Ok app')
      have "map_of (st_AppHashes (mx_state app')) (subapp_Name s) = Some h"
        using Cons.IH [of "set_hash (subapp_Name s) h app"] o Ok by (cases "s \<in> set ss") auto
      with Cons.IH [of "set_hash (subapp_Name s) h app"] o Ok show ?thesis by auto
    qed (use Cons.IH [of "set_hash (subapp_Name s) h app"] Ok in auto)
  qed (use subapp_InitChain_Err in auto)
qed simp

lemma InitChain_hash_order:
  assumes "distinct (Keys (st_AppHashes (mx_state app)))" "set ss = set ss'"
  shows "map_res fst (mux_InitChain E ss app) = map_res fst (mux_InitChain E ss' app)"
proof (cases "\<exists>s \<in> set ss. subapp_InitChain E s app = Panic")
  case True
  with init_apps_hashes [of E ss app] init_apps_hashes [of E ss' app] assms(2)
  have "init_apps E ss app = Panic" "init_apps E ss' app = Panic" by auto
  then show ?thesis by (simp add: mux_InitChain_def)
next
  case False
  then obtain a a' where a: "init_apps E ss app = Ok a" "init_apps E ss' app = Ok a'"
    using init_apps_hashes [of E ss app] init_apps_hashes [of E ss' app] assms(2) by auto
  have "map_of (st_AppHashes (mx_state a)) n = map_of (st_AppHashes (mx_state a')) n" for n
  proof (cases "n \<in> subapp_Name ` set ss")
    case True
    then obtain s where s: "s \<in> set ss" "n = subapp_Name s" by auto
    obtain h where "subapp_InitChain E s app = Ok h" "map_of (st_AppHashes (mx_state a)) n = Some h"
      using init_apps_hashes [of E ss app] a(1) s by auto
    moreover obtain h' where "subapp_InitChain E s app = Ok h'" "map_of (st_AppHashes (mx_state a')) n = Some h'"
      using init_apps_hashes [of E ss' app] a(2) s assms(2) by auto
    ultimately show ?thesis by simp
  next
    case f: False
    with init_apps_hashes [of E ss app] init_apps_hashes [of E ss' app] a assms(2) show ?thesis by simp
  qed
  then have "combined_hashes (st_AppHashes (mx_state a)) = combined_hashes (st_AppHashes (mx_state a'))"
    using init_apps_hashes [of E ss app] init_apps_hashes [of E ss' app] a assms(1)
    by (intro combined_hashes_map_of) auto
  with a show ?thesis by (simp add: mux_InitChain_def GenerateAppHash_def)
qed

subsection \<open>The stored state\<close>

lemma hash_of_json_hash_json [simp]: "hash_of_json (hash_json h) = Ok h"
  by (simp add: hash_of_json_def hash_json_def)

lemma map_of_fold_update:
  "map_of (foldl (\<lambda>m (k, v). AList.update k v m) m es) = map_of m ++ map_of (rev es)"
proof (induction es rule: rev_induct)
  case (snoc e es)
  then show ?case by (cases e) (simp add: update_conv' map_add_def fun_eq_iff)
qed simp

lemma map_of_distinct_rev: "distinct (map fst es) \<Longrightarrow> map_of (rev es) = map_of es"
  using map_of_is_SomeI [of "rev es"] by (intro map_of_eqI) (auto simp: rev_map [symmetric])

lemma distinct_fold_update:
  "distinct (Keys m) \<Longrightarrow> distinct (Keys (foldl (\<lambda>m (k, v). AList.update k v m) m es))"
  by (induction es arbitrary: m) auto

lemma AppHashes_roundtrip:
  assumes "distinct (Keys m)"
  shows "\<exists>m'. AppHashes_of_json (JObj (map (\<lambda>k. (k, hash_json (map_get m k))) (sort (Keys m)))) = Ok m'
    \<and> map_of m' = map_of m \<and> distinct (Keys m')"
proof -
  let ?es = "map (\<lambda>k. (k, map_get m k)) (sort (Keys m))"
  have "map_res_list entry_of_json (map (\<lambda>k. (k, hash_json (map_get m k))) ks) = Ok (map (\<lambda>k. (k, map_get m k)) ks)" for ks
    by (induction ks) (simp_all add: entry_of_json_def)
  moreover have "map_of (rev ?es) = map_of m"
  proof
    fix k
    have "map_of (rev ?es) k = map_of ?es k" using assms by (simp add: map_of_distinct_rev comp_def)
    also have "map_of ?es k = map_of m k"
      using set_Keys [of m] by (auto simp: map_of_map_restrict restrict_map_def map_get_def split: option.split)
    finally show "map_of (rev ?es) k = map_of m k" .
  qed
  ultimately show ?thesis
    using map_of_fold_update [of "[]" ?es] distinct_fold_update [of "[]" ?es]
    by (simp add: AppHashes_of_json_def Keys_def)
qed

lemma State_json_roundtrip:
  assumes "distinct (Keys (st_AppHashes s))" "int64 (st_Size s)" "int64 (st_Height s)"
  shows "\<exists>s'. State_of_json (State_json s) = Ok s' \<and> st_Size s' = st_Size s \<and> st_Height s' = st_Height s
    \<and> map_of (st_AppHashes s') = map_of (st_AppHashes s) \<and> distinct (Keys (st_AppHashes s'))"
proof -
  obtain m where m: "AppHashes_of_json (JObj (map (\<lambda>k. (k, hash_json (map_get (st_AppHashes s) k))) (sort (Keys (st_AppHashes s))))) = Ok m"
      "map_of m = map_of (st_AppHashes s)" "distinct (Keys m)"
    using AppHashes_roundtrip [OF assms(1)] by blast
  show ?thesis
    using assms(2,3) m ParseInt_int_dec
    by (simp add: State_of_json_def State_json_def jint_def jnum_def int64_def ToLower_def to_lower_char_def)
qed

text \<open>A state as the multiplexer keeps it.\<close>

definition State_wf :: "State \<Rightarrow> bool" where
  "State_wf s \<longleftrightarrow> distinct (Keys (st_AppHashes s)) \<and> int64 (st_Size s) \<and> int64 (st_Height s)"

lemma GenerateAppHash_cong:
  assumes "distinct (Keys (st_AppHashes s))" "distinct (Keys (st_AppHashes s'))"
    "map_of (st_AppHashes s) = map_of (st_AppHashes s')"
  shows "GenerateAppHash lib s = GenerateAppHash lib s'"
  using combined_hashes_map_of [OF assms] by (simp add: GenerateAppHash_def)

lemma saveState_loadState:
  assumes "db_laws D content" "State_wf s" "saveState D db s = Ok db'" "db_Get D db' (bz stateKey) = Ok v"
  shows "\<exists>s'. loadState D db' = Ok s' \<and> State_wf s' \<and> st_Height s' = st_Height s \<and> st_Size s' = st_Size s
    \<and> GenerateAppHash lib s' = GenerateAppHash lib s"
proof -
  have "db_Set D db (bz stateKey) (State_json s) = Ok db'"
    using assms(3) by (auto simp: saveState_def Must_def elim!: on_errE)
  then have "v = Some (State_json s)" using assms(1,4) unfolding db_laws_def by (metis fun_upd_same)
  moreover obtain s' where s': "State_of_json (State_json s) = Ok s'" "st_Size s' = st_Size s" "st_Height s' = st_Height s"
      "map_of (st_AppHashes s') = map_of (st_AppHashes s)" "distinct (Keys (st_AppHashes s'))"
    using State_json_roundtrip [of s] assms(2) unfolding State_wf_def by blast
  moreover have "GenerateAppHash lib s' = GenerateAppHash lib s"
    using s' assms(2) by (intro GenerateAppHash_cong) (simp_all add: State_wf_def)
  ultimately show ?thesis
    using assms(2,4) by (auto simp: loadState_def Must_def State_wf_def)
qed

subsection \<open>Transactions\<close>

lemma mux_tx_cases:
  assumes "mux_tx E req t app = Ok (r, app')"
  obtains (rejected) "app' = app" "tr_Events r = []" "tr_Code r = CodeEncodingError \<or> tr_Code r = CodeUnknownApp"
  | (routed) decoded s res app1 where "tx_Unmarshal t = Ok decoded" "lookup_app (mx_App decoded) = Some s"
      "subapp_FinalizeBlock E s req (mx_Data decoded) app = Ok (res, app1)" "r = fb_TxResult res"
      "app' = set_hash (subapp_Name s) (fb_AppHash res) (app1\<lparr>mx_commitFuncs := mx_commitFuncs app1 @ commit_of res\<rparr>)"
proof (cases "tx_Unmarshal t")
  case (Ok decoded)
  note d = this
  show ?thesis
  proof (cases "lookup_app (mx_App decoded)")
    case None
    with assms Ok have "app' = app \<and> r = code_result CodeUnknownApp" by (simp add: mux_tx_def)
    then show ?thesis by (intro rejected) (simp_all add: code_result_def)
  next
    case (Some s)
    then obtain res app1 where "subapp_FinalizeBlock E s req (mx_Data decoded) app = Ok (res, app1)"
      "r = fb_TxResult res"
      "app' = set_hash (subapp_Name s) (fb_AppHash res) (app1\<lparr>mx_commitFuncs := mx_commitFuncs app1 @ commit_of res\<rparr>)"
      using assms d by (auto simp: mux_tx_def Let_def)
    with d Some show ?thesis by (rule routed)
  qed
next
  case (Err e)
  with assms have "app' = app \<and> r = code_result CodeEncodingError" by (simp add: mux_tx_def)
  then show ?thesis by (intro rejected) (simp_all add: code_result_def)
qed (use assms in \<open>simp add: mux_tx_def\<close>)

text \<open>What the handlers of the applications leave alone.\<close>

lemma subapp_frame:
  assumes "subapp_FinalizeBlock E s req data app = Ok (res, app')"
  shows "mx_state app' = mx_state app \<and> mx_validators app' = mx_validators app \<and> mx_db app' = mx_db app
    \<and> mx_commitFuncs app' = mx_commitFuncs app \<and> mx_RetainBlocks app' = mx_RetainBlocks app"
  using assms by (cases s) auto

lemma mux_tx_frame:
  assumes "mux_tx E req t app = Ok (r, app')"
  shows "mx_validators app' = mx_validators app \<and> mx_db app' = mx_db app \<and> mx_RetainBlocks app' = mx_RetainBlocks app
    \<and> (State_wf (mx_state app) \<longrightarrow> State_wf (mx_state app'))"
  using assms
proof (cases rule: mux_tx_cases)
  case (routed decoded s res app1)
  with subapp_frame [OF routed(3)] show ?thesis by (simp add: State_wf_def set_hash_def)
qed simp

lemma mux_txs_frame:
  assumes "mux_txs E req ts app = Ok (rs, app')"
  shows "mx_validators app' = mx_validators app \<and> mx_db app' = mx_db app \<and> mx_RetainBlocks app' = mx_RetainBlocks app
    \<and> (State_wf (mx_state app) \<longrightarrow> State_wf (mx_state app')) \<and> length rs = length ts"
  using assms
proof (induction ts arbitrary: app rs)
  case (Cons t ts)
  then obtain r app1 rs1 where 1: "mux_tx E req t app = Ok (r, app1)" "mux_txs E req ts app1 = Ok (rs1, app')" "rs = r # rs1"
    by auto
  from Cons.IH [OF 1(2)] mux_tx_frame [OF 1(1)] 1(3) show ?case by simp
qed simp

lemma mux_commit_frame:
  assumes "mux_commit E c app = Ok app'"
  shows "mx_state app' = mx_state app \<and> mx_validators app' = mx_validators app \<and> mx_db app' = mx_db app
    \<and> mx_RetainBlocks app' = mx_RetainBlocks app \<and> mx_commitFuncs app' = mx_commitFuncs app"
  using assms by (cases c) (auto simp: mux_commit_def)

lemma run_commits_frame:
  assumes "run_commits (mux_commit E) cs app = Ok app'"
  shows "mx_state app' = mx_state app \<and> mx_validators app' = mx_validators app \<and> mx_db app' = mx_db app
    \<and> mx_RetainBlocks app' = mx_RetainBlocks app \<and> mx_commitFuncs app' = mx_commitFuncs app"
  using assms
proof (induction cs arbitrary: app)
  case (Cons c cs)
  then obtain app1 where 1: "mux_commit E c app = Ok app1" "run_commits (mux_commit E) cs app1 = Ok app'" by auto
  from Cons.IH [OF 1(2)] mux_commit_frame [OF 1(1)] show ?case by simp
qed simp

subsection \<open>Validator transactions\<close>

lemma is_b64_char [simp]: "n < 64 \<Longrightarrow> is_b64 (b64_char n)"
  by (auto simp: is_b64_def b64_char_def Let_def of_char_of)

lemma unat_b64_bounds [simp]:
  "unat (a :: byte) div 4 < 64" "unat a mod 4 * 16 < 64" "unat a mod 4 * 16 + unat (b :: byte) div 16 < 64"
  "unat a mod 16 * 4 < 64" "unat a mod 16 * 4 + unat b div 64 < 64" "unat a mod 64 < 64"
  using unat_word_bounds(1) [of a] unat_word_bounds(1) [of b] by linarith+

text \<open>The encoding of a key that is not empty starts with a complete quantum.\<close>

lemma b64_Decode_nil_encoded: "key \<noteq> [] \<Longrightarrow> b64_Decode_nil 0 (b64_EncodeToString key) = Panic"
proof (cases key rule: b64_EncodeToString.cases)
  have "\<not> is_b64 (CHR ''='')" "\<not> is_newline (CHR ''='')" by (simp_all add: is_b64_def is_newline_def)
  then show "key = [a] \<Longrightarrow> ?thesis" "key = [a, b] \<Longrightarrow> ?thesis" for a b by (simp_all add: numeral_3_eq_3)
qed (simp_all add: numeral_3_eq_3)

lemma b64_no_bang: "CHR ''!'' \<notin> set (b64_EncodeToString key)"
proof -
  have "\<not> is_b64 (CHR ''!'')" by (simp add: is_b64_def)
  then have n: "n < 64 \<Longrightarrow> CHR ''!'' \<noteq> b64_char n" for n using is_b64_char [of n] by metis
  show ?thesis by (induction key rule: b64_EncodeToString.induct) (simp_all add: n)
qed

lemma Split_nonempty [simp]: "Split sep s \<noteq> []"
  by (induction s) (auto split: list.split)

lemma Split_none: "sep \<notin> set s \<Longrightarrow> Split sep s = [s]"
  by (induction s) auto

lemma Split_append: "sep \<notin> set a \<Longrightarrow> Split sep (a @ sep # b) = a # Split sep b"
  by (induction a) auto

subsection \<open>Rejected transactions\<close>

lemma IntoFinalizeBlockResponse_hash [simp]: "fb_AppHash (IntoFinalizeBlockResponse e) = []"
  by (simp add: IntoFinalizeBlockResponse_def Let_def)

lemma identity_rejected:
  assumes "identity_FinalizeBlock T lib data app = Ok (res, app')" "fb_CommitFunc res = None"
  shows "fb_AppHash res = []"
  using assms
  by (auto simp: identity_FinalizeBlock_def identity_finalize_seed_def identity_finalize_register_def Let_def
      elim!: on_errE split: sum.split_asm if_split_asm)

lemma events_rejected:
  assumes "events_FinalizeBlock T lib ids req data app = Ok (res, app')" "fb_CommitFunc res = None"
  shows "fb_AppHash res = []"
  using assms
  by (auto simp: events_FinalizeBlock_def events_finalize_create_def Let_def
      elim!: on_errE split: sum.split_asm if_split_asm)

lemma retention_rejected:
  assumes "retention_FinalizeBlock T lib hs ids req data app = Ok (res, app')" "fb_CommitFunc res = None"
  shows "fb_AppHash res = []"
  using assms
  by (auto simp: retention_FinalizeBlock_def Let_def elim!: on_errE split: sum.split_asm if_split_asm)

lemma mux_block_frame:
  assumes "mux_block E req app = Ok app'"
  shows "mx_validators app' = mx_validators app \<and> mx_RetainBlocks app' = mx_RetainBlocks app"
proof -
  obtain rs app1 rh where 1: "mux_txs E req (fr_Txs req) (app\<lparr>mx_commitFuncs := []\<rparr>) = Ok (rs, app1)"
    and 2: "mux_Commit E (app1\<lparr>mx_state := (mx_state app1)\<lparr>st_Height := fr_Height req\<rparr>\<rparr>) = Ok (rh, app')"
    using assms by (auto simp: mux_block_def mux_FinalizeBlock_def Let_def)
  obtain app2 where 3: "run_commits (mux_commit E) (mx_commitFuncs app1)
      (app1\<lparr>mx_state := (mx_state app1)\<lparr>st_Height := fr_Height req\<rparr>\<rparr>) = Ok app2"
      "mx_validators app' = mx_validators app2" "mx_RetainBlocks app' = mx_RetainBlocks app2"
    using 2 by (auto simp: mux_Commit_def Let_def)
  from mux_txs_frame [OF 1] run_commits_frame [OF 3(1)] 3(2,3) show ?thesis by simp
qed

lemma run_chain_frame:
  "run_chain E bs app = Ok app' \<Longrightarrow> mx_validators app' = mx_validators app \<and> mx_RetainBlocks app' = mx_RetainBlocks app"
proof (induction bs arbitrary: app)
  case (Cons b bs)
  then obtain app1 where 1: "mux_block E b app = Ok app1" "run_chain E bs app1 = Ok app'" by auto
  from Cons.IH [OF 1(2)] mux_block_frame [OF 1(1)] show ?case by simp
qed simp

lemma punish_empty [simp]: "punish NewValidatorMap es = []"
  by (induction es) (simp_all add: ValidatorMap_Get_def NewValidatorMap_def)

subsection \<open>Properties\<close>

text \<open>
  C21. The application hash that \<^verbatim>\<open>InitChain\<close> returns does not depend on the order in which Go iterates
  over the map of applications: any two orders of the same applications give the same hash, or both
  end the process.
\<close>

theorem InitChain_order_independent:
  assumes "distinct (Keys (st_AppHashes (mx_state app)))" "set ss = set ss'"
  shows "map_res fst (mux_InitChain E ss app) = map_res fst (mux_InitChain E ss' app)"
  using assms by (rule InitChain_hash_order)

text \<open>
  C20. A node that restarts after a commit reports the same height and the same application hash: the
  state that \<^verbatim>\<open>Commit\<close> stored is loaded again, with the sorted JSON object read back as a map.
\<close>

theorem mux_restart:
  assumes "db_laws (en_D E) content" "State_wf (mx_state app)" "mux_Commit E app = Ok (retain, app')"
    and "db_Get (en_D E) (mx_db app') (bz stateKey) = Ok v"
  shows "\<exists>app''. NewApplication E (mx_db app') i e r = Ok app'' \<and> mux_Info E app'' = mux_Info E app'"
proof -
  obtain app2 db where 1: "run_commits (mux_commit E) (mx_commitFuncs app) app = Ok app2"
      "saveState (en_D E) (mx_db app2) (mx_state app2) = Ok db" "app' = app2\<lparr>mx_db := db\<rparr>"
    using assms(3) by (auto simp: mux_Commit_def Let_def)
  have "State_wf (mx_state app2)" using run_commits_frame [OF 1(1)] assms(2) by simp
  from saveState_loadState [OF assms(1) this 1(2), of v "en_lib E"] assms(4) 1(3) obtain s' where
    "loadState (en_D E) db = Ok s'" "st_Height s' = st_Height (mx_state app2)"
    "GenerateAppHash (en_lib E) s' = GenerateAppHash (en_lib E) (mx_state app2)"
    by auto
  then show ?thesis using 1(3) by (simp add: NewApplication_def mux_Info_def)
qed


text \<open>
  \<^verbatim>\<open>CheckTx\<close> panics on every well-formed validator transaction \<^verbatim>\<open>val:type!key!power\<close> with a key:
  the base64 key is decoded into a slice of length zero. Inside a block such a transaction is not
  recognised at all; it is answered with an encoding error and changes nothing.
\<close>

lemma validator_tx_panics:
  assumes "key \<noteq> []" "CHR ''!'' \<notin> set keyType" "CHR ''!'' \<notin> set votes"
  shows "mux_CheckTx E (TxText (validatorPrefix @ keyType @ ''!'' @ b64_EncodeToString key @ ''!'' @ votes)) app = Panic
    \<and> mux_tx E req (TxText (validatorPrefix @ keyType @ ''!'' @ b64_EncodeToString key @ ''!'' @ votes)) app
        = Ok (code_result CodeEncodingError, app)"
proof -
  have "Split (CHR ''!'') (keyType @ CHR ''!'' # b64_EncodeToString key @ CHR ''!'' # votes)
      = [keyType, b64_EncodeToString key, votes]"
    using assms by (simp add: Split_append Split_none b64_no_bang)
  then show ?thesis
    using b64_Decode_nil_encoded [OF assms(1)]
    by (simp add: mux_CheckTx_def parseValidatorTx_def mux_tx_def tx_Unmarshal_def Let_def)
qed

text \<open>
  Misbehaving validators are never punished: after any chain of blocks, the evidence of any block
  leads to no validator update, because no code adds a validator to the map that is consulted.
\<close>

lemma misbehaviour_unpunished:
  assumes "NewApplication E db i e r = Ok app0" "run_chain E bs app0 = Ok app"
    and "mux_FinalizeBlock E req app = Ok (resp, app')"
  shows "rf_ValidatorUpdates resp = []"
proof -
  have "mx_validators app0 = NewValidatorMap" using assms(1) by (auto simp: NewApplication_def)
  with run_chain_frame [OF assms(2)] assms(3) show ?thesis by (auto simp: mux_FinalizeBlock_def Let_def)
qed

text \<open>
  A transaction that an application rejects still changes the state: the hash that the multiplexer
  keeps for that application, which enters the application hash of the block, becomes the nil hash.
\<close>

lemma rejected_tx_clears_hash:
  assumes "mux_tx E req t app = Ok (r, app')" "tx_Unmarshal t = Ok d" "lookup_app (mx_App d) = Some s"
    and "mx_commitFuncs app' = mx_commitFuncs app"
  shows "map_of (st_AppHashes (mx_state app')) (subapp_Name s) = Some []"
proof -
  obtain res app1 where 1: "subapp_FinalizeBlock E s req (mx_Data d) app = Ok (res, app1)"
      "app' = set_hash (subapp_Name s) (fb_AppHash res) (app1\<lparr>mx_commitFuncs := mx_commitFuncs app1 @ commit_of res\<rparr>)"
    using assms(1-3) by (auto simp: mux_tx_def Let_def)
  have "commit_of res = []" using 1(2) subapp_frame [OF 1(1)] assms(4) by simp
  then have "fb_CommitFunc res = None" by (simp add: commit_of_def split: option.split_asm)
  then have "fb_AppHash res = []"
    using 1(1) identity_rejected events_rejected retention_rejected by (cases s) fastforce+
  with 1(2) show ?thesis by simp
qed

subsection \<open>A small node\<close>

text \<open>A hash that keeps short texts and the first eight bytes, the block height, of an event's text.\<close>

definition demo_hash :: "bytes \<Rightarrow> bytes" where
  "demo_hash b = (case drop 7 b of [] \<Rightarrow> b | _ \<Rightarrow> take 8 b @ replicate 24 0)"

definition demo_env :: "(mem_tree, (bytes \<times> json) list) env" where
  "demo_env = \<lparr>en_T = mem_iavl, en_D = mem_db, en_lib = demo_lib\<lparr>sha256 := demo_hash\<rparr>, en_ics = demo_ics,
     en_hs = (\<lambda>_. Ok 7), en_UpdateValidator = (\<lambda>k p t. Ok (k, p))\<rparr>"

definition demo_mux :: "(mem_tree, (bytes \<times> json) list) MultiplexedApplication" where
  "demo_mux = \<lparr>mx_identity = \<lparr>ia_tree = mem_empty, ia_versionNumber = 0, ia_seeded = False, ia_registering = []\<rparr>,
     mx_events = \<lparr>ea_tree = mem_empty, ea_versionNumber = 0, ea_creating = []\<rparr>,
     mx_retention = \<lparr>ra_db = [], ra_policy = None, ra_txPolicy = None\<rparr>, mx_db = [],
     mx_state = \<lparr>st_Size = 0, st_Height = 0, st_AppHashes = []\<rparr>, mx_commitFuncs = [], mx_RetainBlocks = 0,
     mx_validators = NewValidatorMap\<rparr>"

theorem InitChain_order_independent_witness:
  "map_res fst (mux_InitChain demo_env [Identity, Events, Retention] demo_mux)
     = map_res fst (mux_InitChain demo_env [Retention, Identity, Events] demo_mux)"
  by (rule InitChain_order_independent) (auto simp: demo_mux_def Keys_def)

lemma demo_Commit:
  "mux_Commit demo_env demo_mux = Ok (0, demo_mux\<lparr>mx_db := [(bz stateKey, State_json (mx_state demo_mux))]\<rparr>)"
  by (simp add: mux_Commit_def demo_mux_def demo_env_def saveState_def mem_db_def Must_def)

theorem mux_restart_witness:
  "\<exists>app''. NewApplication demo_env [(bz stateKey, State_json (mx_state demo_mux))]
      (mx_identity demo_mux) (mx_events demo_mux) (mx_retention demo_mux) = Ok app''
    \<and> mux_Info demo_env app'' = mux_Info demo_env demo_mux"
proof -
  have "State_wf (mx_state demo_mux)" by (simp add: State_wf_def demo_mux_def Keys_def int64_def)
  moreover have "db_laws (en_D demo_env) map_of" using mem_db_laws by (simp add: demo_env_def)
  ultimately show ?thesis
    using mux_restart [OF _ _ demo_Commit, of map_of "Some (State_json (mx_state demo_mux))"]
    by (simp add: demo_env_def mem_db_def mux_Info_def)
qed


end
