(* ===== verification/Chain.thy ===== *)
theory Chain
  imports Multiplexer
begin

section \<open>Blocks and chains of blocks\<close>

text \<open>
  The three applications under the multiplexer. Each of them fulfils its contract
  (\<^verbatim>\<open>two_phase\<close>) for the commit functions of its own; here the contracts are put together for the
  shared list of commit functions, first for a block and then for a chain whose heights increase.
\<close>

subsection \<open>Commit functions of one application do not concern the others\<close>

lemma id_handling_append:
  "commit_principals ds = [] \<Longrightarrow> seed_commits ds = 0 \<Longrightarrow> id_handling view app (cs @ ds) = id_handling view app cs"
  by (simp add: id_handling_def id_committing_def)

lemma ev_handling_append:
  "commit_events ds = [] \<Longrightarrow> ev_handling lib S w view app (cs @ ds) = ev_handling lib S w view app cs"
  by (simp add: ev_handling_def)

lemma ret_handling_append:
  "commit_policies ds = [] \<Longrightarrow> ret_handling app (cs @ ds) = ret_handling app cs"
  by (simp add: ret_handling_def ret_committing_def)

lemma id_committing_cong:
  "commit_principals cs = commit_principals ds \<Longrightarrow> seed_commits cs = seed_commits ds
    \<Longrightarrow> id_committing view app cs = id_committing view app ds"
  by (simp add: id_committing_def)

lemma ev_committing_cong:
  "commit_events cs = commit_events ds \<Longrightarrow> ev_committing lib S w view app cs = ev_committing lib S w view app ds"
  by (simp add: ev_committing_def)

lemma ret_committing_cong: "commit_policies cs = commit_policies ds \<Longrightarrow> ret_committing app cs = ret_committing app ds"
  by (simp add: ret_committing_def)

lemma identity_commit_kind:
  assumes "identity_FinalizeBlock T lib data app = Ok (resp, app')"
  shows "commit_events (commit_of resp) = [] \<and> commit_policies (commit_of resp) = []"
  using assms
proof (cases rule: identity_FinalizeBlock_cases)
  case (seed payload)
  from seed(2) show ?thesis by (cases rule: identity_finalize_seed_cases) (simp_all add: commit_of_def)
next
  case (register payload requester)
  from register(4) show ?thesis by (cases rule: identity_finalize_register_cases) (simp_all add: commit_of_def)
qed (simp add: commit_of_def)

lemma events_commit_kind:
  assumes "events_FinalizeBlock T lib ids req data app = Ok (resp, app')"
  shows "commit_principals (commit_of resp) = [] \<and> seed_commits (commit_of resp) = 0 \<and> commit_policies (commit_of resp) = []"
  using assms
proof (cases rule: events_FinalizeBlock_cases)
  case (create payload tree)
  from create(4) show ?thesis by (cases rule: events_finalize_create_cases) (simp_all add: commit_of_def)
qed (simp_all add: commit_of_def)

lemma retention_commit_kind:
  assumes "retention_FinalizeBlock T lib hs ids req data app = Ok (resp, app')"
  shows "commit_principals (commit_of resp) = [] \<and> seed_commits (commit_of resp) = 0 \<and> commit_events (commit_of resp) = []"
  using assms by (cases rule: retention_FinalizeBlock_cases) (simp_all add: commit_of_def)

subsection \<open>The invariant of a block\<close>

definition mux_handling where
  "mux_handling E view saved latest S h app cs \<longleftrightarrow>
     iavl_laws (en_T E) view saved latest \<and> inj_on (sha256 (en_lib E)) S
     \<and> id_handling view (mx_identity app) cs
     \<and> ev_synced view saved latest (mx_events app)
     \<and> ev_handling (en_lib E) S (word_of_int h) view (mx_events app) cs
     \<and> ret_handling (mx_retention app) cs"

definition mux_committing where
  "mux_committing E view saved latest S h app cs \<longleftrightarrow>
     iavl_laws (en_T E) view saved latest \<and> inj_on (sha256 (en_lib E)) S
     \<and> id_committing view (mx_identity app) cs
     \<and> ev_synced view saved latest (mx_events app)
     \<and> ev_committing (en_lib E) S (word_of_int h) view (mx_events app) cs
     \<and> ret_committing (mx_retention app) cs"

text \<open>Identities and events keep their entries, and a policy that is set stays.\<close>

definition mux_preserved where
  "mux_preserved view app app' \<longleftrightarrow> id_preserved view (mx_identity app) (mx_identity app')
     \<and> ev_preserved view (mx_events app) (mx_events app') \<and> policy_preserved (mx_retention app) (mx_retention app')"

lemma mux_preserved_refl: "mux_preserved view app app"
  by (simp add: mux_preserved_def policy_preserved_def id_repo.preserves_refl)

lemma mux_preserved_trans:
  assumes "mux_preserved view a b" "mux_preserved view b c"
  shows "mux_preserved view a c"
proof -
  have i: "id_preserved view (mx_identity a) (mx_identity b)" "id_preserved view (mx_identity b) (mx_identity c)"
    and e: "ev_preserved view (mx_events a) (mx_events b)" "ev_preserved view (mx_events b) (mx_events c)"
    using assms by (simp_all add: mux_preserved_def)
  have "policy_preserved (mx_retention a) (mx_retention c)"
    using assms by (auto simp: mux_preserved_def policy_preserved_def)
  with id_repo.preserves_trans [OF i] map_le_trans [OF e] show ?thesis by (simp add: mux_preserved_def)
qed

lemma mux_cong_set_hash [simp]:
  "mux_handling E view saved latest S h (set_hash n k app) cs = mux_handling E view saved latest S h app cs"
  "mux_handling E view saved latest S h (app\<lparr>mx_commitFuncs := ds\<rparr>) cs = mux_handling E view saved latest S h app cs"
  "mux_handling E view saved latest S h (app\<lparr>mx_state := s\<rparr>) cs = mux_handling E view saved latest S h app cs"
  "mux_committing E view saved latest S h (app\<lparr>mx_db := d\<rparr>) cs = mux_committing E view saved latest S h app cs"
  "mux_preserved view app (set_hash n k app') = mux_preserved view app app'"
  "mux_preserved view app (app'\<lparr>mx_commitFuncs := ds\<rparr>) = mux_preserved view app app'"
  "mux_preserved view app (app'\<lparr>mx_state := s\<rparr>) = mux_preserved view app app'"
  "mux_preserved view app (app'\<lparr>mx_db := d\<rparr>) = mux_preserved view app app'"
  "mux_preserved view (app\<lparr>mx_commitFuncs := ds\<rparr>) app' = mux_preserved view app app'"
  "mux_preserved view (app\<lparr>mx_state := s\<rparr>) app' = mux_preserved view app app'"
  by (simp_all add: mux_handling_def mux_committing_def mux_preserved_def)

lemma subapp_handling:
  assumes h: "mux_handling E view saved latest S h app cs" and r: "fr_Height req = h"
    and S: "tx_texts (en_lib E) h data \<subseteq> S"
    and f: "subapp_FinalizeBlock E s req data app = Ok (res, app')"
  shows "mux_handling E view saved latest S h app' (cs @ commit_of res) \<and> mux_preserved view app app'"
proof (cases s)
  case Identity
  then obtain i where i: "identity_FinalizeBlock (en_T E) (en_lib E) data (mx_identity app) = Ok (res, i)"
      "app' = app\<lparr>mx_identity := i\<rparr>" using f by auto
  have "id_handling view i (cs @ commit_of res) \<and> id_preserved view (mx_identity app) i"
    using id_handling_fin [OF _ _ i(1)] h by (auto simp: mux_handling_def)
  then show ?thesis using h i(2) identity_commit_kind [OF i(1)]
    by (simp add: mux_handling_def mux_preserved_def ev_handling_append ret_handling_append policy_preserved_def)
next
  case Events
  then obtain e where e: "events_FinalizeBlock (en_T E) (en_lib E) (ia_tree (mx_identity app)) req data (mx_events app) = Ok (res, e)"
      "app' = app\<lparr>mx_events := e\<rparr>" using f by auto
  have inv: "iavl_laws (en_T E) view saved latest" "ev_synced view saved latest (mx_events app)"
      "ev_handling (en_lib E) S (word_of_int h) view (mx_events app) cs" "word_of_int h = word_of_int (fr_Height req)"
      "tx_texts (en_lib E) (fr_Height req) data \<subseteq> S"
    using h r S by (simp_all add: mux_handling_def)
  from ev_handling_fin [OF inv e(1)] show ?thesis using h e(2) events_commit_kind [OF e(1)]
    by (simp add: mux_handling_def mux_preserved_def id_handling_append ret_handling_append policy_preserved_def
        id_repo.preserves_refl)
next
  case Retention
  then obtain p where p: "retention_FinalizeBlock (en_T E) (en_lib E) (en_hs E) (ia_tree (mx_identity app)) req data (mx_retention app) = Ok (res, p)"
      "app' = app\<lparr>mx_retention := p\<rparr>" using f by auto
  have "ret_handling p (cs @ commit_of res) \<and> policy_preserved (mx_retention app) p"
    using ret_handling_fin [OF _ p(1)] h by (auto simp: mux_handling_def)
  then show ?thesis using h p(2) retention_commit_kind [OF p(1)]
    by (simp add: mux_handling_def mux_preserved_def id_handling_append ev_handling_append id_repo.preserves_refl)
qed

definition tx_block_texts :: "extlib \<Rightarrow> int \<Rightarrow> tx \<Rightarrow> bytes set" where
  "tx_block_texts lib h t = (case tx_Unmarshal t of Ok d \<Rightarrow> tx_texts lib h (mx_Data d) | _ \<Rightarrow> {})"

definition block_texts :: "extlib \<Rightarrow> RequestFinalizeBlock \<Rightarrow> bytes set" where
  "block_texts lib req = (\<Union>t \<in> set (fr_Txs req). tx_block_texts lib (fr_Height req) t)"

lemma mux_tx_handling:
  assumes h: "mux_handling E view saved latest S h app (mx_commitFuncs app)" and r: "fr_Height req = h"
    and S: "tx_block_texts (en_lib E) h t \<subseteq> S"
    and f: "mux_tx E req t app = Ok (res, app')"
  shows "mux_handling E view saved latest S h app' (mx_commitFuncs app') \<and> mux_preserved view app app'"
  using f
proof (cases rule: mux_tx_cases)
  case rejected
  then show ?thesis using h by (simp add: mux_preserved_refl)
next
  case (routed decoded s res' app1)
  have "tx_texts (en_lib E) h (mx_Data decoded) \<subseteq> S" using S routed(1) by (simp add: tx_block_texts_def)
  from subapp_handling [OF h r this routed(3)] subapp_frame [OF routed(3)] routed(5) show ?thesis by simp
qed

lemma mux_txs_handling:
  assumes "mux_handling E view saved latest S h app (mx_commitFuncs app)" "fr_Height req = h"
    and "\<And>t. t \<in> set ts \<Longrightarrow> tx_block_texts (en_lib E) h t \<subseteq> S"
    and "mux_txs E req ts app = Ok (rs, app')"
  shows "mux_handling E view saved latest S h app' (mx_commitFuncs app') \<and> mux_preserved view app app'"
  using assms
proof (induction ts arbitrary: app rs)
  case (Cons t ts)
  then obtain r app1 rs1 where 1: "mux_tx E req t app = Ok (r, app1)" "mux_txs E req ts app1 = Ok (rs1, app')"
    by auto
  have h1: "mux_handling E view saved latest S h app1 (mx_commitFuncs app1)" and p1: "mux_preserved view app app1"
    using mux_tx_handling [OF Cons.prems(1,2) _ 1(1)] Cons.prems(3) by simp_all
  from Cons.IH [OF h1 Cons.prems(2) _ 1(2)] Cons.prems(3) p1 show ?case using mux_preserved_trans by auto
qed (simp add: mux_preserved_refl)

lemma mux_handling_committing:
  "mux_handling E view saved latest S h app cs \<Longrightarrow> mux_committing E view saved latest S h app cs"
  using ev_handling_committing [of "en_lib E" S "word_of_int h" view "mx_events app" cs]
  by (simp add: mux_handling_def mux_committing_def id_handling_def ret_handling_def)

lemma mux_commit_committing:
  assumes h: "mux_committing E view saved latest S h app (c # cs)" and f: "mux_commit E c app = Ok app'"
  shows "mux_committing E view saved latest S h app' cs \<and> mux_preserved view app app'"
proof -
  have inv: "iavl_laws (en_T E) view saved latest" "id_committing view (mx_identity app) (c # cs)"
      "ev_synced view saved latest (mx_events app)"
      "ev_committing (en_lib E) S (word_of_int h) view (mx_events app) (c # cs)" "ret_committing (mx_retention app) (c # cs)"
    using h by (simp_all add: mux_committing_def)
  consider (identity) i where "identity_commit (en_T E) c (mx_identity app) = Ok i" "app' = app\<lparr>mx_identity := i\<rparr>"
      "commit_events (c # cs) = commit_events cs" "commit_policies (c # cs) = commit_policies cs"
    | (events) e where "events_commit (en_T E) (en_lib E) c (mx_events app) = Ok e" "app' = app\<lparr>mx_events := e\<rparr>"
      "commit_principals (c # cs) = commit_principals cs" "seed_commits (c # cs) = seed_commits cs"
      "commit_policies (c # cs) = commit_policies cs"
    | (retention) p where "retention_commit (en_D E) c (mx_retention app) = Ok p" "app' = app\<lparr>mx_retention := p\<rparr>"
      "commit_principals (c # cs) = commit_principals cs" "seed_commits (c # cs) = seed_commits cs"
      "commit_events (c # cs) = commit_events cs"
    using f by (cases c) (auto simp: mux_commit_def)
  then show ?thesis
  proof cases
    case identity
    from id_committing_com [OF inv(1,2) identity(1)] h identity(2-) show ?thesis
      by (simp add: mux_committing_def mux_preserved_def ev_committing_cong [OF identity(3)]
          ret_committing_cong [OF identity(4)] policy_preserved_def)
  next
    case events
    from ev_committing_com [OF inv(1,3,4) events(1)] h events(2-) show ?thesis
      by (simp add: mux_committing_def mux_preserved_def id_committing_cong [OF events(3,4)]
          ret_committing_cong [OF events(5)] policy_preserved_def id_repo.preserves_refl)
  next
    case retention
    from ret_committing_com [OF inv(5) retention(1)] h retention(2-) show ?thesis
      by (simp add: mux_committing_def mux_preserved_def id_committing_cong [OF retention(3,4)]
          ev_committing_cong [OF retention(5)] id_repo.preserves_refl)
  qed
qed

lemma run_commits_committing:
  assumes "mux_committing E view saved latest S h app cs" "run_commits (mux_commit E) cs app = Ok app'"
  shows "mux_committing E view saved latest S h app' [] \<and> mux_preserved view app app'"
  using assms
proof (induction cs arbitrary: app)
  case (Cons c cs)
  then obtain app1 where 1: "mux_commit E c app = Ok app1" "run_commits (mux_commit E) cs app1 = Ok app'" by auto
  from mux_commit_committing [OF Cons.prems(1) 1(1)] Cons.IH [OF _ 1(2)] show ?case
    using mux_preserved_trans by blast
qed (simp add: mux_preserved_refl)

text \<open>The parts of a block, for the invariants that follow the transactions and then the commit functions.\<close>

lemma mux_blockE:
  assumes "mux_block E req app = Ok app'"
  obtains rs app1 app2 db where "mux_txs E req (fr_Txs req) (app\<lparr>mx_commitFuncs := []\<rparr>) = Ok (rs, app1)"
    "run_commits (mux_commit E) (mx_commitFuncs app1) (app1\<lparr>mx_state := (mx_state app1)\<lparr>st_Height := fr_Height req\<rparr>\<rparr>) = Ok app2"
    "app' = app2\<lparr>mx_db := db\<rparr>" "saveState (en_D E) (mx_db app2) (mx_state app2) = Ok db"
  using assms by (auto simp: mux_block_def mux_FinalizeBlock_def mux_Commit_def Let_def)

lemma mux_block_inv:
  assumes h: "mux_handling E view saved latest S (fr_Height req) app []"
    and S: "block_texts (en_lib E) req \<subseteq> S" and b: "mux_block E req app = Ok app'"
  shows "mux_committing E view saved latest S (fr_Height req) app' [] \<and> mux_preserved view app app'"
proof -
  obtain rs app1 app2 db where 1: "mux_txs E req (fr_Txs req) (app\<lparr>mx_commitFuncs := []\<rparr>) = Ok (rs, app1)"
    and 3: "run_commits (mux_commit E) (mx_commitFuncs app1)
      (app1\<lparr>mx_state := (mx_state app1)\<lparr>st_Height := fr_Height req\<rparr>\<rparr>) = Ok app2" "app' = app2\<lparr>mx_db := db\<rparr>"
    using b by (rule mux_blockE)
  have "mux_handling E view saved latest S (fr_Height req) (app\<lparr>mx_commitFuncs := []\<rparr>) (mx_commitFuncs (app\<lparr>mx_commitFuncs := []\<rparr>))"
    using h by simp
  moreover have "\<And>t. t \<in> set (fr_Txs req) \<Longrightarrow> tx_block_texts (en_lib E) (fr_Height req) t \<subseteq> S"
    using S by (auto simp: block_texts_def)
  ultimately have "mux_handling E view saved latest S (fr_Height req) app1 (mx_commitFuncs app1)" "mux_preserved view app app1"
    using mux_txs_handling [OF _ refl _ 1] by simp_all
  with run_commits_committing [OF mux_handling_committing 3(1)] 3(2) mux_preserved_trans [of view app app1 app2]
  show ?thesis by simp
qed

subsection \<open>Chains\<close>

text \<open>The heights of a chain increase, from the height \<open>h\<close> on, and are 64-bit numbers.\<close>

fun heights_from :: "int \<Rightarrow> RequestFinalizeBlock list \<Rightarrow> bool" where
  "heights_from h [] \<longleftrightarrow> True"
| "heights_from h (b # bs) \<longleftrightarrow> h < fr_Height b \<and> fr_Height b < 2 ^ 63 \<and> heights_from (fr_Height b) bs"

definition chain_texts :: "extlib \<Rightarrow> RequestFinalizeBlock list \<Rightarrow> bytes set" where
  "chain_texts lib bs = (\<Union>b \<in> set bs. block_texts lib b)"

text \<open>The state between two blocks: the events come from heights up to \<open>h\<close>.\<close>

definition chain_inv where
  "chain_inv E view saved latest S h app \<longleftrightarrow> 0 \<le> h \<and> mux_committing E view saved latest S h app []"

lemma word_of_int_less: "0 \<le> a \<Longrightarrow> a < b \<Longrightarrow> b < 2 ^ 63 \<Longrightarrow> (word_of_int a :: 64 word) < word_of_int b"
  by (simp add: word_less_alt uint_word_of_int)

lemma chain_inv_handling:
  assumes "chain_inv E view saved latest S h app" "h < h'" "h' < 2 ^ 63"
  shows "mux_handling E view saved latest S h' app []"
proof -
  have "(word_of_int h :: 64 word) < word_of_int h'" using assms by (intro word_of_int_less) (simp_all add: chain_inv_def)
  then have "w' \<le> word_of_int h \<Longrightarrow> w' < word_of_int h'" for w' :: "64 word" by simp
  then show ?thesis
    using assms(1) unfolding chain_inv_def mux_committing_def mux_handling_def
    by (auto simp: id_handling_def ev_handling_def ev_committing_def ret_handling_def) blast
qed

lemma run_chain_inv:
  assumes "chain_inv E view saved latest S h app" "heights_from h bs" "chain_texts (en_lib E) bs \<subseteq> S"
    and "run_chain E bs app = Ok app'"
  shows "mux_preserved view app app' \<and> chain_inv E view saved latest S (if bs = [] then h else fr_Height (last bs)) app'"
  using assms
proof (induction bs arbitrary: app h)
  case (Cons b bs)
  then obtain app1 where 1: "mux_block E b app = Ok app1" "run_chain E bs app1 = Ok app'" by auto
  have "mux_handling E view saved latest S (fr_Height b) app []"
    using Cons.prems(1,2) by (intro chain_inv_handling) auto
  moreover have "block_texts (en_lib E) b \<subseteq> S" using Cons.prems(3) by (auto simp: chain_texts_def)
  ultimately have "mux_committing E view saved latest S (fr_Height b) app1 []" and p: "mux_preserved view app app1"
    using mux_block_inv [OF _ _ 1(1)] by blast+
  then have "chain_inv E view saved latest S (fr_Height b) app1"
    using Cons.prems(1,2) by (auto simp: chain_inv_def)
  from Cons.IH [OF this _ _ 1(2)] Cons.prems(2,3) p show ?case
    using mux_preserved_trans by (auto simp: chain_texts_def)
qed (auto simp: mux_preserved_refl)

subsection \<open>Where stored events come from\<close>

text \<open>
  An event is authentic when a transaction of the chain carries it, signed with a signature that
  validates under the key registered for its principal.
\<close>

definition authentic where
  "authentic lib view ids txs e \<longleftrightarrow> (\<exists>t \<in> txs. \<exists>d payload signer r.
     tx_Unmarshal t = Ok d \<and> mx_App d = events_AppName
     \<and> json_Unmarshal SignedPayload_of_json (mx_Data d) = Ok payload
     \<and> id_entry view ids (sp_Principal payload) = Some signer
     \<and> ValidateSignature lib payload (id_PublicKey signer) = Ok True
     \<and> json_Unmarshal (CreateRequest_of_json lib) (pl_Data (sp_Payload payload)) = Ok r
     \<and> em_ScrubbedEvent e = cr_Event r \<and> md_Principal (em_Metadata e) = sp_Principal payload)"

definition auth_inv where
  "auth_inv E view txs app cs \<longleftrightarrow>
     (\<forall>k j. view (ea_tree (mx_events app)) k = Some j \<longrightarrow>
        (\<exists>e. j = EventWithMetadata_json (en_lib E) e \<and> md_EventId (em_Metadata e) = k
          \<and> authentic (en_lib E) view (ia_tree (mx_identity app)) txs e))
     \<and> (\<forall>e. CommitEvent e \<in> set cs \<longrightarrow> authentic (en_lib E) view (ia_tree (mx_identity app)) txs e)"

lemma authentic_mono:
  assumes "authentic lib view (ia_tree a) txs e" "id_preserved view a b" "txs \<subseteq> txs'"
  shows "authentic lib view (ia_tree b) txs' e"
proof -
  have "id_entry view (ia_tree b) p = Some d" if "id_entry view (ia_tree a) p = Some d" for p d
    using that assms(2) id_repo.entry_present [OF that] by (simp add: identities_preserved_def)
  then show ?thesis using assms(1,3) unfolding authentic_def by (meson subsetD)
qed

text \<open>The invariant moves along when the identities are kept and no event is added.\<close>

lemma auth_inv_mono:
  assumes "auth_inv E view txs a cs" "mux_preserved view a b" "txs \<subseteq> txs'" "set ds \<subseteq> set cs"
    and "view (ea_tree (mx_events b)) = view (ea_tree (mx_events a))"
  shows "auth_inv E view txs' b ds"
proof -
  have m: "authentic (en_lib E) view (ia_tree (mx_identity a)) txs e \<Longrightarrow> authentic (en_lib E) view (ia_tree (mx_identity b)) txs' e" for e
    using authentic_mono assms(2,3) by (auto simp: mux_preserved_def)
  show ?thesis unfolding auth_inv_def assms(5)
  proof (intro conjI allI impI)
    fix k j assume "view (ea_tree (mx_events a)) k = Some j"
    then show "\<exists>e. j = EventWithMetadata_json (en_lib E) e \<and> md_EventId (em_Metadata e) = k
        \<and> authentic (en_lib E) view (ia_tree (mx_identity b)) txs' e"
      using assms(1) m unfolding auth_inv_def by meson
  next
    fix e assume "CommitEvent e \<in> set ds"
    then have "authentic (en_lib E) view (ia_tree (mx_identity a)) txs e"
      using assms(1,4) by (auto simp: auth_inv_def)
    then show "authentic (en_lib E) view (ia_tree (mx_identity b)) txs' e" by (rule m)
  qed
qed

lemma auth_tx:
  assumes h: "mux_handling E view saved latest S h app (mx_commitFuncs app)" and r: "fr_Height req = h"
    and S: "tx_block_texts (en_lib E) h t \<subseteq> S"
    and f: "mux_tx E req t app = Ok (res, app')" and a: "auth_inv E view txs app (mx_commitFuncs app)" and t: "t \<in> txs"
  shows "auth_inv E view txs app' (mx_commitFuncs app')"
proof -
  have p: "mux_preserved view app app'" using mux_tx_handling [OF h r S f] by simp
  have laws: "iavl_laws (en_T E) view saved latest" and sync: "ev_synced view saved latest (mx_events app)"
    using h by (simp_all add: mux_handling_def)
  from f show ?thesis
  proof (cases rule: mux_tx_cases)
    case rejected
    with a show ?thesis by simp
  next
    case (routed d s resp app1)
    note frame = subapp_frame [OF routed(3)]
    show ?thesis
    proof (cases "s = Events")
      case True
      then obtain e where e: "events_FinalizeBlock (en_T E) (en_lib E) (ia_tree (mx_identity app)) req (mx_Data d) (mx_events app) = Ok (resp, e)"
          "app1 = app\<lparr>mx_events := e\<rparr>" using routed(3) by auto
      have v: "view (ea_tree (mx_events app')) = view (ea_tree (mx_events app))"
        using events_fin_view [OF laws sync e(1)] e(2) routed(5) by simp
      have n: "mx_App d = events_AppName"
        using routed(2) True by (auto simp: lookup_app_def split: if_split_asm)
      have "authentic (en_lib E) view (ia_tree (mx_identity app)) txs x" if "CommitEvent x \<in> set (commit_of resp)" for x
      proof -
        have "fb_CommitFunc resp = Some (CommitEvent x)" using that by (auto simp: commit_of_def split: option.split_asm)
        from events_prepared [OF laws e(1) this] obtain payload signer r where
          "json_Unmarshal SignedPayload_of_json (mx_Data d) = Ok payload"
          "id_entry view (ia_tree (mx_identity app)) (sp_Principal payload) = Some signer"
          "ValidateSignature (en_lib E) payload (id_PublicKey signer) = Ok True"
          "json_Unmarshal (CreateRequest_of_json (en_lib E)) (pl_Data (sp_Payload payload)) = Ok r"
          "em_ScrubbedEvent x = cr_Event r" "md_Principal (em_Metadata x) = sp_Principal payload"
          by auto
        with routed(1) n t show ?thesis unfolding authentic_def
          by (intro bexI [of _ t] exI [of _ d] exI [of _ payload] exI [of _ signer] exI [of _ r]) simp_all
      qed
      then have "auth_inv E view txs app (mx_commitFuncs app @ commit_of resp)" using a by (auto simp: auth_inv_def)
      from auth_inv_mono [OF this p subset_refl _ v, of "mx_commitFuncs app'"] routed(5) frame show ?thesis by simp
    next
      case False
      have k: "commit_events (commit_of resp) = [] \<and> mx_events app' = mx_events app"
      proof (cases s)
        case Identity
        then obtain i where i: "identity_FinalizeBlock (en_T E) (en_lib E) (mx_Data d) (mx_identity app) = Ok (resp, i)"
            "mx_events app1 = mx_events app" using routed(3) by auto
        with identity_commit_kind [OF i(1)] routed(5) show ?thesis by simp
      next
        case Retention
        then obtain i where i: "retention_FinalizeBlock (en_T E) (en_lib E) (en_hs E) (ia_tree (mx_identity app)) req (mx_Data d)
            (mx_retention app) = Ok (resp, i)" "mx_events app1 = mx_events app" using routed(3) by auto
        with retention_commit_kind [OF i(1)] routed(5) show ?thesis by simp
      qed (use False in simp)
      then have "CommitEvent x \<notin> set (commit_of resp)" for x
        by (auto simp: commit_of_def split: option.split_asm)
      with a have a': "auth_inv E view txs app (mx_commitFuncs app @ commit_of resp)" by (auto simp: auth_inv_def)
      have "view (ea_tree (mx_events app')) = view (ea_tree (mx_events app))" using k by simp
      from auth_inv_mono [OF a' p subset_refl _ this, of "mx_commitFuncs app'"] routed(5) frame show ?thesis by simp
    qed
  qed
qed

lemma auth_txs:
  assumes "mux_handling E view saved latest S h app (mx_commitFuncs app)" "fr_Height req = h"
    and "\<And>t. t \<in> set ts \<Longrightarrow> tx_block_texts (en_lib E) h t \<subseteq> S"
    and "mux_txs E req ts app = Ok (rs, app')" "auth_inv E view txs app (mx_commitFuncs app)" "set ts \<subseteq> txs"
  shows "auth_inv E view txs app' (mx_commitFuncs app')"
  using assms
proof (induction ts arbitrary: app rs)
  case (Cons t ts)
  then obtain r app1 rs1 where 1: "mux_tx E req t app = Ok (r, app1)" "mux_txs E req ts app1 = Ok (rs1, app')"
    by auto
  have t: "tx_block_texts (en_lib E) h t \<subseteq> S" using Cons.prems(3) by simp
  have "mux_handling E view saved latest S h app1 (mx_commitFuncs app1)"
    using mux_tx_handling [OF Cons.prems(1,2) t 1(1)] by simp
  moreover have "auth_inv E view txs app1 (mx_commitFuncs app1)"
    using auth_tx [OF Cons.prems(1,2) t 1(1) Cons.prems(5)] Cons.prems(6) by simp
  ultimately show ?case using Cons.IH [OF _ Cons.prems(2) _ 1(2)] Cons.prems(3,6) by simp
qed simp

lemma auth_commit:
  assumes h: "mux_committing E view saved latest S h app (c # cs)" and f: "mux_commit E c app = Ok app'"
    and a: "auth_inv E view txs app (c # cs)"
  shows "auth_inv E view txs app' cs"
proof -
  have laws: "iavl_laws (en_T E) view saved latest" using h by (simp add: mux_committing_def)
  have p: "mux_preserved view app app'" using mux_commit_committing [OF h f] by simp
  show ?thesis
  proof (cases "\<exists>e. c = CommitEvent e")
    case True
    then obtain e where c: "c = CommitEvent e" by blast
    then obtain ev where e: "events_commit (en_T E) (en_lib E) (CommitEvent e) (mx_events app) = Ok ev" "app' = app\<lparr>mx_events := ev\<rparr>"
      using f by (auto simp: mux_commit_def)
    have "view (ea_tree ev) = (view (ea_tree (mx_events app)))(md_EventId (em_Metadata e) \<mapsto> EventWithMetadata_json (en_lib E) e)"
      using events_commit_event [OF laws e(1)] by simp
    then show ?thesis using a e(2) c by (auto simp: auth_inv_def)
  next
    case False
    then have "mx_events app' = mx_events app" using f by (cases c) (auto simp: mux_commit_def)
    with a p show ?thesis by (intro auth_inv_mono [OF a p]) auto
  qed
qed

lemma auth_commits:
  assumes "mux_committing E view saved latest S h app cs" "run_commits (mux_commit E) cs app = Ok app'"
    and "auth_inv E view txs app cs"
  shows "auth_inv E view txs app' []"
  using assms
proof (induction cs arbitrary: app)
  case (Cons c cs)
  then obtain app1 where 1: "mux_commit E c app = Ok app1" "run_commits (mux_commit E) cs app1 = Ok app'" by auto
  from mux_commit_committing [OF Cons.prems(1) 1(1)] auth_commit [OF Cons.prems(1) 1(1) Cons.prems(3)]
  show ?case using Cons.IH [OF _ 1(2)] by simp
qed simp

lemma auth_inv_simps [simp]:
  "auth_inv E view txs (app\<lparr>mx_commitFuncs := ds\<rparr>) cs = auth_inv E view txs app cs"
  "auth_inv E view txs (app\<lparr>mx_state := s\<rparr>) cs = auth_inv E view txs app cs"
  "auth_inv E view txs (app\<lparr>mx_db := db\<rparr>) cs = auth_inv E view txs app cs"
  by (simp_all add: auth_inv_def)

lemma auth_block:
  assumes h: "mux_handling E view saved latest S (fr_Height req) app []"
    and S: "block_texts (en_lib E) req \<subseteq> S" and b: "mux_block E req app = Ok app'" and a: "auth_inv E view txs app []"
  shows "auth_inv E view (txs \<union> set (fr_Txs req)) app' []"
proof -
  let ?app = "app\<lparr>mx_commitFuncs := []\<rparr>" and ?txs = "txs \<union> set (fr_Txs req)"
  obtain rs app1 app2 db where 1: "mux_txs E req (fr_Txs req) ?app = Ok (rs, app1)"
      "run_commits (mux_commit E) (mx_commitFuncs app1) (app1\<lparr>mx_state := (mx_state app1)\<lparr>st_Height := fr_Height req\<rparr>\<rparr>) = Ok app2"
      "app' = app2\<lparr>mx_db := db\<rparr>"
    using b by (rule mux_blockE)
  have h': "mux_handling E view saved latest S (fr_Height req) ?app (mx_commitFuncs ?app)" using h by simp
  have S': "\<And>t. t \<in> set (fr_Txs req) \<Longrightarrow> tx_block_texts (en_lib E) (fr_Height req) t \<subseteq> S"
    using S by (auto simp: block_texts_def)
  have "auth_inv E view ?txs ?app (mx_commitFuncs ?app)"
    using a by (intro auth_inv_mono [OF a mux_preserved_refl, THEN auth_inv_simps(1) [THEN iffD2]]) auto
  from auth_txs [OF h' refl S' 1(1) this] have "auth_inv E view ?txs app1 (mx_commitFuncs app1)" by simp
  moreover have "mux_committing E view saved latest S (fr_Height req)
      (app1\<lparr>mx_state := (mx_state app1)\<lparr>st_Height := fr_Height req\<rparr>\<rparr>) (mx_commitFuncs app1)"
    using mux_txs_handling [OF h' refl S' 1(1)] by (intro mux_handling_committing) simp
  ultimately show ?thesis using auth_commits [OF _ 1(2)] 1(3) by simp
qed

lemma run_chain_auth:
  assumes "chain_inv E view saved latest S h app" "heights_from h bs" "chain_texts (en_lib E) bs \<subseteq> S"
    and "run_chain E bs app = Ok app'" "auth_inv E view txs app []"
  shows "auth_inv E view (txs \<union> (\<Union>b \<in> set bs. set (fr_Txs b))) app' []"
  using assms
proof (induction bs arbitrary: app h txs)
  case (Cons b bs)
  then obtain app1 where 1: "mux_block E b app = Ok app1" "run_chain E bs app1 = Ok app'" by auto
  have h: "mux_handling E view saved latest S (fr_Height b) app []"
    using Cons.prems(1,2) by (intro chain_inv_handling) auto
  have t: "block_texts (en_lib E) b \<subseteq> S" "chain_texts (en_lib E) bs \<subseteq> S"
    using Cons.prems(3) by (auto simp: chain_texts_def)
  have "chain_inv E view saved latest S (fr_Height b) app1"
    using mux_block_inv [OF h t(1) 1(1)] Cons.prems(1,2) by (simp add: chain_inv_def)
  moreover have "heights_from (fr_Height b) bs" using Cons.prems(2) by simp
  ultimately have "auth_inv E view ((txs \<union> set (fr_Txs b)) \<union> (\<Union>b \<in> set bs. set (fr_Txs b))) app' []"
    using Cons.IH [OF _ _ t(2) 1(2) auth_block [OF h t(1) 1(1) Cons.prems(5)]] by simp
  then show ?case by (simp add: Un_assoc)
qed simp

lemma heights_from_append:
  "heights_from h (bs @ cs) \<longleftrightarrow> heights_from h bs \<and> heights_from (if bs = [] then h else fr_Height (last bs)) cs"
  by (induction h bs rule: heights_from.induct) auto

text \<open>The state of a node before the first block: nothing is stored.\<close>

definition genesis where
  "genesis view saved latest app \<longleftrightarrow> view (ia_tree (mx_identity app)) = Map.empty
     \<and> view (ea_tree (mx_events app)) = Map.empty \<and> ev_synced view saved latest (mx_events app)
     \<and> ra_policy (mx_retention app) = None"

lemma genesis_inv:
  assumes "iavl_laws (en_T E) view saved latest" "inj_on (sha256 (en_lib E)) S" "genesis view saved latest app"
  shows "chain_inv E view saved latest S 0 app" "auth_inv E view {} app []"
  using assms
  by (simp_all add: chain_inv_def mux_committing_def genesis_def auth_inv_def id_committing_def id_present_def
      ev_committing_def ret_committing_def)

text \<open>A block with one transaction, for the events application.\<close>

lemma mux_block_single:
  assumes "fr_Txs req = [t]" "tx_Unmarshal t = Ok d" "lookup_app (mx_App d) = Some Events"
    and f: "events_FinalizeBlock (en_T E) (en_lib E) (ia_tree (mx_identity app)) req (mx_Data d) (mx_events app) = Ok (res, ev)"
    and c: "fb_CommitFunc res = Some (CommitEvent x)" and e: "events_commit (en_T E) (en_lib E) (CommitEvent x) ev = Ok ev'"
    and db: "\<And>d k v. is_ok (db_Set (en_D E) d k v)"
  shows "\<exists>resp app1 app'. mux_FinalizeBlock E req app = Ok (resp, app1) \<and> rf_TxResults resp = [fb_TxResult res]
    \<and> mux_block E req app = Ok app' \<and> mx_events app' = ev'"
proof -
  define app1 where "app1 = set_hash (subapp_Name Events) (fb_AppHash res) (app\<lparr>mx_events := ev, mx_commitFuncs := [CommitEvent x]\<rparr>)"
  define app2 where "app2 = app1\<lparr>mx_state := (mx_state app1)\<lparr>st_Height := fr_Height req\<rparr>\<rparr>"
  have "mux_txs E req (fr_Txs req) (app\<lparr>mx_commitFuncs := []\<rparr>) = Ok ([fb_TxResult res], app1)"
    using assms(1-5) by (simp add: mux_tx_def commit_of_def app1_def Let_def)
  then have 1: "mux_FinalizeBlock E req app = Ok (\<lparr>rf_TxResults = [fb_TxResult res],
      rf_ValidatorUpdates = punish (mx_validators app) (fr_Misbehavior req), rf_AppHash = GenerateAppHash (en_lib E) (mx_state app2)\<rparr>, app2)"
    by (simp add: mux_FinalizeBlock_def app2_def Let_def)
  have 2: "run_commits (mux_commit E) (mx_commitFuncs app2) app2 = Ok (app2\<lparr>mx_events := ev'\<rparr>)"
    using e by (simp add: app2_def app1_def mux_commit_def set_hash_def)
  obtain db' where "saveState (en_D E) (mx_db app2) (mx_state app2) = Ok db'"
    using db unfolding is_ok_iff saveState_def Must_def by (metis on_err_simps(1))
  with 1 2 show ?thesis by (simp add: mux_block_def mux_Commit_def Let_def)
qed

subsection \<open>Properties\<close>

text \<open>
  C2. What a chain has stored stays stored. A chain that starts from an empty node and continues with
  further blocks of increasing height keeps every identity with its key and role, every event record,
  and the retention policy, whatever the transactions in the blocks are. The only assumption on
  SHA-256 is that the texts hashed for the events of this chain do not collide.
\<close>

theorem chain_immutable:
  assumes "iavl_laws (en_T E) view saved latest" "genesis view saved latest app0"
    and "heights_from 0 (bs @ cs)" "inj_on (sha256 (en_lib E)) (chain_texts (en_lib E) (bs @ cs))"
    and "run_chain E bs app0 = Ok app1" "run_chain E cs app1 = Ok app2"
  shows "(\<forall>p d. id_entry view (ia_tree (mx_identity app1)) p = Some d \<longrightarrow> id_entry view (ia_tree (mx_identity app2)) p = Some d)
    \<and> (\<forall>k j. view (ea_tree (mx_events app1)) k = Some j \<longrightarrow> view (ea_tree (mx_events app2)) k = Some j)
    \<and> (\<forall>q. ra_policy (mx_retention app1) = Some q \<longrightarrow> ra_policy (mx_retention app2) = Some q)"
proof -
  let ?S = "chain_texts (en_lib E) (bs @ cs)"
  let ?h = "if bs = [] then 0 else fr_Height (last bs)"
  note g = genesis_inv [OF assms(1,4,2)]
  have h: "heights_from 0 bs" "heights_from ?h cs" using assms(3) by (simp_all add: heights_from_append)
  have t: "chain_texts (en_lib E) bs \<subseteq> ?S" "chain_texts (en_lib E) cs \<subseteq> ?S" by (auto simp: chain_texts_def)
  have "chain_inv E view saved latest ?S ?h app1" using run_chain_inv [OF g(1) h(1) t(1) assms(5)] by simp
  from run_chain_inv [OF this h(2) t(2) assms(6)] have p: "mux_preserved view app1 app2" by simp
  have "id_entry view (ia_tree (mx_identity app2)) q = Some d" if "id_entry view (ia_tree (mx_identity app1)) q = Some d" for q d
    using p that id_repo.entry_present [OF that] by (simp add: mux_preserved_def identities_preserved_def)
  moreover have "view (ea_tree (mx_events app2)) k = Some j" if "view (ea_tree (mx_events app1)) k = Some j" for k j
    using p that unfolding mux_preserved_def map_le_def by (metis domI)
  ultimately show ?thesis using p by (auto simp: mux_preserved_def policy_preserved_def)
qed

text \<open>
  C3. Every stored event is authentic. In a chain that starts from an empty node, each record of the
  events tree is the encoding of an event, stored under its own identifier, which some transaction of
  the chain carries for the events application, and the signature of that transaction validates under
  the key that is registered for the event's principal.
\<close>

theorem stored_events_authentic:
  assumes "iavl_laws (en_T E) view saved latest" "genesis view saved latest app0"
    and "heights_from 0 bs" "inj_on (sha256 (en_lib E)) (chain_texts (en_lib E) bs)"
    and "run_chain E bs app0 = Ok app" "view (ea_tree (mx_events app)) k = Some j"
  shows "\<exists>e. j = EventWithMetadata_json (en_lib E) e \<and> md_EventId (em_Metadata e) = k
    \<and> authentic (en_lib E) view (ia_tree (mx_identity app)) (\<Union>b \<in> set bs. set (fr_Txs b)) e"
proof -
  note g = genesis_inv [OF assms(1,4,2)]
  from run_chain_auth [OF g(1) assms(3) subset_refl assms(5) g(2)] assms(6) show ?thesis
    by (auto simp: auth_inv_def)
qed

text \<open>A block with the create request of a registered principal.\<close>

lemma create_request_stored:
  assumes laws: "iavl_laws (en_T E) view saved latest" and total: "iavl_total (en_T E)"
    and db: "\<And>d k v. is_ok (db_Set (en_D E) d k v)"
    and wf: "uuid_laws (en_lib E)" "Event_wf (sc_Event (cr_Event r))" "length (cr_Nonce r) = 16"
    and reg: "id_entry view (ia_tree (mx_identity app)) p = Some d" "length (id_PublicKey d) = 32" "length key = 64"
    and pair: "\<And>m. ed25519_verify (en_lib E) (id_PublicKey d) m (ed25519_sign (en_lib E) key m)"
    and i: "i = sha256 (en_lib E) (event_text (en_lib E) (word_of_int h) p (sc_Event (cr_Event r)))"
    and new: "TxHash_String i \<notin> set (ea_creating (mx_events app))"
  shows "\<exists>j app' resp app1. Builder_Marshal (en_lib E) (Builder_Signed p key (Builder_App events_AppName
        (Builder_Data RequestTypeCreate (CreateRequest_json (en_lib E) r) NewBuilder))) = Ok j
    \<and> mux_FinalizeBlock E \<lparr>fr_Txs = [TxJson j], fr_Misbehavior = [], fr_Height = h, fr_Time = t\<rparr> app = Ok (resp, app1)
    \<and> map tr_Code (rf_TxResults resp) = [CodeOk]
    \<and> mux_block E \<lparr>fr_Txs = [TxJson j], fr_Misbehavior = [], fr_Height = h, fr_Time = t\<rparr> app = Ok app'
    \<and> GetByEventId (en_T E) (en_lib E) (ea_tree (mx_events app')) i = Ok \<lparr>em_ScrubbedEvent = cr_Event r,
         em_Metadata = \<lparr>md_EventId = i, ReceivedTime = t, md_Principal = p\<rparr>\<rparr>"
proof -
  let ?lib = "en_lib E" and ?T = "en_T E"
  obtain j inner pl where j: "Builder_Marshal ?lib (Builder_Signed p key (Builder_App events_AppName
        (Builder_Data RequestTypeCreate (CreateRequest_json ?lib r) NewBuilder))) = Ok j"
      "MuxedRequest_of_json j = Ok \<lparr>mx_App = events_AppName, mx_Data = Some inner\<rparr>" "SignedPayload_of_json inner = Ok pl"
      "pl_Type (sp_Payload pl) = RequestTypeCreate" "pl_Data (sp_Payload pl) = Some (CreateRequest_json ?lib r)"
      "sp_Principal pl = p" "ValidateSignature ?lib pl (id_PublicKey d) = Ok True"
    using signed_request_decodes [where d = "CreateRequest_json ?lib r" and app = events_AppName and signer = p,
        OF _ reg(3,2) pair, of RequestTypeCreate] by (auto simp: RequestTypeCreate_def)
  let ?req = "\<lparr>fr_Txs = [TxJson j], fr_Misbehavior = [], fr_Height = h, fr_Time = t\<rparr>"
  obtain res ev where f: "events_FinalizeBlock ?T ?lib (ia_tree (mx_identity app)) ?req (Some inner) (mx_events app) = Ok (res, ev)"
      "tr_Code (fb_TxResult res) = CodeOk" "fb_CommitFunc res = Some (CommitEvent (create_event ?req pl r i))"
    using events_create_accepted [OF laws total, of "Some inner" pl "ia_tree (mx_identity app)" d ?lib r i ?req "mx_events app"]
      j(3-7) reg(1) i new CreateRequest_json_roundtrip [OF wf] by (auto simp: json_Unmarshal_def)
  obtain ev' where c: "events_commit ?T ?lib (CommitEvent (create_event ?req pl r i)) ev = Ok ev'"
    using events_commit_total [OF total] by blast
  have l: "lookup_app events_AppName = Some Events"
    by (simp add: lookup_app_def events_AppName_def identity_AppName_def)
  have "tx_Unmarshal (TxJson j) = Ok \<lparr>mx_App = events_AppName, mx_Data = Some inner\<rparr>" using j(2) by (simp add: tx_Unmarshal_def)
  from mux_block_single [OF _ this _ _ f(3) c db, of ?req] f(1) l
  have "\<exists>resp app1 app'. mux_FinalizeBlock E ?req app = Ok (resp, app1) \<and> rf_TxResults resp = [fb_TxResult res]
    \<and> mux_block E ?req app = Ok app' \<and> mx_events app' = ev'" by simp
  moreover have "GetByEventId ?T ?lib (ea_tree ev') i = Ok (create_event ?req pl r i)"
    using events_commit_readable [OF laws total wf(1) _ c] wf(2) by (simp add: create_event_def)
  ultimately show ?thesis using j(1,6) f(2) by (auto simp: create_event_def)
qed


subsection \<open>A small chain\<close>

text \<open>A block that seeds the administrator, and a block in which the administrator creates an event.\<close>

definition demo_seed_tx :: tx where
  "demo_seed_tx = TxJson (MuxedRequest_json \<lparr>mx_App = identity_AppName, mx_Data = Some (SignedPayload_json
     \<lparr>sp_Payload = \<lparr>pl_Type = RequestTypeSeed, pl_Data = Some (PayloadSeed_MarshalJSON \<lparr>ps_Principal = ''root'', ps_Key = replicate 32 3\<rparr>)\<rparr>,
       sp_Principal = [], sp_Signature = []\<rparr>)\<rparr>)"

definition demo_create_tx :: tx where
  "demo_create_tx = TxJson (MuxedRequest_json \<lparr>mx_App = events_AppName, mx_Data = Some demo_create\<rparr>)"

definition demo_chain :: "RequestFinalizeBlock list" where
  "demo_chain = [\<lparr>fr_Txs = [demo_seed_tx], fr_Misbehavior = [], fr_Height = 1, fr_Time = 10\<rparr>,
     \<lparr>fr_Txs = [demo_create_tx], fr_Misbehavior = [], fr_Height = 2, fr_Time = 20\<rparr>]"

lemma demo_chain_run:
  "(case run_chain demo_env demo_chain demo_mux of
      Ok app \<Rightarrow> mem_view (ea_tree (mx_events app)) (PutUint64 2 @ replicate 24 0) \<noteq> None
    | _ \<Rightarrow> False)"
  by code_simp

lemma demo_hash_text [simp]: "demo_hash (PutUint64 h @ b) = PutUint64 h @ replicate 24 0"
proof (cases "drop 7 (PutUint64 h @ b)")
  case Nil
  then have "length (PutUint64 h @ b) \<le> 7" by (simp only: drop_eq_Nil)
  then show ?thesis by simp
qed (simp add: demo_hash_def)

lemma demo_texts:
  assumes "x \<in> tx_block_texts lib h t"
  shows "demo_hash x = PutUint64 (word_of_int h) @ replicate 24 0" "y \<in> tx_block_texts lib h t \<Longrightarrow> x = y"
  using assms
  by (auto simp: tx_block_texts_def tx_texts_def event_text_def split: res.split_asm)

lemma demo_chain_inj: "inj_on (sha256 (en_lib demo_env)) (chain_texts (en_lib demo_env) demo_chain)"
proof -
  have "(1 :: 64 word) \<noteq> 2" by simp
  then have "PutUint64 1 \<noteq> PutUint64 2" by (metis Uint64_PutUint64)
  then show ?thesis using demo_texts
    by (auto simp: inj_on_def chain_texts_def block_texts_def demo_chain_def demo_env_def)
qed

lemma demo_genesis: "genesis mem_view mem_saved mem_latest demo_mux"
  by (simp add: genesis_def demo_mux_def mem_view_def mem_empty_def ev_synced_def mem_latest_def mem_saved_def)

lemma demo_laws: "iavl_laws (en_T demo_env) mem_view mem_saved mem_latest"
  using mem_iavl_laws by (simp add: demo_env_def)

lemma demo_heights: "heights_from 0 demo_chain"
  by (simp add: demo_chain_def)

theorem chain_immutable_witness:
  "\<exists>app1 app2. run_chain demo_env [hd demo_chain] demo_mux = Ok app1 \<and> run_chain demo_env (tl demo_chain) app1 = Ok app2
    \<and> (\<forall>p d. id_entry mem_view (ia_tree (mx_identity app1)) p = Some d \<longrightarrow> id_entry mem_view (ia_tree (mx_identity app2)) p = Some d)"
proof -
  have d: "demo_chain = [hd demo_chain] @ tl demo_chain" by (simp add: demo_chain_def)
  obtain app2 where "run_chain demo_env ([hd demo_chain] @ tl demo_chain) demo_mux = Ok app2"
    using demo_chain_run unfolding d [symmetric] by (auto split: res.split_asm)
  then obtain app1 where 1: "run_chain demo_env [hd demo_chain] demo_mux = Ok app1" "run_chain demo_env (tl demo_chain) app1 = Ok app2"
    by (auto simp: bind_res_def split: res.split_asm)
  have "heights_from 0 ([hd demo_chain] @ tl demo_chain)" using demo_heights d by metis
  moreover have "inj_on (sha256 (en_lib demo_env)) (chain_texts (en_lib demo_env) ([hd demo_chain] @ tl demo_chain))"
    using demo_chain_inj d by metis
  ultimately show ?thesis using chain_immutable [OF demo_laws demo_genesis _ _ 1] 1 by blast
qed

theorem stored_events_authentic_witness:
  "\<exists>app e. run_chain demo_env demo_chain demo_mux = Ok app
    \<and> mem_view (ea_tree (mx_events app)) (PutUint64 2 @ replicate 24 0) = Some (EventWithMetadata_json (en_lib demo_env) e)
    \<and> authentic (en_lib demo_env) mem_view (ia_tree (mx_identity app)) {demo_seed_tx, demo_create_tx} e"
proof -
  obtain app j where 1: "run_chain demo_env demo_chain demo_mux = Ok app" "mem_view (ea_tree (mx_events app)) (PutUint64 2 @ replicate 24 0) = Some j"
    using demo_chain_run by (auto split: res.split_asm)
  have "(\<Union>b \<in> set demo_chain. set (fr_Txs b)) = {demo_seed_tx, demo_create_tx}" by (auto simp: demo_chain_def)
  with stored_events_authentic [OF demo_laws demo_genesis demo_heights demo_chain_inj 1] 1 show ?thesis by auto
qed

definition demo_app :: "(mem_tree, (bytes \<times> json) list) MultiplexedApplication" where
  "demo_app = demo_mux\<lparr>mx_identity := demo_identities\<rparr>"

definition demo_request :: CreateRequest where
  "demo_request = \<lparr>cr_Event = \<lparr>OffChainHash = ''00'', sc_Event = demo_event\<rparr>, cr_Nonce = replicate 16 0\<rparr>"


end
