(* ===== verification/Pool.thy ===== *)
theory Pool
  imports Prelude "HOL-Library.Multiset"
begin

section \<open>The round-robin connection pool (common/pkg/pool)\<close>

text \<open>
  The pool hands out the live connections in turn, moves a connection that fails its test to the dead
  connections and moves it back when it passes again. One operation runs at a time here, as under the
  pool's mutex; the test of a connection (\<open>test\<close>) and the time at which a connection is looked at
  (\<open>clock\<close>, nanoseconds) are arguments. A Go slice is a list; where the code cuts an element out of a
  slice while it iterates over the same backing array, the array is kept explicitly.
\<close>

record 'a Pool =
  p_idx :: nat
  p_conns :: "'a list"
  p_deadConns :: "'a list"
  p_lastTestTime :: "'a \<rightharpoonup> int"
  p_livenessValidThreshold :: int

record 'a PoolConfig =
  pc_LivenessValidThreshold :: int
  pc_TestFunc :: "('a \<Rightarrow> bool) option"

subsection \<open>Operations\<close>

text \<open>\<^verbatim>\<open>Add\<close>: every connection comes with the time at which its test has ended.\<close>

fun add_times :: "('a \<times> int) list \<Rightarrow> ('a \<rightharpoonup> int) \<Rightarrow> ('a \<rightharpoonup> int)" where
  "add_times [] m = m"
| "add_times ((c, now) # cs) m = add_times cs (m(c \<mapsto> now))"

definition pool_Add :: "('a \<Rightarrow> bool) \<Rightarrow> ('a \<times> int) list \<Rightarrow> 'a Pool \<Rightarrow> 'a Pool" where
  "pool_Add test conn p =
     (let alive = filter test (map fst conn); dead = filter (\<lambda>c. \<not> test c) (map fst conn)
      in p\<lparr>p_conns := p_conns p @ alive, p_deadConns := p_deadConns p @ dead,
           p_lastTestTime := add_times conn (p_lastTestTime p)\<rparr>)"

definition NewPool :: "('a \<times> int) list \<Rightarrow> 'a PoolConfig \<Rightarrow> 'a Pool" where
  "NewPool conns config =
     (let test = (case pc_TestFunc config of None \<Rightarrow> \<lambda>_. True | Some f \<Rightarrow> f);
          pool = \<lparr>p_idx = 0, p_conns = [], p_deadConns = [], p_lastTestTime = Map.empty,
                  p_livenessValidThreshold = pc_LivenessValidThreshold config\<rparr>
      in if 0 < length conns then pool_Add test conns pool else pool)"

text \<open>\<^verbatim>\<open>append(s[:i], s[i+1:]...)\<close>, and the first position of an element.\<close>

definition cut :: "nat \<Rightarrow> 'a list \<Rightarrow> 'a list" where
  "cut i s = take i s @ drop (Suc i) s"

fun index_of :: "'a \<Rightarrow> 'a list \<Rightarrow> nat option" where
  "index_of conn [] = None"
| "index_of conn (c # cs) = (if c = conn then Some 0 else map_option Suc (index_of conn cs))"

definition pool_Remove :: "'a \<Rightarrow> 'a Pool \<Rightarrow> 'a Pool" where
  "pool_Remove conn p = (case index_of conn (p_conns p) of
     Some i \<Rightarrow> p\<lparr>p_conns := cut i (p_conns p)\<rparr>
   | None \<Rightarrow> (case index_of conn (p_deadConns p) of
       Some i \<Rightarrow> p\<lparr>p_deadConns := cut i (p_deadConns p)\<rparr>
     | None \<Rightarrow> p))"

text \<open>\<^verbatim>\<open>lastTested, ok := p.lastTestTime[conn]; ok && time.Since(lastTested) <= threshold\<close>.\<close>

definition recently_tested :: "('a \<Rightarrow> int) \<Rightarrow> 'a Pool \<Rightarrow> 'a \<Rightarrow> bool" where
  "recently_tested clock p conn = (case p_lastTestTime p conn of
     None \<Rightarrow> False | Some lastTested \<Rightarrow> clock conn - lastTested \<le> p_livenessValidThreshold p)"

function pool_Get :: "('a \<Rightarrow> bool) \<Rightarrow> ('a \<Rightarrow> int) \<Rightarrow> 'a Pool \<Rightarrow> 'a res \<times> 'a Pool" where
  "pool_Get test clock p =
     (if p_conns p = [] then (Err ErrPoolEmpty, p)
      else
        let idx = p_idx p + 1;
            idx = (if idx \<ge> length (p_conns p) then 0 else idx);
            p = p\<lparr>p_idx := idx\<rparr>;
            conn = p_conns p ! idx
        in if recently_tested clock p conn then (Ok conn, p)
           else if test conn then (Ok conn, p)
           else pool_Get test clock (p\<lparr>p_conns := cut idx (p_conns p), p_deadConns := p_deadConns p @ [conn]\<rparr>))"
  by pat_completeness auto

termination
  by (relation "measure (\<lambda>(test, clock, p). length (p_conns p))") (auto simp: cut_def)

declare pool_Get.simps [simp del]

text \<open>
  \<^verbatim>\<open>GetAll(false)\<close> ranges over the slice \<^verbatim>\<open>p.conns\<close> as it was at the start: \<open>arr\<close> is its backing array, which
  the removal of an element at \<^verbatim>\<open>p.idx\<close> shifts under the running loop. \<open>k\<close> iterations are left.
\<close>

fun getall_loop :: "('a \<Rightarrow> bool) \<Rightarrow> ('a \<Rightarrow> int) \<Rightarrow> nat \<Rightarrow> nat \<Rightarrow> 'a list \<Rightarrow> 'a Pool \<Rightarrow> 'a list \<Rightarrow> ('a list \<times> 'a Pool) res" where
  "getall_loop test clock 0 i arr p conns = Ok (conns, p)"
| "getall_loop test clock (Suc k) i arr p conns =
     (let conn = arr ! i;
          conns = (if recently_tested clock p conn then conns @ [conn] else conns)
      in if test conn then getall_loop test clock k (Suc i) arr p (conns @ [conn])
         else if p_idx p + 1 > length (p_conns p) then Panic
         else let shifted = cut (p_idx p) (p_conns p)
              in getall_loop test clock k (Suc i) (shifted @ drop (length shifted) arr)
                   (p\<lparr>p_conns := shifted, p_deadConns := p_deadConns p @ [conn]\<rparr>) conns)"

definition pool_GetAll :: "('a \<Rightarrow> bool) \<Rightarrow> ('a \<Rightarrow> int) \<Rightarrow> bool \<Rightarrow> 'a Pool \<Rightarrow> ('a list \<times> 'a Pool) res" where
  "pool_GetAll test clock includeDead p =
     (if includeDead then Ok (p_conns p @ p_deadConns p, p)
      else getall_loop test clock (length (p_conns p)) 0 (p_conns p) p [])"

text \<open>
  \<^verbatim>\<open>Close\<close> runs the destructor on every connection and returns the error that comes first, if there is
  one; the list has the errors of all of them.
\<close>

definition pool_Close :: "('a \<Rightarrow> unit res) \<Rightarrow> 'a Pool \<Rightarrow> go_error list" where
  "pool_Close destructor p = concat (map (\<lambda>c. case destructor c of Err e \<Rightarrow> [e] | _ \<Rightarrow> []) (p_conns p @ p_deadConns p))"

text \<open>One tick of \<^verbatim>\<open>startDeadConnTester\<close>: the dead connections from the last to the first.\<close>

fun tester_loop :: "('a \<Rightarrow> bool) \<Rightarrow> nat \<Rightarrow> 'a Pool \<Rightarrow> 'a Pool" where
  "tester_loop test 0 p = p"
| "tester_loop test (Suc i) p =
     (let c = p_deadConns p ! i in
      tester_loop test i (if test c then p\<lparr>p_conns := p_conns p @ [c], p_deadConns := cut i (p_deadConns p)\<rparr> else p))"

definition deadConnTester_tick :: "('a \<Rightarrow> bool) \<Rightarrow> 'a Pool \<Rightarrow> 'a Pool" where
  "deadConnTester_tick test p = tester_loop test (length (p_deadConns p)) p"

subsection \<open>Lemmas\<close>

lemma mset_cut: "i < length s \<Longrightarrow> mset s = add_mset (s ! i) (mset (cut i s))"
proof -
  assume "i < length s"
  then have "mset s = mset (take i s @ s ! i # drop (Suc i) s)" by (simp add: id_take_nth_drop [symmetric])
  then show ?thesis by (simp add: cut_def)
qed

lemma set_cut: "set (cut i s) \<subseteq> set s"
  by (auto simp: cut_def dest: in_set_takeD in_set_dropD)

text \<open>All connections of a pool, and those that \<^verbatim>\<open>Get\<close> may return.\<close>

definition pool_mset :: "'a Pool \<Rightarrow> 'a multiset" where
  "pool_mset p = mset (p_conns p) + mset (p_deadConns p)"

definition usable :: "('a \<Rightarrow> bool) \<Rightarrow> ('a \<Rightarrow> int) \<Rightarrow> 'a Pool \<Rightarrow> 'a \<Rightarrow> bool" where
  "usable test clock p c \<longleftrightarrow> recently_tested clock p c \<or> test c"

lemma recently_tested_simps [simp]:
  "recently_tested clock (p\<lparr>p_conns := cs\<rparr>) = recently_tested clock p" "recently_tested clock (p\<lparr>p_deadConns := ds\<rparr>) = recently_tested clock p"
  "recently_tested clock (p\<lparr>p_idx := i\<rparr>) = recently_tested clock p"
  by (simp_all add: recently_tested_def fun_eq_iff split: option.split)

lemma usable_simps [simp]:
  "usable test clock (p\<lparr>p_conns := cs\<rparr>) = usable test clock p" "usable test clock (p\<lparr>p_deadConns := ds\<rparr>) = usable test clock p"
  "usable test clock (p\<lparr>p_idx := i\<rparr>) = usable test clock p"
  by (simp_all add: usable_def fun_eq_iff)

lemma pool_Get_rec:
  assumes "p_conns p \<noteq> []"
  obtains idx where "idx < length (p_conns p)"
    "pool_Get test clock p = (if usable test clock p (p_conns p ! idx) then (Ok (p_conns p ! idx), p\<lparr>p_idx := idx\<rparr>)
       else pool_Get test clock (p\<lparr>p_idx := idx, p_conns := cut idx (p_conns p), p_deadConns := p_deadConns p @ [p_conns p ! idx]\<rparr>))"
proof -
  define idx where "idx = (if p_idx p + 1 \<ge> length (p_conns p) then 0 else p_idx p + 1)"
  show ?thesis
  proof (rule that [of idx])
    show "idx < length (p_conns p)" using assms by (simp add: idx_def)
    show "pool_Get test clock p = (if usable test clock p (p_conns p ! idx) then (Ok (p_conns p ! idx), p\<lparr>p_idx := idx\<rparr>)
       else pool_Get test clock (p\<lparr>p_idx := idx, p_conns := cut idx (p_conns p), p_deadConns := p_deadConns p @ [p_conns p ! idx]\<rparr>))"
      using assms by (subst pool_Get.simps) (simp only: Let_def idx_def [symmetric], simp add: usable_def)
  qed
qed

lemma pool_Get_props:
  "fst (pool_Get test clock p) = (if \<exists>c \<in> set (p_conns p). usable test clock p c then Ok (p_conns (snd (pool_Get test clock p)) ! p_idx (snd (pool_Get test clock p))) else Err ErrPoolEmpty)
   \<and> (\<forall>c. fst (pool_Get test clock p) = Ok c \<longrightarrow> c \<in> set (p_conns (snd (pool_Get test clock p))) \<and> usable test clock p c)
   \<and> pool_mset (snd (pool_Get test clock p)) = pool_mset p
   \<and> {#c \<in># mset (p_conns (snd (pool_Get test clock p))). usable test clock p c#} = {#c \<in># mset (p_conns p). usable test clock p c#}"
proof (induction "length (p_conns p)" arbitrary: p rule: less_induct)
  case less
  show ?case
  proof (cases "p_conns p = []")
    case True
    then show ?thesis by (subst (1 2 3 4 5 6) pool_Get.simps) simp
  next
    case False
    then obtain idx where idx: "idx < length (p_conns p)"
      "pool_Get test clock p = (if usable test clock p (p_conns p ! idx) then (Ok (p_conns p ! idx), p\<lparr>p_idx := idx\<rparr>)
       else pool_Get test clock (p\<lparr>p_idx := idx, p_conns := cut idx (p_conns p), p_deadConns := p_deadConns p @ [p_conns p ! idx]\<rparr>))"
      by (rule pool_Get_rec)
    show ?thesis
    proof (cases "usable test clock p (p_conns p ! idx)")
      case True
      with idx show ?thesis by (auto simp: pool_mset_def)
    next
      case not_usable: False
      define q where "q = p\<lparr>p_idx := idx, p_conns := cut idx (p_conns p), p_deadConns := p_deadConns p @ [p_conns p ! idx]\<rparr>"
      have q: "pool_Get test clock p = pool_Get test clock q" using idx(2) not_usable by (simp add: q_def)
      have u: "usable test clock q = usable test clock p" by (simp add: q_def)
      have m: "mset (p_conns p) = add_mset (p_conns p ! idx) (mset (p_conns q))"
        using mset_cut [OF idx(1)] by (simp add: q_def)
      then have e: "(\<exists>c \<in> set (p_conns q). usable test clock p c) = (\<exists>c \<in> set (p_conns p). usable test clock p c)"
        using not_usable by (metis (mono_tags) insert_iff set_mset_add_mset_insert set_mset_mset)
      have f: "{#c \<in># mset (p_conns p). usable test clock p c#} = {#c \<in># mset (p_conns q). usable test clock p c#}"
        using m not_usable by simp
      have pm: "pool_mset q = pool_mset p" using m by (simp add: pool_mset_def q_def)
      have "length (p_conns q) < length (p_conns p)" using idx(1) by (simp add: q_def cut_def)
      from less [OF this] show ?thesis unfolding q u e f pm .
    qed
  qed
qed

text \<open>A tick brings back exactly the dead connections that pass their test, the last one first.\<close>

lemma tester_loop_spec:
  "i \<le> length (p_deadConns p) \<Longrightarrow> tester_loop test i p =
     p\<lparr>p_conns := p_conns p @ rev (filter test (take i (p_deadConns p))),
       p_deadConns := filter (\<lambda>c. \<not> test c) (take i (p_deadConns p)) @ drop i (p_deadConns p)\<rparr>"
proof (induction i arbitrary: p)
  case (Suc i)
  then have t: "take (Suc i) (p_deadConns p) = take i (p_deadConns p) @ [p_deadConns p ! i]"
    "drop i (p_deadConns p) = p_deadConns p ! i # drop (Suc i) (p_deadConns p)" by (simp_all add: take_Suc_conv_app_nth Cons_nth_drop_Suc)
  with Suc show ?case by (simp add: cut_def)
qed simp

lemma deadConnTester_tick_spec:
  "deadConnTester_tick test p = p\<lparr>p_conns := p_conns p @ rev (filter test (p_deadConns p)), p_deadConns := filter (\<lambda>c. \<not> test c) (p_deadConns p)\<rparr>"
  by (simp add: deadConnTester_tick_def tester_loop_spec)

text \<open>When no test fails, \<^verbatim>\<open>GetAll(false)\<close> has every connection once, and those that were tested recently twice.\<close>

lemma getall_loop_live:
  assumes "list_all test arr" "i + k = length arr"
  shows "getall_loop test clock k i arr p conns
    = Ok (conns @ concat (map (\<lambda>c. if recently_tested clock p c then [c, c] else [c]) (drop i arr)), p)"
  using assms(2)
proof (induction k arbitrary: i conns)
  case (Suc k)
  then have "drop i arr = arr ! i # drop (Suc i) arr" "test (arr ! i)" using assms(1) by (simp_all add: Cons_nth_drop_Suc list_all_length)
  with Suc show ?case by (simp add: Let_def)
qed simp

lemma pool_GetAll_live:
  "list_all test (p_conns p) \<Longrightarrow> pool_GetAll test clock False p
    = Ok (concat (map (\<lambda>c. if recently_tested clock p c then [c, c] else [c]) (p_conns p)), p)"
  by (simp add: pool_GetAll_def getall_loop_live)

subsection \<open>Properties\<close>


text \<open>When every live connection passes its test and has been tested recently, \<^verbatim>\<open>GetAll(false)\<close> returns
  each of them twice.\<close>

lemma getall_counts_twice:
  assumes "list_all test (p_conns p)" "list_all (recently_tested clock p) (p_conns p)"
  shows "pool_GetAll test clock False p = Ok (concat (map (\<lambda>c. [c, c]) (p_conns p)), p)"
proof -
  have "map (\<lambda>c. if recently_tested clock p c then [c, c] else [c]) (p_conns p) = map (\<lambda>c. [c, c]) (p_conns p)"
    using assms(2) by (simp add: list_all_iff)
  then show ?thesis unfolding pool_GetAll_live [OF assms(1)] by (simp only:)
qed

end
