(* ===== verification/StateStore.thy ===== *)
theory StateStore
  imports EventTypes "HOL-Library.List_Lexorder" "HOL-Library.Sublist" "HOL-Library.AList"
begin

section \<open>The state store of the off-chain node (offchain-interface/pkg/state)\<close>

text \<open>
  The last seen block height, the ranges of blocks that still have to be read and the events whose
  data is still missing, kept in a LevelDB database. LevelDB is a parameter, an ordered map with
  transactions; the keys, the encodings of the values and every operation are the code's. The
  abstract specification of the missing events is a map from event identifiers to missing events;
  the refinement lemmas say how each operation moves along it.
\<close>

subsection \<open>LevelDB\<close>

datatype batch_op = BPut bytes bytes | BDelete bytes

record 'd leveldb =
  lv_Get :: "'d \<Rightarrow> bytes \<Rightarrow> bytes option res"
  lv_Put :: "'d \<Rightarrow> bytes \<Rightarrow> bytes \<Rightarrow> 'd res"
  lv_Delete :: "'d \<Rightarrow> bytes \<Rightarrow> 'd res"
  lv_Write :: "'d \<Rightarrow> batch_op list \<Rightarrow> 'd res"
  lv_Prefix :: "'d \<Rightarrow> bytes \<Rightarrow> (bytes \<times> bytes) list"
  lv_OpenTransaction :: "'d \<Rightarrow> 'd res"
  lv_Commit :: "'d \<Rightarrow> 'd res"

text \<open>
  \<open>lv_Get\<close> returns \<open>None\<close> for \<^verbatim>\<open>ErrNotFound\<close>; \<open>lv_Prefix\<close> lists what an iterator over
  \<^verbatim>\<open>util.BytesPrefix\<close> visits, in key order. A transaction is a database of its own, which replaces the
  database when it is committed.
\<close>

fun apply_op :: "batch_op \<Rightarrow> (bytes \<rightharpoonup> bytes) \<Rightarrow> (bytes \<rightharpoonup> bytes)" where
  "apply_op (BPut k v) m = m(k \<mapsto> v)"
| "apply_op (BDelete k) m = m(k := None)"

definition lv_laws :: "'d leveldb \<Rightarrow> ('d \<Rightarrow> bytes \<rightharpoonup> bytes) \<Rightarrow> bool" where
  "lv_laws L content \<longleftrightarrow>
     (\<forall>d k v. lv_Get L d k = Ok v \<longrightarrow> v = content d k) \<and>
     (\<forall>d k v d'. lv_Put L d k v = Ok d' \<longrightarrow> content d' = (content d)(k \<mapsto> v)) \<and>
     (\<forall>d k d'. lv_Delete L d k = Ok d' \<longrightarrow> content d' = (content d)(k := None)) \<and>
     (\<forall>d k. lv_Delete L d k = Err ErrDBNotFound \<longrightarrow> content d k = None) \<and>
     (\<forall>d ops d'. lv_Write L d ops = Ok d' \<longrightarrow> content d' = fold apply_op ops (content d)) \<and>
     (\<forall>d d'. lv_OpenTransaction L d = Ok d' \<longrightarrow> content d' = content d) \<and>
     (\<forall>d d'. lv_Commit L d = Ok d' \<longrightarrow> content d' = content d) \<and>
     (\<forall>d p. sorted_wrt (<) (map fst (lv_Prefix L d p)) \<and>
        set (lv_Prefix L d p) = {(k, v). content d k = Some v \<and> prefix p k})"

lemma lv_lawsD:
  assumes "lv_laws L content"
  shows "lv_Get L d k = Ok v \<Longrightarrow> v = content d k"
    and "lv_Put L d k w = Ok d' \<Longrightarrow> content d' = (content d)(k \<mapsto> w)"
    and "lv_Delete L d k = Ok d' \<Longrightarrow> content d' = (content d)(k := None)"
    and "lv_Write L d ops = Ok d' \<Longrightarrow> content d' = fold apply_op ops (content d)"
    and "lv_OpenTransaction L d = Ok d' \<Longrightarrow> content d' = content d"
    and "lv_Commit L d = Ok d' \<Longrightarrow> content d' = content d"
    and "sorted_wrt (<) (map fst (lv_Prefix L d p))"
    and "set (lv_Prefix L d p) = {(k, v). content d k = Some v \<and> prefix p k}"
    and "lv_Delete L d k = Err ErrDBNotFound \<Longrightarrow> content d k = None"
  using assms unfolding lv_laws_def by metis+

subsection \<open>store.go: the data\<close>

record BlockRange =
  br_Low :: int
  br_High :: int

record BlockRangeWithId =
  bi_BlockRange :: BlockRange
  bi_Id :: bytes

definition NewBlockRange :: "int \<Rightarrow> int \<Rightarrow> BlockRange" where
  "NewBlockRange low high = \<lparr>br_Low = low, br_High = high\<rparr>"

definition NewBlockRangeWithId :: "BlockRange \<Rightarrow> bytes \<Rightarrow> BlockRangeWithId" where
  "NewBlockRangeWithId blockRange i = \<lparr>bi_BlockRange = blockRange, bi_Id = i\<rparr>"

record MissingEvent =
  me_EventId :: EventHash
  me_ReceivedTime :: int
  me_BlockHeight :: int
  me_LastRetryTime :: int
  me_RetriedUnicast :: bool
  me_RetryCount :: int

record MissingEventWithKey =
  mk_MissingEvent :: MissingEvent
  mk_Id :: bytes

definition NewMissingEvent :: "EventHash \<Rightarrow> int \<Rightarrow> int \<Rightarrow> MissingEvent" where
  "NewMissingEvent eventId receivedTime blockHeight = \<lparr>me_EventId = eventId, me_ReceivedTime = receivedTime,
     me_BlockHeight = blockHeight, me_LastRetryTime = time_zero, me_RetriedUnicast = False, me_RetryCount = 0\<rparr>"

subsection \<open>leveldbstore.go: integers and keys\<close>

definition join_bytes :: "bytes list \<Rightarrow> bytes" where "join_bytes bs = concat bs"

definition boolToBytes :: "bool \<Rightarrow> bytes" where "boolToBytes b = (if b then [1] else [0])"

definition int16ToBytes :: "16 word \<Rightarrow> bytes" where "int16ToBytes i = PutUint16 i"

definition int64ToBytes :: "int \<Rightarrow> bytes" where "int64ToBytes i = PutUint64 (word_of_int i)"

definition bytesToInt16 :: "bytes \<Rightarrow> int res" where
  "bytesToInt16 b = (if length b < 2 then Panic else Ok (sint (Uint16 (take 2 b))))"

definition bytesToInt :: "bytes \<Rightarrow> int res" where
  "bytesToInt b = (if length b < 8 then Panic else Ok (sint (Uint64 (take 8 b))))"

definition keyLastSeenBlockHeight :: bytes where "keyLastSeenBlockHeight = bz ''last_seen_block_height''"
definition keyMissingBlocksIdCounter :: bytes where "keyMissingBlocksIdCounter = bz ''id_counter_missing_blocks''"
definition keyPrefixMissingBlocks :: bytes where "keyPrefixMissingBlocks = bz ''missing_blocks_''"
definition keyMissingEventsIdCounter :: bytes where "keyMissingEventsIdCounter = bz ''id_counter_missing_events''"
definition keyPrefixMissingEvents :: bytes where "keyPrefixMissingEvents = bz ''missing_events_''"
definition keyPrefixMissingEventsIndex :: bytes where "keyPrefixMissingEventsIndex = bz ''index_missing_events_''"

text \<open>
  \<^verbatim>\<open>getNextKey\<close>: the outer loop runs from the last place to the first, \<open>i\<close> places being left; a
  place that holds 255 is set to 0 with all places behind it.
\<close>

definition zero_from :: "nat \<Rightarrow> bytes \<Rightarrow> bytes" where
  "zero_from i key = take i key @ replicate (length key - i) 0"

fun getNextKey_loop :: "nat \<Rightarrow> bytes \<Rightarrow> bytes option" where
  "getNextKey_loop 0 nextKey = None"
| "getNextKey_loop (Suc i) nextKey =
     (if nextKey ! i = 255 then getNextKey_loop i (zero_from i nextKey)
      else Some (nextKey[i := nextKey ! i + 1]))"

definition getNextKey :: "bytes \<Rightarrow> bytes" where
  "getNextKey currentKey = (case getNextKey_loop (length currentKey) currentKey of
     Some nextKey \<Rightarrow> nextKey | None \<Rightarrow> replicate 16 0)"

subsection \<open>The encoding of a missing event\<close>

text \<open>\<^verbatim>\<open>time.Time\<close>'s \<^verbatim>\<open>MarshalBinary\<close> and \<^verbatim>\<open>UnmarshalBinary\<close>, parameters.\<close>

record timelib =
  tm_MarshalBinary :: "int \<Rightarrow> bytes res"
  tm_UnmarshalBinary :: "bytes \<Rightarrow> int res"

definition marshalMissingEvent :: "timelib \<Rightarrow> MissingEvent \<Rightarrow> bytes res" where
  "marshalMissingEvent tlib event =
     bind_res (tm_MarshalBinary tlib (me_ReceivedTime event)) (\<lambda>receivedTime.
     bind_res (tm_MarshalBinary tlib (me_ReceivedTime event)) (\<lambda>lastRetryTime.
       let idLen = int16ToBytes (word_of_nat (length (me_EventId event)));
           receivedTimeLen = int16ToBytes (word_of_nat (length receivedTime));
           blockHeight = int64ToBytes (me_BlockHeight event);
           lastRetryTimeLen = int16ToBytes (word_of_nat (length lastRetryTime));
           retriedUnicast = boolToBytes (me_RetriedUnicast event);
           retryCount = int64ToBytes (me_RetryCount event)
       in Ok (join_bytes [idLen, me_EventId event, receivedTimeLen, receivedTime, blockHeight, lastRetryTimeLen,
                lastRetryTime, retriedUnicast, retryCount])))"

text \<open>The slice expression \<^verbatim>\<open>b[lo:hi]\<close>, which panics outside its bounds.\<close>

definition slice_res :: "bytes \<Rightarrow> int \<Rightarrow> int \<Rightarrow> bytes res" where
  "slice_res b lo hi = (if 0 \<le> lo \<and> lo \<le> hi \<and> hi \<le> int (length b) then Ok (subslice b (nat lo) (nat hi)) else Panic)"

definition errMissingEventLength :: go_error where
  "errMissingEventLength = OtherError ''invalid bytes length for missing event''"

definition unmarshalMissingEvent :: "timelib \<Rightarrow> bytes \<Rightarrow> MissingEvent res" where
  "unmarshalMissingEvent tlib b =
     (if length b < 2 then Err errMissingEventLength
      else bind_res (bytesToInt16 b) (\<lambda>idLen.
        let offset = 2 in
        if int (length b) < offset + idLen + 2 then Err errMissingEventLength
        else bind_res (slice_res b offset (offset + idLen)) (\<lambda>eventId.
          let offset = offset + idLen in
          bind_res (slice_res b offset (offset + 2)) (\<lambda>l. bind_res (bytesToInt16 l) (\<lambda>receivedTimeLen.
          let offset = offset + 2 in
          if int (length b) < offset + receivedTimeLen + 8 + 2 then Err errMissingEventLength
          else bind_res (slice_res b offset (offset + receivedTimeLen)) (\<lambda>receivedTimeBytes.
            let offset = offset + receivedTimeLen in
            bind_res (slice_res b offset (offset + 8)) (\<lambda>h. bind_res (bytesToInt h) (\<lambda>blockHeight.
            let offset = offset + 8 in
            bind_res (slice_res b offset (offset + 2)) (\<lambda>l. bind_res (bytesToInt16 l) (\<lambda>lastRetryTimeLen.
            let offset = offset + 2 in
            if int (length b) < offset + lastRetryTimeLen + 1 + 8 then Err errMissingEventLength
            else bind_res (slice_res b offset (offset + lastRetryTimeLen)) (\<lambda>lastRetryTimeBytes.
              let offset = offset + lastRetryTimeLen in
              bind_res (slice_res b offset (offset + 1)) (\<lambda>u.
              let retriedUnicast = (u = [1]); offset = offset + 1 in
              bind_res (slice_res b offset (offset + 8)) (\<lambda>c. bind_res (bytesToInt c) (\<lambda>retryCount.
              bind_res (tm_UnmarshalBinary tlib receivedTimeBytes) (\<lambda>receivedTime.
              bind_res (tm_UnmarshalBinary tlib lastRetryTimeBytes) (\<lambda>lastRetryTime.
                Ok \<lparr>me_EventId = eventId, me_ReceivedTime = receivedTime, me_BlockHeight = blockHeight,
                    me_LastRetryTime = lastRetryTime, me_RetriedUnicast = retriedUnicast,
                    me_RetryCount = retryCount\<rparr>))))))))))))))))"

subsection \<open>Transactions and counters\<close>

definition withTransaction :: "'d leveldb \<Rightarrow> ('d \<Rightarrow> ('a \<times> 'd) res) \<Rightarrow> 'd \<Rightarrow> ('a \<times> 'd) res" where
  "withTransaction L f db =
     bind_res (lv_OpenTransaction L db) (\<lambda>t.
     bind_res (f t) (\<lambda>(v, t).
     bind_res (lv_Commit L t) (\<lambda>db. Ok (v, db))))"

definition read_counter :: "'d leveldb \<Rightarrow> bytes \<Rightarrow> 'd \<Rightarrow> bytes res" where
  "read_counter L counterKey t =
     bind_res (lv_Get L t counterKey) (\<lambda>counterBytes. case counterBytes of
       None \<Rightarrow> Ok (replicate 16 0)
     | Some c \<Rightarrow> if length c \<noteq> 16 then Err (OtherError ''invalid counter length'') else Ok c)"

definition withIncrementingId :: "'d leveldb \<Rightarrow> bytes \<Rightarrow> (bytes \<Rightarrow> 'd \<Rightarrow> 'd res) \<Rightarrow> 'd \<Rightarrow> (bytes \<times> 'd) res" where
  "withIncrementingId L counterKey f db =
     withTransaction L (\<lambda>t.
       bind_res (read_counter L counterKey t) (\<lambda>i.
       let i = getNextKey i in
       bind_res (lv_Put L t counterKey i) (\<lambda>t.
       bind_res (f i t) (\<lambda>t. Ok (i, t))))) db"

fun next_keys :: "nat \<Rightarrow> bytes \<Rightarrow> bytes list" where
  "next_keys 0 i = []"
| "next_keys (Suc n) i = getNextKey i # next_keys n (getNextKey i)"

text \<open>\<open>f\<close> reads the transaction and appends to the batch; the batch is written after all calls.\<close>

definition withIncrementingIdBatch ::
    "'d leveldb \<Rightarrow> bytes \<Rightarrow> nat \<Rightarrow> ('d \<Rightarrow> bytes list \<Rightarrow> batch_op list res) \<Rightarrow> 'd \<Rightarrow> (bytes list \<times> 'd) res" where
  "withIncrementingIdBatch L counterKey n f db =
     withTransaction L (\<lambda>t.
       bind_res (read_counter L counterKey t) (\<lambda>i.
       let ids = next_keys n i in
       bind_res (lv_Put L t counterKey (last (i # ids))) (\<lambda>t.
       bind_res (f t ids) (\<lambda>batch.
       bind_res (lv_Write L t batch) (\<lambda>t. Ok (ids, t)))))) db"

subsection \<open>Blocks\<close>

definition LastSeenBlockHeight :: "'d leveldb \<Rightarrow> 'd \<Rightarrow> int option res" where
  "LastSeenBlockHeight L db = bind_res (lv_Get L db keyLastSeenBlockHeight) (\<lambda>value. case value of
     None \<Rightarrow> Ok None | Some v \<Rightarrow> map_res Some (bytesToInt v))"

definition SetLastSeenBlockHeight :: "'d leveldb \<Rightarrow> int \<Rightarrow> 'd \<Rightarrow> 'd res" where
  "SetLastSeenBlockHeight L height db = lv_Put L db keyLastSeenBlockHeight (int64ToBytes height)"

definition BlockRange_bytes :: "BlockRange \<Rightarrow> bytes" where
  "BlockRange_bytes r = int64ToBytes (br_Low r) @ int64ToBytes (br_High r)"

fun missing_blocks_loop :: "(bytes \<times> bytes) list \<Rightarrow> BlockRangeWithId list res" where
  "missing_blocks_loop [] = Ok []"
| "missing_blocks_loop ((k, v) # kvs) =
     (let key = drop (length keyPrefixMissingBlocks) k in
      if length key \<noteq> 16 then Err (OtherError ''invalid key length for missing block range'')
      else if length v \<noteq> 16 then Err (OtherError ''invalid value length for missing block range'')
      else bind_res (bytesToInt (take 8 v)) (\<lambda>low. bind_res (bytesToInt (drop 8 v)) (\<lambda>high.
        map_res (Cons (NewBlockRangeWithId \<lparr>br_Low = low, br_High = high\<rparr> key)) (missing_blocks_loop kvs))))"

definition MissingBlocks :: "'d leveldb \<Rightarrow> 'd \<Rightarrow> BlockRangeWithId list res" where
  "MissingBlocks L db = missing_blocks_loop (lv_Prefix L db keyPrefixMissingBlocks)"

definition AddMissingBlocks :: "'d leveldb \<Rightarrow> BlockRange \<Rightarrow> 'd \<Rightarrow> (bytes \<times> 'd) res" where
  "AddMissingBlocks L blockRange db =
     withIncrementingId L keyMissingBlocksIdCounter
       (\<lambda>i t. lv_Put L t (keyPrefixMissingBlocks @ i) (BlockRange_bytes blockRange)) db"

definition UpdateMissingBlockRange :: "'d leveldb \<Rightarrow> BlockRangeWithId \<Rightarrow> 'd \<Rightarrow> 'd res" where
  "UpdateMissingBlockRange L blockRange db =
     lv_Put L db (keyPrefixMissingBlocks @ bi_Id blockRange) (BlockRange_bytes (bi_BlockRange blockRange))"

definition RemoveMissingBlockRange :: "'d leveldb \<Rightarrow> bytes \<Rightarrow> 'd \<Rightarrow> 'd res" where
  "RemoveMissingBlockRange L i db = lv_Delete L db (keyPrefixMissingBlocks @ i)"

subsection \<open>Events\<close>

text \<open>
  \<^verbatim>\<open>Seek\<close> moves the iterator to the first key that is not smaller than the given one; the \<^verbatim>\<open>Next\<close> of the
  loop condition then moves it on before anything is read.
\<close>

definition seek_next :: "bytes \<Rightarrow> (bytes \<times> bytes) list \<Rightarrow> (bytes \<times> bytes) list" where
  "seek_next key kvs = drop 1 (dropWhile (\<lambda>(k, v). k < key) kvs)"

fun missing_events_loop :: "timelib \<Rightarrow> bytes option \<Rightarrow> nat \<Rightarrow> (bytes \<times> bytes) list \<Rightarrow> MissingEventWithKey list res" where
  "missing_events_loop tlib after n [] = Ok []"
| "missing_events_loop tlib after 0 (kv # kvs) = Ok []"
| "missing_events_loop tlib after (Suc n) ((k, v) # kvs) =
     (let i = drop (length keyPrefixMissingEvents) k in
      if length i \<noteq> 16 then Err (OtherError ''invalid key length for missing event'')
      else if after = Some i then missing_events_loop tlib after (Suc n) kvs
      else bind_res (unmarshalMissingEvent tlib v) (\<lambda>missingEvent.
        map_res (Cons \<lparr>mk_MissingEvent = missingEvent, mk_Id = i\<rparr>) (missing_events_loop tlib after n kvs)))"

definition MissingEvents :: "'d leveldb \<Rightarrow> timelib \<Rightarrow> bytes option \<Rightarrow> int \<Rightarrow> 'd \<Rightarrow> MissingEventWithKey list res" where
  "MissingEvents L tlib after limit db =
     (if limit \<le> 0 then Err (OtherError ''limit must be greater than 0'')
      else
        let it = lv_Prefix L db keyPrefixMissingEvents;
            it = (case after of None \<Rightarrow> it | Some a \<Rightarrow> seek_next (keyPrefixMissingEvents @ a) it)
        in missing_events_loop tlib after (nat limit) it)"

definition MissingEventCount :: "'d leveldb \<Rightarrow> 'd \<Rightarrow> int" where
  "MissingEventCount L db = int (length (lv_Prefix L db keyPrefixMissingEventsIndex))"

text \<open>One call of the function that \<^verbatim>\<open>AddMissingEvents\<close> passes on, and the calls for all events.\<close>

definition add_one :: "'d leveldb \<Rightarrow> timelib \<Rightarrow> 'd \<Rightarrow> MissingEvent \<Rightarrow> bytes \<Rightarrow> batch_op list res" where
  "add_one L tlib t event internalId =
     (let indexKey = keyPrefixMissingEventsIndex @ me_EventId event in
      bind_res (lv_Get L t indexKey) (\<lambda>prevInternalId.
      let batch = [BPut indexKey internalId];
          batch = (case prevInternalId of None \<Rightarrow> batch | Some prev \<Rightarrow> batch @ [BDelete (keyPrefixMissingEvents @ prev)])
      in bind_res (marshalMissingEvent tlib event) (\<lambda>encoded.
           Ok (batch @ [BPut (keyPrefixMissingEvents @ internalId) encoded]))))"

fun add_all :: "'d leveldb \<Rightarrow> timelib \<Rightarrow> 'd \<Rightarrow> (MissingEvent \<times> bytes) list \<Rightarrow> batch_op list res" where
  "add_all L tlib t [] = Ok []"
| "add_all L tlib t ((event, i) # es) = bind_res (add_one L tlib t event i) (\<lambda>b. map_res ((@) b) (add_all L tlib t es))"

definition AddMissingEvents :: "'d leveldb \<Rightarrow> timelib \<Rightarrow> MissingEvent list \<Rightarrow> 'd \<Rightarrow> (MissingEventWithKey list \<times> 'd) res" where
  "AddMissingEvents L tlib events db =
     map_res (\<lambda>(ids, db). (map (\<lambda>(e, i). \<lparr>mk_MissingEvent = e, mk_Id = i\<rparr>) (zip events ids), db))
       (withIncrementingIdBatch L keyMissingEventsIdCounter (length events)
          (\<lambda>t ids. add_all L tlib t (zip events ids)) db)"

text \<open>\<^verbatim>\<open>now\<close> is the time that \<^verbatim>\<open>time.Now\<close> returns. The counter is a 64-bit integer.\<close>

definition retried :: "int \<Rightarrow> MissingEvent \<Rightarrow> MissingEvent" where
  "retried now e = e\<lparr>me_RetriedUnicast := True, me_LastRetryTime := now,
     me_RetryCount := sint (word_of_int (me_RetryCount e + 1) :: 64 word)\<rparr>"

definition increment_tx :: "'d leveldb \<Rightarrow> timelib \<Rightarrow> int \<Rightarrow> EventHash \<Rightarrow> 'd \<Rightarrow> (unit \<times> 'd) res" where
  "increment_tx L tlib now eventId t =
     bind_res (lv_Get L t (keyPrefixMissingEventsIndex @ eventId)) (\<lambda>internalId. case internalId of
       None \<Rightarrow> Err (OtherError ''error incrementing missing event retry count: event index not found'')
     | Some internalId \<Rightarrow>
         let key = keyPrefixMissingEvents @ internalId in
         bind_res (lv_Get L t key) (\<lambda>value. case value of
           None \<Rightarrow> Err ErrDBNotFound
         | Some value \<Rightarrow>
             bind_res (unmarshalMissingEvent tlib value) (\<lambda>missingEvent.
             bind_res (marshalMissingEvent tlib (retried now missingEvent)) (\<lambda>encoded.
               map_res (Pair ()) (lv_Put L t key encoded)))))"

definition IncrementMissingEventRetryCount :: "'d leveldb \<Rightarrow> timelib \<Rightarrow> int \<Rightarrow> EventHash \<Rightarrow> 'd \<Rightarrow> 'd res" where
  "IncrementMissingEventRetryCount L tlib now eventId db =
     map_res snd (withTransaction L (increment_tx L tlib now eventId) db)"

definition remove_tx :: "'d leveldb \<Rightarrow> EventHash \<Rightarrow> 'd \<Rightarrow> (unit \<times> 'd) res" where
  "remove_tx L eventId t =
     (let indexKey = keyPrefixMissingEventsIndex @ eventId in
      bind_res (lv_Get L t indexKey) (\<lambda>internalId. case internalId of
        None \<Rightarrow> Ok ((), t)
      | Some internalId \<Rightarrow>
          bind_res (lv_Delete L t indexKey) (\<lambda>t.
            case lv_Delete L t (keyPrefixMissingEvents @ internalId) of
              Ok t \<Rightarrow> Ok ((), t)
            | Err e \<Rightarrow> if e = ErrDBNotFound then Ok ((), t) else Err e
            | Panic \<Rightarrow> Panic)))"

definition RemoveMissingEvent :: "'d leveldb \<Rightarrow> EventHash \<Rightarrow> 'd \<Rightarrow> 'd res" where
  "RemoveMissingEvent L eventId db =
     map_res snd (withTransaction L (remove_tx L eventId) db)"

subsection \<open>Keys are 128-bit numbers\<close>

text \<open>The reference: a key is a big-endian number, and the next key is its successor modulo \<open>256 ^ 16\<close>.\<close>

definition key_val :: "bytes \<Rightarrow> nat" where
  "key_val key = foldl (\<lambda>a b. a * 256 + unat b) 0 key"

lemma key_val_simps [simp]: "key_val [] = 0" "key_val (key @ [b]) = key_val key * 256 + unat b"
  by (simp_all add: key_val_def)

lemma key_val_replicate [simp]: "key_val (key @ replicate m 0) = key_val key * 256 ^ m"
proof (induction m)
  case (Suc m)
  have "key @ replicate (Suc m) 0 = (key @ replicate m 0) @ [0]" by (simp add: replicate_append_same)
  then show ?case using Suc by (simp only: key_val_simps) simp
qed simp

lemma key_val_bound: "key_val key < 256 ^ length key"
proof (induction key rule: rev_induct)
  case (snoc b key)
  have "unat b < 256" using unat_word_bounds(1) by blast
  then have "key_val key * 256 + unat b < (key_val key + 1) * 256" by simp
  also have "\<dots> \<le> 256 ^ length key * 256" using snoc by (simp add: Suc_le_eq)
  finally show ?case by simp
qed simp

lemma byte_succ: "b \<noteq> (255 :: byte) \<Longrightarrow> unat (b + 1) = unat b + 1"
proof -
  assume "b \<noteq> 255"
  then have "unat b \<noteq> 255" using word_unat_eq_iff [of b 255] by simp
  then have "unat b + 1 < 256" using unat_word_bounds(1) [of b] by simp
  then show ?thesis by (simp add: unat_word_ariths)
qed

lemma getNextKey_loop_val:
  "(case getNextKey_loop (length key) (key @ replicate m 0) of
      Some key' \<Rightarrow> length key' = length key + m \<and> key_val key' = (key_val key + 1) * 256 ^ m
    | None \<Rightarrow> key_val key + 1 = 256 ^ length key)"
proof (induction key arbitrary: m rule: rev_induct)
  case (snoc b key)
  have nth: "((key @ [b]) @ replicate m 0) ! length key = b" by (simp add: nth_append)
  show ?case
  proof (cases "b = 255")
    case True
    have "zero_from (length key) ((key @ [b]) @ replicate m 0) = key @ replicate (Suc m) 0"
      by (simp add: zero_from_def)
    then have l: "getNextKey_loop (length (key @ [b])) ((key @ [b]) @ replicate m 0)
        = getNextKey_loop (length key) (key @ replicate (Suc m) 0)" using True nth by simp
    have v: "key_val (key @ [b]) + 1 = (key_val key + 1) * 256" using True by simp
    show ?thesis unfolding l v using snoc.IH [of "Suc m"] v
      by (cases "getNextKey_loop (length key) (key @ replicate (Suc m) 0)") (simp_all add: algebra_simps)
  next
    case False
    then have "getNextKey_loop (length (key @ [b])) ((key @ [b]) @ replicate m 0) = Some ((key @ [b + 1]) @ replicate m 0)"
      using nth by (simp add: list_update_append)
    with byte_succ [OF False] show ?thesis by (simp only: option.case key_val_replicate key_val_simps) simp
  qed
qed simp

lemma getNextKey_val:
  assumes "length key = 16"
  shows "length (getNextKey key) = 16 \<and> key_val (getNextKey key) = (key_val key + 1) mod 256 ^ 16"
proof (cases "getNextKey_loop (length key) key")
  case None
  have "key_val (replicate 16 0) = 0" using key_val_replicate [of "[]" 16] by simp
  with None getNextKey_loop_val [of key 0] assms show ?thesis by (simp add: getNextKey_def)
next
  case (Some key')
  with getNextKey_loop_val [of key 0] assms have "length key' = 16" "key_val key' = key_val key + 1" by simp_all
  moreover have "key_val key' < 256 ^ 16" using key_val_bound [of key'] calculation by simp
  ultimately show ?thesis using Some by (simp add: getNextKey_def)
qed

subsection \<open>Round trips of the values\<close>

lemma sint_int64 [simp]: "int64 i \<Longrightarrow> sint (word_of_int i :: 64 word) = i"
  using signed_take_bit_int_eq_self [of 63 i] by (simp add: int64_def signed_of_int)

lemma sint_nat16: "n < 2 ^ 15 \<Longrightarrow> sint (word_of_nat n :: 16 word) = int n"
  using signed_take_bit_int_eq_self [of 15 "int n"] by (simp add: signed_of_nat)

lemma bytesToInt_int64ToBytes [simp]: "int64 i \<Longrightarrow> bytesToInt (int64ToBytes i) = Ok i"
  by (simp add: bytesToInt_def int64ToBytes_def)

lemma length_int64ToBytes [simp]: "length (int64ToBytes i) = 8" "length (int16ToBytes w) = 2" "length (boolToBytes b) = 1"
  by (simp_all add: int64ToBytes_def int16ToBytes_def boolToBytes_def)

lemma bytesToInt16_int16ToBytes: "n < 2 ^ 15 \<Longrightarrow> bytesToInt16 (int16ToBytes (word_of_nat n) @ r) = Ok (int n)"
  by (simp add: bytesToInt16_def int16ToBytes_def sint_nat16)

lemma slice_res_at:
  assumes "b = xs @ ys @ zs" "lo = int (length xs)" "hi = lo + int (length ys)"
  shows "slice_res b lo hi = Ok ys"
  using assms by (simp add: slice_res_def subslice_def nat_add_distrib)

definition tm_laws :: "timelib \<Rightarrow> bool" where
  "tm_laws tlib \<longleftrightarrow> (\<forall>t b. tm_MarshalBinary tlib t = Ok b \<longrightarrow> tm_UnmarshalBinary tlib b = Ok t \<and> length b < 2 ^ 15)"

definition me_wf :: "MissingEvent \<Rightarrow> bool" where
  "me_wf e \<longleftrightarrow> length (me_EventId e) < 2 ^ 15 \<and> int64 (me_BlockHeight e) \<and> int64 (me_RetryCount e)"

text \<open>What is written is read back, except for the time of the last retry.\<close>

definition stored_form :: "MissingEvent \<Rightarrow> MissingEvent" where
  "stored_form e = e\<lparr>me_LastRetryTime := me_ReceivedTime e\<rparr>"

lemma unmarshal_marshal:
  assumes "tm_laws tlib" "me_wf e" "marshalMissingEvent tlib e = Ok b"
  shows "unmarshalMissingEvent tlib b = Ok (stored_form e)"
proof -
  obtain t where t: "tm_MarshalBinary tlib (me_ReceivedTime e) = Ok t" using assms(3) by (auto simp: marshalMissingEvent_def)
  then have tu: "tm_UnmarshalBinary tlib t = Ok (me_ReceivedTime e)" "length t < 2 ^ 15" using assms(1) by (auto simp: tm_laws_def)
  let ?i = "me_EventId e" and ?h = "int64ToBytes (me_BlockHeight e)" and ?c = "int64ToBytes (me_RetryCount e)"
  let ?il = "int16ToBytes (word_of_nat (length ?i))" and ?tl = "int16ToBytes (word_of_nat (length t))"
  let ?u = "boolToBytes (me_RetriedUnicast e)"
  have b: "b = ?il @ ?i @ ?tl @ t @ ?h @ ?tl @ t @ ?u @ ?c"
    using assms(3) t by (simp add: marshalMissingEvent_def join_bytes_def Let_def)
  let ?n = "int (length ?i)" and ?m = "int (length t)"
  have 0: "bytesToInt16 b = Ok ?n" "bytesToInt16 ?tl = Ok ?m"
    using assms(2) tu(2) bytesToInt16_int16ToBytes [of "length t" "[]"] unfolding b
    by (simp_all add: bytesToInt16_int16ToBytes me_wf_def)
  have s: "slice_res b 2 (2 + ?n) = Ok ?i" "slice_res b (2 + ?n) (2 + ?n + 2) = Ok ?tl"
    "slice_res b (2 + ?n + 2) (2 + ?n + 2 + ?m) = Ok t"
    "slice_res b (2 + ?n + 2 + ?m) (2 + ?n + 2 + ?m + 8) = Ok ?h"
    "slice_res b (2 + ?n + 2 + ?m + 8) (2 + ?n + 2 + ?m + 8 + 2) = Ok ?tl"
    "slice_res b (2 + ?n + 2 + ?m + 8 + 2) (2 + ?n + 2 + ?m + 8 + 2 + ?m) = Ok t"
    "slice_res b (2 + ?n + 2 + ?m + 8 + 2 + ?m) (2 + ?n + 2 + ?m + 8 + 2 + ?m + 1) = Ok ?u"
    "slice_res b (2 + ?n + 2 + ?m + 8 + 2 + ?m + 1) (2 + ?n + 2 + ?m + 8 + 2 + ?m + 1 + 8) = Ok ?c"
    by (rule slice_res_at [of _ "?il" _ "?tl @ t @ ?h @ ?tl @ t @ ?u @ ?c"], simp_all add: b)
      (rule slice_res_at [of _ "?il @ ?i" _ "t @ ?h @ ?tl @ t @ ?u @ ?c"], simp_all,
       rule slice_res_at [of _ "?il @ ?i @ ?tl" _ "?h @ ?tl @ t @ ?u @ ?c"], simp_all,
       rule slice_res_at [of _ "?il @ ?i @ ?tl @ t" _ "?tl @ t @ ?u @ ?c"], simp_all,
       rule slice_res_at [of _ "?il @ ?i @ ?tl @ t @ ?h" _ "t @ ?u @ ?c"], simp_all,
       rule slice_res_at [of _ "?il @ ?i @ ?tl @ t @ ?h @ ?tl" _ "?u @ ?c"], simp_all,
       rule slice_res_at [of _ "?il @ ?i @ ?tl @ t @ ?h @ ?tl @ t" _ "?c"], simp_all,
       rule slice_res_at [of _ "?il @ ?i @ ?tl @ t @ ?h @ ?tl @ t @ ?u" _ "[]"], simp_all)
  have l: "int (length b) = 2 + ?n + 2 + ?m + 8 + 2 + ?m + 1 + 8" "\<not> length b < 2" by (simp_all add: b)
  have u: "?u = [1] \<longleftrightarrow> me_RetriedUnicast e" by (simp add: boolToBytes_def)
  have "int64 (me_BlockHeight e)" "int64 (me_RetryCount e)" using assms(2) by (simp_all add: me_wf_def)
  with 0 s l tu(1) u show ?thesis
    by (simp add: unmarshalMissingEvent_def Let_def stored_form_def)
qed

subsection \<open>The missing events as a map\<close>

lemma key_distinct [simp]:
  "keyPrefixMissingEventsIndex @ x \<noteq> keyPrefixMissingEvents @ y" "keyPrefixMissingEvents @ y \<noteq> keyPrefixMissingEventsIndex @ x"
  "keyPrefixMissingEventsIndex @ x \<noteq> keyMissingEventsIdCounter" "keyMissingEventsIdCounter \<noteq> keyPrefixMissingEventsIndex @ x"
  "keyPrefixMissingEvents @ x \<noteq> keyMissingEventsIdCounter" "keyMissingEventsIdCounter \<noteq> keyPrefixMissingEvents @ x"
  by (simp_all add: keyPrefixMissingEventsIndex_def keyPrefixMissingEvents_def keyMissingEventsIdCounter_def bz_def)

definition missing :: "timelib \<Rightarrow> (bytes \<rightharpoonup> bytes) \<Rightarrow> EventHash \<rightharpoonup> MissingEvent" where
  "missing tlib m eid = (case m (keyPrefixMissingEventsIndex @ eid) of
     None \<Rightarrow> None
   | Some i \<Rightarrow> (case m (keyPrefixMissingEvents @ i) of
       None \<Rightarrow> None
     | Some v \<Rightarrow> (case unmarshalMissingEvent tlib v of Ok e \<Rightarrow> Some e | _ \<Rightarrow> None)))"

lemma missing_counter: "missing tlib (m(keyMissingEventsIdCounter := x)) = missing tlib m"
  by (auto simp: missing_def fun_eq_iff split: option.split)

text \<open>
  Index and entries belong to each other: every indexed event has an entry, under an identifier of 16
  bytes that is at most \<open>n\<close>, which decodes to an event with that identifier; every entry is indexed.
\<close>

definition ev_inv :: "timelib \<Rightarrow> nat \<Rightarrow> (bytes \<rightharpoonup> bytes) \<Rightarrow> bool" where
  "ev_inv tlib n m \<longleftrightarrow>
     (\<forall>eid i. m (keyPrefixMissingEventsIndex @ eid) = Some i \<longrightarrow> length i = 16 \<and> key_val i \<le> n
        \<and> (\<exists>v e. m (keyPrefixMissingEvents @ i) = Some v \<and> unmarshalMissingEvent tlib v = Ok e \<and> me_EventId e = eid \<and> me_wf e))
     \<and> (\<forall>i v. m (keyPrefixMissingEvents @ i) = Some v \<longrightarrow> (\<exists>eid. m (keyPrefixMissingEventsIndex @ eid) = Some i))"

definition counter_val :: "(bytes \<rightharpoonup> bytes) \<Rightarrow> nat" where
  "counter_val m = (case m keyMissingEventsIdCounter of None \<Rightarrow> 0 | Some c \<Rightarrow> key_val c)"

definition store_inv :: "timelib \<Rightarrow> (bytes \<rightharpoonup> bytes) \<Rightarrow> bool" where
  "store_inv tlib m \<longleftrightarrow> ev_inv tlib (counter_val m) m \<and> pred_option (\<lambda>c. length c = 16) (m keyMissingEventsIdCounter)"

lemma ev_inv_index:
  assumes "ev_inv tlib n m" "m (keyPrefixMissingEventsIndex @ eid) = Some i"
  obtains v e where "length i = 16" "key_val i \<le> n" "m (keyPrefixMissingEvents @ i) = Some v"
    "unmarshalMissingEvent tlib v = Ok e" "me_EventId e = eid" "me_wf e" "missing tlib m eid = Some e"
  using assms unfolding ev_inv_def missing_def by force

lemma ev_inv_entry:
  assumes "ev_inv tlib n m" "m (keyPrefixMissingEvents @ i) = Some v"
  obtains eid where "m (keyPrefixMissingEventsIndex @ eid) = Some i"
  using assms unfolding ev_inv_def by blast

text \<open>Two events never share an entry.\<close>

lemma ev_inv_inj:
  assumes "ev_inv tlib n m" "m (keyPrefixMissingEventsIndex @ a) = Some i" "m (keyPrefixMissingEventsIndex @ b) = Some i"
  shows "a = b"
  using ev_inv_index [OF assms(1,2)] ev_inv_index [OF assms(1,3)] by (metis option.inject res.inject(1))

lemma dom_missing:
  assumes "ev_inv tlib n m"
  shows "eid \<in> dom (missing tlib m) \<longleftrightarrow> m (keyPrefixMissingEventsIndex @ eid) \<noteq> None"
proof (cases "m (keyPrefixMissingEventsIndex @ eid)")
  case (Some i)
  with assms obtain e where "missing tlib m eid = Some e" by (rule ev_inv_index)
  with Some show ?thesis by auto
qed (auto simp: missing_def)

text \<open>Removing the index entry and the entry of an event, as \<^verbatim>\<open>RemoveMissingEvent\<close> does.\<close>

lemma ev_inv_remove:
  assumes inv: "ev_inv tlib n m" and i: "m (keyPrefixMissingEventsIndex @ eid) = Some i"
    and m': "m' = m(keyPrefixMissingEventsIndex @ eid := None, keyPrefixMissingEvents @ i := None)"
  shows "ev_inv tlib n m' \<and> missing tlib m' = (missing tlib m)(eid := None)"
proof -
  have other: "m (keyPrefixMissingEventsIndex @ b) = Some j \<Longrightarrow> b \<noteq> eid \<Longrightarrow> j \<noteq> i" for b j
    using ev_inv_inj [OF inv i] by blast
  have "ev_inv tlib n m'" unfolding ev_inv_def
  proof (intro conjI allI impI)
    fix b j assume "m' (keyPrefixMissingEventsIndex @ b) = Some j"
    then have b: "b \<noteq> eid" "m (keyPrefixMissingEventsIndex @ b) = Some j" by (auto simp: m' split: if_split_asm)
    obtain v e where "length j = 16" "key_val j \<le> n" "m (keyPrefixMissingEvents @ j) = Some v"
      "unmarshalMissingEvent tlib v = Ok e" "me_EventId e = b" "me_wf e"
      using inv b(2) by (rule ev_inv_index)
    with other [OF b(2,1)] show "length j = 16" "key_val j \<le> n"
      "\<exists>v e. m' (keyPrefixMissingEvents @ j) = Some v \<and> unmarshalMissingEvent tlib v = Ok e \<and> me_EventId e = b \<and> me_wf e"
      by (auto simp: m')
  next
    fix j v assume "m' (keyPrefixMissingEvents @ j) = Some v"
    then have "j \<noteq> i" "m (keyPrefixMissingEvents @ j) = Some v" by (auto simp: m' split: if_split_asm)
    then obtain b where "m (keyPrefixMissingEventsIndex @ b) = Some j" using ev_inv_entry [OF inv] by blast
    with i \<open>j \<noteq> i\<close> show "\<exists>b. m' (keyPrefixMissingEventsIndex @ b) = Some j" by (intro exI [of _ b]) (auto simp: m')
  qed
  moreover have "missing tlib m' b = ((missing tlib m)(eid := None)) b" for b
    using other [of b] by (auto simp: missing_def m' split: option.split)
  ultimately show ?thesis by blast
qed

text \<open>Adding an event under a fresh identifier, after removing what was stored for it.\<close>

lemma ev_inv_insert:
  assumes inv: "ev_inv tlib n m" and new: "m (keyPrefixMissingEventsIndex @ me_EventId e) = None"
    and i: "length i = 16" "key_val i = n + 1" and v: "unmarshalMissingEvent tlib v = Ok e" "me_wf e"
    and m': "m' = m(keyPrefixMissingEventsIndex @ me_EventId e \<mapsto> i, keyPrefixMissingEvents @ i \<mapsto> v)"
  shows "ev_inv tlib (n + 1) m' \<and> missing tlib m' = (missing tlib m)(me_EventId e \<mapsto> e)"
proof -
  have other: "m (keyPrefixMissingEventsIndex @ b) = Some j \<Longrightarrow> j \<noteq> i" for b j
    using ev_inv_index [OF inv, of b j] i(2) by fastforce
  have "ev_inv tlib (n + 1) m'" unfolding ev_inv_def
  proof (intro conjI allI impI)
    fix b j assume j: "m' (keyPrefixMissingEventsIndex @ b) = Some j"
    have "length j = 16 \<and> key_val j \<le> n + 1 \<and>
      (\<exists>v e. m' (keyPrefixMissingEvents @ j) = Some v \<and> unmarshalMissingEvent tlib v = Ok e \<and> me_EventId e = b \<and> me_wf e)"
    proof (cases "b = me_EventId e")
      case True
      with j i v show ?thesis by (auto simp: m')
    next
      case False
      then have b: "m (keyPrefixMissingEventsIndex @ b) = Some j" using j by (simp add: m')
      with inv obtain w f where "length j = 16" "key_val j \<le> n" "m (keyPrefixMissingEvents @ j) = Some w"
        "unmarshalMissingEvent tlib w = Ok f" "me_EventId f = b" "me_wf f" by (rule ev_inv_index)
      with other [OF b] show ?thesis by (auto simp: m')
    qed
    then show "length j = 16" "key_val j \<le> n + 1"
      "\<exists>v e. m' (keyPrefixMissingEvents @ j) = Some v \<and> unmarshalMissingEvent tlib v = Ok e \<and> me_EventId e = b \<and> me_wf e"
      by blast+
  next
    fix j w assume j: "m' (keyPrefixMissingEvents @ j) = Some w"
    show "\<exists>b. m' (keyPrefixMissingEventsIndex @ b) = Some j"
    proof (cases "j = i")
      case True
      then show ?thesis by (auto simp: m')
    next
      case False
      then obtain b where "m (keyPrefixMissingEventsIndex @ b) = Some j" using ev_inv_entry [OF inv, of j w] j by (auto simp: m')
      with new show ?thesis by (intro exI [of _ b]) (auto simp: m')
    qed
  qed
  moreover have "missing tlib m' b = ((missing tlib m)(me_EventId e \<mapsto> e)) b" for b
    using other [of b] v by (auto simp: missing_def m' split: option.split)
  ultimately show ?thesis by blast
qed

text \<open>Both together: one call for an event, whose batch is applied at once.\<close>

lemma ev_inv_add:
  assumes inv: "ev_inv tlib n m" and i: "length i = 16" "key_val i = n + 1"
    and v: "unmarshalMissingEvent tlib v = Ok e" "me_wf e"
    and ops: "ops = BPut (keyPrefixMissingEventsIndex @ me_EventId e) i
       # (case m (keyPrefixMissingEventsIndex @ me_EventId e) of None \<Rightarrow> [] | Some p \<Rightarrow> [BDelete (keyPrefixMissingEvents @ p)])
       @ [BPut (keyPrefixMissingEvents @ i) v]"
  shows "ev_inv tlib (n + 1) (fold apply_op ops m) \<and> missing tlib (fold apply_op ops m) = (missing tlib m)(me_EventId e \<mapsto> e)"
proof (cases "m (keyPrefixMissingEventsIndex @ me_EventId e)")
  case None
  from ev_inv_insert [OF inv None i v refl] None show ?thesis by (simp add: ops)
next
  case (Some p)
  define m1 where "m1 = m(keyPrefixMissingEventsIndex @ me_EventId e := None, keyPrefixMissingEvents @ p := None)"
  have r: "ev_inv tlib n m1" "missing tlib m1 = (missing tlib m)(me_EventId e := None)"
    using ev_inv_remove [OF inv Some m1_def] by blast+
  have "m1 (keyPrefixMissingEventsIndex @ me_EventId e) = None" by (simp add: m1_def)
  from ev_inv_insert [OF r(1) this i v refl] r(2)
  have "ev_inv tlib (n + 1) (m1(keyPrefixMissingEventsIndex @ me_EventId e \<mapsto> i, keyPrefixMissingEvents @ i \<mapsto> v))
      \<and> missing tlib (m1(keyPrefixMissingEventsIndex @ me_EventId e \<mapsto> i, keyPrefixMissingEvents @ i \<mapsto> v))
        = (missing tlib m)(me_EventId e \<mapsto> e)" by simp
  moreover have "fold apply_op ops m = m1(keyPrefixMissingEventsIndex @ me_EventId e \<mapsto> i, keyPrefixMissingEvents @ i \<mapsto> v)"
    using Some by (simp add: ops m1_def fun_eq_iff)
  ultimately show ?thesis by simp
qed

lemma stored_form_simps [simp]: "me_EventId (stored_form e) = me_EventId e" "me_wf (stored_form e) = me_wf e"
  by (simp_all add: stored_form_def me_wf_def)

lemma next_keys_simps: "length i = 16 \<Longrightarrow> key_val i + n < 256 ^ 16 \<Longrightarrow>
    length (next_keys n i) = n \<and> (\<forall>j < n. length (next_keys n i ! j) = 16 \<and> key_val (next_keys n i ! j) = key_val i + j + 1)
    \<and> length (last (i # next_keys n i)) = 16 \<and> key_val (last (i # next_keys n i)) = key_val i + n"
proof (induction n arbitrary: i)
  case (Suc n)
  have 1: "length (getNextKey i) = 16" "key_val (getNextKey i) = key_val i + 1"
    using getNextKey_val [OF Suc.prems(1)] Suc.prems(2) by simp_all
  have IH: "length (next_keys n (getNextKey i)) = n"
    "\<And>j. j < n \<Longrightarrow> length (next_keys n (getNextKey i) ! j) = 16 \<and> key_val (next_keys n (getNextKey i) ! j) = key_val i + 1 + j + 1"
    "length (last (getNextKey i # next_keys n (getNextKey i))) = 16"
    "key_val (last (getNextKey i # next_keys n (getNextKey i))) = key_val i + 1 + n"
    using Suc.IH [OF 1(1)] Suc.prems(2) 1(2) by auto
  show ?case using 1 IH by (auto simp: nth_Cons split: nat.split)
qed simp

lemma add_one_ops:
  assumes "lv_laws L content" "add_one L tlib t e i = Ok b"
  obtains v where "marshalMissingEvent tlib e = Ok v"
    "b = BPut (keyPrefixMissingEventsIndex @ me_EventId e) i
       # (case content t (keyPrefixMissingEventsIndex @ me_EventId e) of None \<Rightarrow> [] | Some p \<Rightarrow> [BDelete (keyPrefixMissingEvents @ p)])
       @ [BPut (keyPrefixMissingEvents @ i) v]"
  using assms(2) lv_lawsD(1) [OF assms(1)]
  by (fastforce simp: add_one_def Let_def split: option.split_asm option.split)

lemma add_all_inv:
  assumes laws: "lv_laws L content" "tm_laws tlib"
    and "add_all L tlib t (zip es ids) = Ok b" "length ids = length es"
    and "ev_inv tlib n m" "\<forall>e \<in> set es. me_wf e" "distinct (map me_EventId es)"
    and "\<forall>e \<in> set es. m (keyPrefixMissingEventsIndex @ me_EventId e) = content t (keyPrefixMissingEventsIndex @ me_EventId e)"
    and "\<forall>j < length ids. length (ids ! j) = 16 \<and> key_val (ids ! j) = n + j + 1"
  shows "ev_inv tlib (n + length es) (fold apply_op b m)
    \<and> missing tlib (fold apply_op b m) = missing tlib m ++ map_of (map (\<lambda>e. (me_EventId e, stored_form e)) es)
    \<and> fold apply_op b m keyMissingEventsIdCounter = m keyMissingEventsIdCounter"
  using assms(3-)
proof (induction es arbitrary: ids n m b)
  case (Cons e es)
  then obtain i js where ids: "ids = i # js" by (cases ids) auto
  with Cons.prems(1) obtain b1 b2 where b: "add_one L tlib t e i = Ok b1" "add_all L tlib t (zip es js) = Ok b2" "b = b1 @ b2"
    by auto
  obtain v where v: "marshalMissingEvent tlib e = Ok v" "b1 = BPut (keyPrefixMissingEventsIndex @ me_EventId e) i
       # (case content t (keyPrefixMissingEventsIndex @ me_EventId e) of None \<Rightarrow> [] | Some p \<Rightarrow> [BDelete (keyPrefixMissingEvents @ p)])
       @ [BPut (keyPrefixMissingEvents @ i) v]"
    using add_one_ops [OF laws(1) b(1)] .
  have i: "length i = 16" "key_val i = n + 1" using Cons.prems(7) ids by auto
  have u: "unmarshalMissingEvent tlib v = Ok (stored_form e)" "me_wf (stored_form e)"
    using unmarshal_marshal [OF laws(2) _ v(1)] Cons.prems(4) by simp_all
  let ?m = "fold apply_op b1 m"
  have step: "ev_inv tlib (n + 1) ?m" "missing tlib ?m = (missing tlib m)(me_EventId e \<mapsto> stored_form e)"
    using ev_inv_add [OF Cons.prems(3) i u, of b1] v(2) Cons.prems(6) by simp_all
  have keep: "?m (keyPrefixMissingEventsIndex @ a) = m (keyPrefixMissingEventsIndex @ a)" if "a \<noteq> me_EventId e" for a
    using that v(2) by (simp split: option.split)
  have c: "?m keyMissingEventsIdCounter = m keyMissingEventsIdCounter" using v(2) by (simp split: option.split)
  have "\<forall>f \<in> set es. ?m (keyPrefixMissingEventsIndex @ me_EventId f) = content t (keyPrefixMissingEventsIndex @ me_EventId f)"
  proof
    fix f assume f: "f \<in> set es"
    have "me_EventId f \<noteq> me_EventId e" using Cons.prems(5) f by (auto simp: image_iff)
    with keep Cons.prems(6) f show "?m (keyPrefixMissingEventsIndex @ me_EventId f) = content t (keyPrefixMissingEventsIndex @ me_EventId f)"
      by simp
  qed
  moreover have "\<forall>j < length js. length (js ! j) = 16 \<and> key_val (js ! j) = (n + 1) + j + 1"
    using Cons.prems(7) ids by (auto dest: spec [of _ "Suc _"])
  ultimately have IH: "ev_inv tlib (n + 1 + length es) (fold apply_op b2 ?m)"
    "missing tlib (fold apply_op b2 ?m) = missing tlib ?m ++ map_of (map (\<lambda>e. (me_EventId e, stored_form e)) es)"
    "fold apply_op b2 ?m keyMissingEventsIdCounter = ?m keyMissingEventsIdCounter"
    using Cons.IH [OF b(2) _ step(1)] Cons.prems(2,4,5) ids by simp_all
  have "me_EventId e \<notin> dom (map_of (map (\<lambda>e. (me_EventId e, stored_form e)) es))"
    using Cons.prems(5) by (simp add: dom_map_of_conv_image_fst image_image)
  then have q: "(missing tlib m)(me_EventId e \<mapsto> stored_form e) ++ map_of (map (\<lambda>e. (me_EventId e, stored_form e)) es)
      = missing tlib m ++ map_of (map (\<lambda>e. (me_EventId e, stored_form e)) (e # es))"
    by (simp add: map_add_upd_left)
  have f: "fold apply_op b m = fold apply_op b2 ?m" using b(3) by simp
  have n: "n + length (e # es) = n + 1 + length es" by simp
  note m2 = IH(2) [unfolded step(2) q] and c2 = IH(3) [unfolded c]
  show ?case unfolding f n by (intro conjI) (fact IH(1), fact m2, fact c2)
qed simp

lemma withTransactionE:
  assumes "lv_laws L content" "withTransaction L f db = Ok (v, db')"
  obtains t t' where "content t = content db" "f t = Ok (v, t')" "content db' = content t'"
  using assms(2) lv_lawsD(5,6) [OF assms(1)] by (fastforce simp: withTransaction_def)

lemma read_counter_val:
  assumes "lv_laws L content" "read_counter L keyMissingEventsIdCounter t = Ok i"
  shows "length i = 16" "key_val i = counter_val (content t)"
proof -
  obtain c where "lv_Get L t keyMissingEventsIdCounter = Ok c" using assms(2) by (auto simp: read_counter_def)
  moreover have "key_val (replicate 16 0) = 0" using key_val_replicate [of "[]" 16] by simp
  ultimately have "length i = 16 \<and> key_val i = counter_val (content t)"
    using assms(2) lv_lawsD(1) [OF assms(1)]
    by (fastforce simp: read_counter_def counter_val_def split: option.split_asm if_split_asm)
  then show "length i = 16" "key_val i = counter_val (content t)" by simp_all
qed

text \<open>\<^verbatim>\<open>AddMissingEvents\<close> for events with different identifiers.\<close>

lemma AddMissingEvents_spec:
  assumes laws: "lv_laws L content" "tm_laws tlib" and inv: "store_inv tlib (content db)"
    and es: "\<forall>e \<in> set es. me_wf e" "distinct (map me_EventId es)" and n: "counter_val (content db) + length es < 256 ^ 16"
    and add: "AddMissingEvents L tlib es db = Ok (ks, db')"
  shows "store_inv tlib (content db') \<and> counter_val (content db') = counter_val (content db) + length es
    \<and> missing tlib (content db') = missing tlib (content db) ++ map_of (map (\<lambda>e. (me_EventId e, stored_form e)) es)
    \<and> map mk_MissingEvent ks = es"
proof -
  obtain ids where w: "withIncrementingIdBatch L keyMissingEventsIdCounter (length es) (\<lambda>t ids. add_all L tlib t (zip es ids)) db = Ok (ids, db')"
      "ks = map (\<lambda>(e, i). \<lparr>mk_MissingEvent = e, mk_Id = i\<rparr>) (zip es ids)"
    using add by (auto simp: AddMissingEvents_def)
  obtain t t2 where t0: "content t = content db" "content db' = content t2"
      "bind_res (read_counter L keyMissingEventsIdCounter t) (\<lambda>i.
       let ids = next_keys (length es) i in
       bind_res (lv_Put L t keyMissingEventsIdCounter (last (i # ids))) (\<lambda>t.
       bind_res (add_all L tlib t (zip es ids)) (\<lambda>batch.
       bind_res (lv_Write L t batch) (\<lambda>t. Ok (ids, t))))) = Ok (ids, t2)"
    using w(1) unfolding withIncrementingIdBatch_def by (rule withTransactionE [OF laws(1)])
  then obtain i t1 b where t: "content t = content db" "read_counter L keyMissingEventsIdCounter t = Ok i"
      "ids = next_keys (length es) i" "lv_Put L t keyMissingEventsIdCounter (last (i # ids)) = Ok t1"
      "add_all L tlib t1 (zip es ids) = Ok b" "lv_Write L t1 b = Ok t2" "content db' = content t2"
    by (auto simp: Let_def)
  note i = read_counter_val [OF laws(1) t(2), unfolded t(1)]
  have ids: "length ids = length es" "\<forall>j < length ids. length (ids ! j) = 16 \<and> key_val (ids ! j) = counter_val (content db) + j + 1"
      "length (last (i # ids)) = 16" "key_val (last (i # ids)) = counter_val (content db) + length es"
    using next_keys_simps [OF i(1), of "length es"] n i(2) t(3) by simp_all
  have c1: "content t1 = (content db)(keyMissingEventsIdCounter \<mapsto> last (i # ids))" using lv_lawsD(2) [OF laws(1) t(4)] t(1) by simp
  have inv1: "ev_inv tlib (counter_val (content db)) (content t1)"
    using inv by (simp add: c1 store_inv_def ev_inv_def)
  have m1: "missing tlib (content t1) = missing tlib (content db)" unfolding c1 by (rule missing_counter)
  note a = add_all_inv [OF laws t(5) ids(1) inv1 es _ ids(2)]
  have wr: "content db' = fold apply_op b (content t1)" using lv_lawsD(4) [OF laws(1) t(6)] t(7) by simp
  have cv: "content db' keyMissingEventsIdCounter = Some (last (i # ids))" using a wr c1 by simp
  have "counter_val (content db') = counter_val (content db) + length es" using cv ids(4) by (simp add: counter_val_def)
  moreover have "map mk_MissingEvent ks = es" using w(2) ids(1) by (simp add: comp_def case_prod_beta)
  ultimately show ?thesis using a wr m1 cv ids(3) by (simp add: store_inv_def)
qed

lemma sint64_bounds: "int64 (sint (w :: 64 word))"
  using sint_greater_eq [of w] sint_less [of w] by (simp add: int64_def)

lemma IncrementMissingEventRetryCount_spec:
  assumes laws: "lv_laws L content" "tm_laws tlib" and inv: "store_inv tlib (content db)"
    and inc: "IncrementMissingEventRetryCount L tlib now eid db = Ok db'"
  shows "store_inv tlib (content db') \<and> counter_val (content db') = counter_val (content db)
    \<and> missing tlib (content db') = (missing tlib (content db))(eid := map_option (\<lambda>e. stored_form (retried now e)) (missing tlib (content db) eid))"
proof -
  let ?m = "content db"
  obtain u where "withTransaction L (increment_tx L tlib now eid) db = Ok (u, db')"
    using inc by (auto simp: IncrementMissingEventRetryCount_def)
  then obtain t t' where t0: "content t = ?m" "increment_tx L tlib now eid t = Ok (u, t')" "content db' = content t'"
    by (rule withTransactionE [OF laws(1)])
  obtain i where i: "lv_Get L t (keyPrefixMissingEventsIndex @ eid) = Ok (Some i)"
    using t0(2) by (auto simp: increment_tx_def split: option.split_asm)
  obtain v where v: "lv_Get L t (keyPrefixMissingEvents @ i) = Ok (Some v)"
    using t0(2) i by (auto simp: increment_tx_def Let_def split: option.split_asm)
  obtain e w where "unmarshalMissingEvent tlib v = Ok e"
      "marshalMissingEvent tlib (retried now e) = Ok w" "lv_Put L t (keyPrefixMissingEvents @ i) w = Ok t'"
    using t0(2) i v by (auto simp: increment_tx_def Let_def)
  with i v t0 have t: "content t = ?m" "?m (keyPrefixMissingEventsIndex @ eid) = Some i"
      "?m (keyPrefixMissingEvents @ i) = Some v" "unmarshalMissingEvent tlib v = Ok e"
      "marshalMissingEvent tlib (retried now e) = Ok w" "lv_Put L t (keyPrefixMissingEvents @ i) w = Ok t'" "content db' = content t'"
    using lv_lawsD(1) [OF laws(1) i] lv_lawsD(1) [OF laws(1) v] by simp_all
  have c: "content db' = ?m(keyPrefixMissingEvents @ i \<mapsto> w)" using lv_lawsD(2) [OF laws(1) t(6)] t(1,7) by simp
  have ev: "ev_inv tlib (counter_val ?m) ?m" using inv by (simp add: store_inv_def)
  obtain v' e' where "?m (keyPrefixMissingEvents @ i) = Some v'" "unmarshalMissingEvent tlib v' = Ok e'" "me_EventId e' = eid" "me_wf e'"
      "missing tlib ?m eid = Some e'" "length i = 16" "key_val i \<le> counter_val ?m"
    using ev t(2) by (rule ev_inv_index)
  then have e: "me_EventId e = eid" "me_wf e" "missing tlib ?m eid = Some e" "length i = 16" "key_val i \<le> counter_val ?m"
    using t(3,4) by auto
  have "me_wf (retried now e)" using e(2) sint64_bounds by (simp add: me_wf_def retried_def)
  then have u: "unmarshalMissingEvent tlib w = Ok (stored_form (retried now e))" "me_wf (stored_form (retried now e))"
    using unmarshal_marshal [OF laws(2) _ t(5)] by simp_all
  have other: "?m (keyPrefixMissingEventsIndex @ b) = Some j \<Longrightarrow> b \<noteq> eid \<Longrightarrow> j \<noteq> i" for b j
    using ev_inv_inj [OF ev t(2)] by blast
  have "ev_inv tlib (counter_val ?m) (content db')" unfolding ev_inv_def
  proof (intro conjI allI impI)
    fix b j assume b: "content db' (keyPrefixMissingEventsIndex @ b) = Some j"
    then have b': "?m (keyPrefixMissingEventsIndex @ b) = Some j" by (simp add: c)
    have "length j = 16 \<and> key_val j \<le> counter_val ?m \<and> (\<exists>v e. content db' (keyPrefixMissingEvents @ j) = Some v \<and> unmarshalMissingEvent tlib v = Ok e
        \<and> me_EventId e = b \<and> me_wf e)"
    proof (cases "b = eid")
      case True
      with b' t(2) u e show ?thesis by (simp add: c retried_def)
    next
      case False
      from ev b' obtain x y where "length j = 16" "key_val j \<le> counter_val ?m" "?m (keyPrefixMissingEvents @ j) = Some x"
        "unmarshalMissingEvent tlib x = Ok y" "me_EventId y = b" "me_wf y" by (rule ev_inv_index)
      with other [OF b' False] show ?thesis by (simp add: c)
    qed
    then show "length j = 16" "key_val j \<le> counter_val ?m"
      "\<exists>v e. content db' (keyPrefixMissingEvents @ j) = Some v \<and> unmarshalMissingEvent tlib v = Ok e \<and> me_EventId e = b \<and> me_wf e"
      by blast+
  next
    fix j x assume "content db' (keyPrefixMissingEvents @ j) = Some x"
    then show "\<exists>b. content db' (keyPrefixMissingEventsIndex @ b) = Some j"
      using ev_inv_entry [OF ev, of j] t(2) by (cases "j = i") (auto simp: c)
  qed
  moreover have "counter_val (content db') = counter_val ?m" "content db' keyMissingEventsIdCounter = ?m keyMissingEventsIdCounter"
    by (simp_all add: c counter_val_def)
  moreover have "missing tlib (content db') b = ((missing tlib ?m)(eid := Some (stored_form (retried now e)))) b" for b
    using other [of b] u t(2) by (auto simp: missing_def c split: option.split)
  ultimately show ?thesis using inv e(3) by (auto simp: store_inv_def)
qed

lemma RemoveMissingEvent_content:
  assumes laws: "lv_laws L content" and rem: "RemoveMissingEvent L eid db = Ok db'"
  shows "content db' = (case content db (keyPrefixMissingEventsIndex @ eid) of None \<Rightarrow> content db
    | Some i \<Rightarrow> (content db)(keyPrefixMissingEventsIndex @ eid := None, keyPrefixMissingEvents @ i := None))"
proof -
  let ?m = "content db"
  obtain u where "withTransaction L (remove_tx L eid) db = Ok (u, db')" using rem by (auto simp: RemoveMissingEvent_def)
  then obtain t t' where t: "content t = ?m" "remove_tx L eid t = Ok (u, t')" "content db' = content t'"
    by (rule withTransactionE [OF laws])
  obtain p where p0: "lv_Get L t (keyPrefixMissingEventsIndex @ eid) = Ok p"
    using t(2) by (auto simp: remove_tx_def Let_def)
  have p: "lv_Get L t (keyPrefixMissingEventsIndex @ eid) = Ok (?m (keyPrefixMissingEventsIndex @ eid))"
    using p0 lv_lawsD(1) [OF laws p0] t(1) by simp
  show ?thesis
  proof (cases "?m (keyPrefixMissingEventsIndex @ eid)")
    case None
    then show ?thesis using t p by (simp add: remove_tx_def Let_def)
  next
    case (Some i)
    then obtain t1 where t1: "lv_Delete L t (keyPrefixMissingEventsIndex @ eid) = Ok t1"
      using t(2) p by (auto simp: remove_tx_def Let_def)
    then have c1: "content t1 = ?m(keyPrefixMissingEventsIndex @ eid := None)" using lv_lawsD(3) [OF laws] t(1) by simp
    have "content t' = (content t1)(keyPrefixMissingEvents @ i := None)"
    proof (cases "lv_Delete L t1 (keyPrefixMissingEvents @ i)")
      case (Ok t2)
      with t(2) p Some t1 lv_lawsD(3) [OF laws Ok] show ?thesis by (simp add: remove_tx_def Let_def)
    next
      case (Err e)
      with t(2) p Some t1 have "e = ErrDBNotFound" "t' = t1" by (auto simp: remove_tx_def Let_def split: if_split_asm)
      with lv_lawsD(9) [OF laws] Err show ?thesis by (simp add: fun_upd_idem)
    qed (use t(2) p Some t1 in \<open>simp add: remove_tx_def Let_def\<close>)
    then show ?thesis using c1 t(3) Some by simp
  qed
qed

lemma RemoveMissingEvent_spec:
  assumes laws: "lv_laws L content" and inv: "store_inv tlib (content db)" and rem: "RemoveMissingEvent L eid db = Ok db'"
  shows "store_inv tlib (content db') \<and> counter_val (content db') = counter_val (content db)
    \<and> missing tlib (content db') = (missing tlib (content db))(eid := None)"
proof (cases "content db (keyPrefixMissingEventsIndex @ eid)")
  case None
  then have "missing tlib (content db) eid = None" by (simp add: missing_def)
  with None inv RemoveMissingEvent_content [OF laws rem] show ?thesis by (simp add: fun_upd_idem)
next
  case (Some i)
  have c: "content db' = (content db)(keyPrefixMissingEventsIndex @ eid := None, keyPrefixMissingEvents @ i := None)"
    using RemoveMissingEvent_content [OF laws rem] Some by simp
  have ev: "ev_inv tlib (counter_val (content db)) (content db)" using inv by (simp add: store_inv_def)
  from ev_inv_remove [OF ev Some c] inv show ?thesis by (simp add: store_inv_def counter_val_def c)
qed

text \<open>The commands on the missing events and their specification.\<close>

datatype store_cmd = CmdAdd "MissingEvent list" | CmdRetry int EventHash | CmdRemove EventHash

fun store_step :: "'d leveldb \<Rightarrow> timelib \<Rightarrow> store_cmd \<Rightarrow> 'd \<Rightarrow> 'd res" where
  "store_step L tlib (CmdAdd es) db = map_res snd (AddMissingEvents L tlib es db)"
| "store_step L tlib (CmdRetry now eid) db = IncrementMissingEventRetryCount L tlib now eid db"
| "store_step L tlib (CmdRemove eid) db = RemoveMissingEvent L eid db"

fun store_spec :: "store_cmd \<Rightarrow> (EventHash \<rightharpoonup> MissingEvent) \<Rightarrow> (EventHash \<rightharpoonup> MissingEvent)" where
  "store_spec (CmdAdd es) m = m ++ map_of (map (\<lambda>e. (me_EventId e, stored_form e)) es)"
| "store_spec (CmdRetry now eid) m = m(eid := map_option (\<lambda>e. stored_form (retried now e)) (m eid))"
| "store_spec (CmdRemove eid) m = m(eid := None)"

fun cmd_adds :: "store_cmd \<Rightarrow> nat" where
  "cmd_adds (CmdAdd es) = length es"
| "cmd_adds _ = 0"

fun cmd_ok :: "store_cmd \<Rightarrow> bool" where
  "cmd_ok (CmdAdd es) = (list_all me_wf es \<and> distinct (map me_EventId es))"
| "cmd_ok _ = True"

definition run_inv :: "'d leveldb \<Rightarrow> timelib \<Rightarrow> ('d \<Rightarrow> bytes \<rightharpoonup> bytes) \<Rightarrow> store_cmd list \<Rightarrow> 'd \<Rightarrow> bool" where
  "run_inv L tlib content cs db \<longleftrightarrow> lv_laws L content \<and> tm_laws tlib \<and> store_inv tlib (content db) \<and> list_all cmd_ok cs
     \<and> counter_val (content db) + sum_list (map cmd_adds cs) < 256 ^ 16"

interpretation store_sim: simulation "store_step L tlib" store_spec "run_inv L tlib content" "\<lambda>db. missing tlib (content db)"
  for L tlib content
proof unfold_locales
  fix c cs s s' assume inv: "run_inv L tlib content (c # cs) s" and st: "store_step L tlib c s = Ok s'"
  note laws = inv [unfolded run_inv_def]
  show "run_inv L tlib content cs s' \<and> missing tlib (content s') = store_spec c (missing tlib (content s))"
  proof (cases c)
    case (CmdAdd es)
    with st obtain ks where "AddMissingEvents L tlib es s = Ok (ks, s')" by auto
    from AddMissingEvents_spec [OF _ _ _ _ _ _ this, of content] laws CmdAdd show ?thesis
      by (simp add: run_inv_def list_all_iff)
  next
    case (CmdRetry now eid)
    with st IncrementMissingEventRetryCount_spec [of L content tlib s now eid s'] laws show ?thesis by (simp add: run_inv_def)
  next
    case (CmdRemove eid)
    with st RemoveMissingEvent_spec [of L content tlib s eid s'] laws show ?thesis by (simp add: run_inv_def)
  qed
qed

subsection \<open>Listing the missing events\<close>

text \<open>The stored entries in the order of their keys, as \<^verbatim>\<open>MissingEvents\<close> decodes them.\<close>

definition decode_entry :: "timelib \<Rightarrow> bytes \<times> bytes \<Rightarrow> MissingEventWithKey" where
  "decode_entry tlib kv = (case unmarshalMissingEvent tlib (snd kv) of
     Ok e \<Rightarrow> \<lparr>mk_MissingEvent = e, mk_Id = drop (length keyPrefixMissingEvents) (fst kv)\<rparr>)"

definition entry_ok :: "timelib \<Rightarrow> bytes \<times> bytes \<Rightarrow> bool" where
  "entry_ok tlib kv \<longleftrightarrow> length (drop (length keyPrefixMissingEvents) (fst kv)) = 16 \<and> is_ok (unmarshalMissingEvent tlib (snd kv))"

lemma missing_events_loop_take:
  assumes "list_all (entry_ok tlib) kvs" "\<forall>kv \<in> set kvs. after \<noteq> Some (drop (length keyPrefixMissingEvents) (fst kv))"
  shows "missing_events_loop tlib after n kvs = Ok (take n (map (decode_entry tlib) kvs))"
  using assms
proof (induction tlib after n kvs rule: missing_events_loop.induct)
  case (3 tlib after n k v kvs)
  then obtain e where "unmarshalMissingEvent tlib v = Ok e" by (auto simp: entry_ok_def is_ok_iff)
  with 3 show ?case by (simp add: entry_ok_def decode_entry_def Let_def)
qed simp_all

lemma sorted_wrt_dropWhile:
  assumes "sorted_wrt (<) (map fst kvs)" "\<forall>kv \<in> set (take i kvs). fst kv < key" "i < length kvs \<longrightarrow> key \<le> fst (kvs ! i)"
  shows "dropWhile (\<lambda>(k, v). k < (key :: bytes)) kvs = drop i kvs"
proof -
  have "kvs = take i kvs @ drop i kvs" by simp
  moreover have "dropWhile (\<lambda>(k, v). k < key) (take i kvs @ drop i kvs) = dropWhile (\<lambda>(k, v). k < key) (drop i kvs)"
    using assms(2) by (intro dropWhile_append2) auto
  moreover have "dropWhile (\<lambda>(k, v). k < key) (drop i kvs) = drop i kvs"
  proof (cases "i < length kvs")
    case True
    with assms(3) show ?thesis by (cases "kvs ! i") (simp add: Cons_nth_drop_Suc [symmetric] not_less)
  qed simp
  ultimately show ?thesis by simp
qed

lemma prefix_less_iff [simp]: "(p @ a < p @ b) = (a < (b :: bytes))"
  by (induction p) simp_all

text \<open>
  A page after a key returns what follows the first entry whose key is not smaller: the entry of the
  key itself when it is still stored, but the next entry, which is skipped, when it is not.
\<close>

lemma MissingEvents_page:
  assumes ok: "list_all (entry_ok tlib) kvs" "sorted_wrt (<) (map fst kvs)" "kvs = lv_Prefix L db keyPrefixMissingEvents"
    and i: "\<forall>kv \<in> set (take i kvs). fst kv < keyPrefixMissingEvents @ a" "i < length kvs \<longrightarrow> keyPrefixMissingEvents @ a \<le> fst (kvs ! i)"
    and "\<forall>kv \<in> set (drop (Suc i) kvs). prefix keyPrefixMissingEvents (fst kv)" "0 < limit"
  shows "MissingEvents L tlib (Some a) limit db = Ok (take (nat limit) (drop (Suc i) (map (decode_entry tlib) kvs)))"
proof -
  have "seek_next (keyPrefixMissingEvents @ a) kvs = drop (Suc i) kvs"
    using sorted_wrt_dropWhile [OF ok(2) i] by (simp add: seek_next_def)
  moreover have "list_all (entry_ok tlib) (drop (Suc i) kvs)" using ok(1) by (auto simp: list_all_iff dest: in_set_dropD)
  moreover have "\<forall>kv \<in> set (drop (Suc i) kvs). Some a \<noteq> Some (drop (length keyPrefixMissingEvents) (fst kv))"
  proof
    fix kv assume kv: "kv \<in> set (drop (Suc i) kvs)"
    then have l: "Suc i < length kvs" by (metis drop_all empty_iff list.set(1) not_less)
    have "sorted_wrt (<) (drop i (map fst kvs))" using ok(2) by (rule sorted_wrt_drop)
    moreover have "drop i (map fst kvs) = fst (kvs ! i) # map fst (drop (Suc i) kvs)"
      using l by (simp add: Cons_nth_drop_Suc [symmetric] drop_map)
    ultimately have "fst (kvs ! i) < fst kv" using kv by simp
    with i(2) l have "keyPrefixMissingEvents @ a < fst kv" by auto
    moreover have "fst kv = keyPrefixMissingEvents @ drop (length keyPrefixMissingEvents) (fst kv)"
      using assms(6) kv by (auto simp: prefix_def)
    ultimately show "Some a \<noteq> Some (drop (length keyPrefixMissingEvents) (fst kv))" by (metis less_irrefl option.inject)
  qed
  ultimately show ?thesis
    using missing_events_loop_take [of tlib "drop (Suc i) kvs" "Some a" "nat limit"] assms(3,7)
    by (simp add: MissingEvents_def Let_def drop_map)
qed

lemma entries_ok:
  assumes laws: "lv_laws L content" and inv: "store_inv tlib (content db)" and kv: "kv \<in> set (lv_Prefix L db keyPrefixMissingEvents)"
  obtains i eid where "fst kv = keyPrefixMissingEvents @ i" "entry_ok tlib kv" "missing tlib (content db) eid = Some (mk_MissingEvent (decode_entry tlib kv))"
    "content db (keyPrefixMissingEventsIndex @ eid) = Some i" "eid = me_EventId (mk_MissingEvent (decode_entry tlib kv))"
proof -
  obtain i where i: "fst kv = keyPrefixMissingEvents @ i" "content db (keyPrefixMissingEvents @ i) = Some (snd kv)"
    using kv by (auto simp: lv_lawsD(8) [OF laws] prefix_def)
  have ev: "ev_inv tlib (counter_val (content db)) (content db)" using inv by (simp add: store_inv_def)
  from ev i(2) obtain eid where eid: "content db (keyPrefixMissingEventsIndex @ eid) = Some i" by (rule ev_inv_entry)
  from ev eid obtain v e where "length i = 16" "content db (keyPrefixMissingEvents @ i) = Some v"
    "unmarshalMissingEvent tlib v = Ok e" "me_EventId e = eid" "missing tlib (content db) eid = Some e" by (rule ev_inv_index)
  with i eid that show ?thesis by (simp add: entry_ok_def decode_entry_def)
qed

definition missing_list :: "'d leveldb \<Rightarrow> timelib \<Rightarrow> 'd \<Rightarrow> MissingEventWithKey list" where
  "missing_list L tlib db = map (decode_entry tlib) (lv_Prefix L db keyPrefixMissingEvents)"

lemma sorted_wrt_ids:
  assumes "sorted_wrt (<) (map fst kvs)" "i < length kvs" "fst (kvs ! i) = key"
  shows "\<forall>kv \<in> set (take i kvs). fst kv < (key :: bytes)"
proof
  fix kv assume "kv \<in> set (take i kvs)"
  then obtain j where "j < i" "kv = kvs ! j" by (auto simp: in_set_conv_nth)
  with assms show "fst kv < key" using sorted_wrt_nth_less [OF assms(1), of j i] by simp
qed

lemma store_listing:
  assumes "lv_laws L content" "store_inv tlib (content db)"
  shows "list_all (entry_ok tlib) (lv_Prefix L db keyPrefixMissingEvents)"
    and "\<forall>kv \<in> set (lv_Prefix L db keyPrefixMissingEvents). prefix keyPrefixMissingEvents (fst kv)"
    and "sorted_wrt (<) (map fst (lv_Prefix L db keyPrefixMissingEvents))"
    and "i < length (lv_Prefix L db keyPrefixMissingEvents) \<Longrightarrow>
      fst (lv_Prefix L db keyPrefixMissingEvents ! i) = keyPrefixMissingEvents @ mk_Id (missing_list L tlib db ! i)"
proof -
  show *: "list_all (entry_ok tlib) (lv_Prefix L db keyPrefixMissingEvents)" unfolding list_all_iff
    using entries_ok [OF assms] by blast
  show p: "\<forall>kv \<in> set (lv_Prefix L db keyPrefixMissingEvents). prefix keyPrefixMissingEvents (fst kv)"
    using entries_ok [OF assms] by (metis prefixI)
  show "sorted_wrt (<) (map fst (lv_Prefix L db keyPrefixMissingEvents))" by (rule lv_lawsD(7) [OF assms(1)])
  assume i: "i < length (lv_Prefix L db keyPrefixMissingEvents)"
  then have "entry_ok tlib (lv_Prefix L db keyPrefixMissingEvents ! i)" using * by (simp add: list_all_length)
  moreover have "prefix keyPrefixMissingEvents (fst (lv_Prefix L db keyPrefixMissingEvents ! i))" using p i by simp
  ultimately show "fst (lv_Prefix L db keyPrefixMissingEvents ! i) = keyPrefixMissingEvents @ mk_Id (missing_list L tlib db ! i)"
    using i by (auto simp: missing_list_def decode_entry_def entry_ok_def is_ok_iff prefix_def)
qed

lemma sorted_keys_unique:
  assumes "sorted_wrt (<) (map fst xs)" "sorted_wrt (<) (map fst ys)" "set xs = set ys"
  shows "(xs :: (bytes \<times> bytes) list) = ys"
proof -
  have "map fst xs = map fst ys" using strict_sorted_equal [OF assms(2,1)] assms(3) by (metis list.set_map)
  moreover have "inj_on fst (set xs \<union> set ys)" using assms(1,3) by (simp add: strict_sorted_iff distinct_map)
  ultimately show ?thesis by (rule map_inj_on)
qed

text \<open>Removing the event of an entry takes that entry out of the list.\<close>

lemma listing_remove:
  assumes laws: "lv_laws L content" and inv: "store_inv tlib (content db)" and i: "i < length (missing_list L tlib db)"
    and rem: "RemoveMissingEvent L (me_EventId (mk_MissingEvent (missing_list L tlib db ! i))) db = Ok db'"
  shows "lv_Prefix L db' keyPrefixMissingEvents
    = take i (lv_Prefix L db keyPrefixMissingEvents) @ drop (Suc i) (lv_Prefix L db keyPrefixMissingEvents)"
proof -
  let ?kvs = "lv_Prefix L db keyPrefixMissingEvents"
  have i: "i < length ?kvs" "missing_list L tlib db ! i = decode_entry tlib (?kvs ! i)" using i by (simp_all add: missing_list_def)
  obtain j eid where j: "fst (?kvs ! i) = keyPrefixMissingEvents @ j" "content db (keyPrefixMissingEventsIndex @ eid) = Some j"
      "eid = me_EventId (mk_MissingEvent (decode_entry tlib (?kvs ! i)))"
    using entries_ok [OF laws inv nth_mem [OF i(1)]] by blast
  have c: "content db' = (content db)(keyPrefixMissingEventsIndex @ eid := None, keyPrefixMissingEvents @ j := None)"
    using RemoveMissingEvent_content [OF laws rem] i(2) j by simp
  have d: "distinct (map fst ?kvs)" using lv_lawsD(7) [OF laws] by (simp add: strict_sorted_iff)
  have split: "?kvs = take i ?kvs @ ?kvs ! i # drop (Suc i) ?kvs" using i(1) by (rule id_take_nth_drop)
  have o: "fst kv \<noteq> fst (?kvs ! i)" if "kv \<in> set (take i ?kvs @ drop (Suc i) ?kvs)" for kv
    using d that by (subst (asm) split) (auto simp: image_iff)
  have "set (take i ?kvs @ drop (Suc i) ?kvs) = {kv \<in> set ?kvs. fst kv \<noteq> fst (?kvs ! i)}"
    using o by (subst (3) split) auto
  also have "\<dots> = set (lv_Prefix L db' keyPrefixMissingEvents)"
    by (auto simp: lv_lawsD(8) [OF laws] c j(1) prefix_def split: if_split_asm)
  finally have "set (lv_Prefix L db' keyPrefixMissingEvents) = set (take i ?kvs @ drop (Suc i) ?kvs)" ..
  moreover have "sorted_wrt (<) (map fst (take i ?kvs @ drop (Suc i) ?kvs))"
    using lv_lawsD(7) [OF laws, of db keyPrefixMissingEvents] by (subst (asm) split) (simp add: sorted_wrt_append)
  ultimately show ?thesis by (intro sorted_keys_unique lv_lawsD(7) [OF laws]) simp_all
qed

text \<open>Every missing event is in the list, once.\<close>

lemma missing_list_complete:
  assumes "lv_laws L content" "store_inv tlib (content db)"
  shows "mk_MissingEvent ` set (missing_list L tlib db) = ran (missing tlib (content db))"
proof (intro equalityI subsetI)
  fix e assume "e \<in> mk_MissingEvent ` set (missing_list L tlib db)"
  then obtain kv where kv: "kv \<in> set (lv_Prefix L db keyPrefixMissingEvents)" "e = mk_MissingEvent (decode_entry tlib kv)"
    by (auto simp: missing_list_def)
  from entries_ok [OF assms kv(1)] kv(2) show "e \<in> ran (missing tlib (content db))" by (metis ranI)
next
  fix e assume "e \<in> ran (missing tlib (content db))"
  then obtain eid where "missing tlib (content db) eid = Some e" by (auto simp: ran_def)
  then obtain i v where "content db (keyPrefixMissingEvents @ i) = Some v" "unmarshalMissingEvent tlib v = Ok e"
    by (auto simp: missing_def split: option.split_asm res.split_asm)
  then show "e \<in> mk_MissingEvent ` set (missing_list L tlib db)"
    by (force simp: missing_list_def lv_lawsD(8) [OF assms(1)] image_image decode_entry_def)
qed

lemma card_index:
  assumes "lv_laws L content" "store_inv tlib (content db)"
  shows "length (lv_Prefix L db keyPrefixMissingEventsIndex) = card (dom (missing tlib (content db)))"
proof -
  let ?kvs = "lv_Prefix L db keyPrefixMissingEventsIndex"
  have d: "distinct (map fst ?kvs)" using lv_lawsD(7) [OF assms(1)] by (simp add: strict_sorted_iff)
  have "dom (missing tlib (content db)) = {eid. content db (keyPrefixMissingEventsIndex @ eid) \<noteq> None}"
    using dom_missing assms(2) unfolding store_inv_def by blast
  then have "fst ` set ?kvs = (@) keyPrefixMissingEventsIndex ` dom (missing tlib (content db))"
    by (force simp: lv_lawsD(8) [OF assms(1)] prefix_def image_iff)
  then have "card (set (map fst ?kvs)) = card ((@) keyPrefixMissingEventsIndex ` dom (missing tlib (content db)))" by simp
  also have "\<dots> = card (dom (missing tlib (content db)))" by (rule card_image) (simp add: inj_on_def)
  finally show ?thesis using distinct_card [OF d] by simp
qed

subsection \<open>The missing block ranges as a map\<close>

definition decode_range :: "bytes \<Rightarrow> BlockRange" where
  "decode_range v = \<lparr>br_Low = sint (Uint64 (take 8 v)), br_High = sint (Uint64 (drop 8 v))\<rparr>"

definition blocks :: "(bytes \<rightharpoonup> bytes) \<Rightarrow> bytes \<rightharpoonup> BlockRange" where
  "blocks m i = map_option decode_range (m (keyPrefixMissingBlocks @ i))"

definition block_counter :: "(bytes \<rightharpoonup> bytes) \<Rightarrow> nat" where
  "block_counter m = (case m keyMissingBlocksIdCounter of None \<Rightarrow> 0 | Some c \<Rightarrow> key_val c)"

definition block_inv :: "(bytes \<rightharpoonup> bytes) \<Rightarrow> bool" where
  "block_inv m \<longleftrightarrow> pred_option (\<lambda>c. length c = 16) (m keyMissingBlocksIdCounter) \<and>
     (\<forall>i v. m (keyPrefixMissingBlocks @ i) = Some v \<longrightarrow> length i = 16 \<and> length v = 16 \<and> key_val i \<le> block_counter m)"

definition range_wf :: "BlockRange \<Rightarrow> bool" where
  "range_wf r \<longleftrightarrow> int64 (br_Low r) \<and> int64 (br_High r)"

lemma block_key_distinct [simp]: "keyPrefixMissingBlocks @ x \<noteq> keyMissingBlocksIdCounter"
    "keyMissingBlocksIdCounter \<noteq> keyPrefixMissingBlocks @ x" "keyPrefixMissingBlocks @ x \<noteq> keyLastSeenBlockHeight"
    "keyLastSeenBlockHeight \<noteq> keyPrefixMissingBlocks @ x" "keyLastSeenBlockHeight \<noteq> keyMissingBlocksIdCounter"
  by (simp_all add: keyPrefixMissingBlocks_def keyMissingBlocksIdCounter_def keyLastSeenBlockHeight_def bz_def)

lemma BlockRange_bytes_simps [simp]: "length (BlockRange_bytes r) = 16" "range_wf r \<Longrightarrow> decode_range (BlockRange_bytes r) = r"
proof -
  show "length (BlockRange_bytes r) = 16" by (simp add: BlockRange_bytes_def)
  assume "range_wf r"
  then have "sint (Uint64 (int64ToBytes (br_Low r))) = br_Low r" "sint (Uint64 (int64ToBytes (br_High r))) = br_High r"
    by (simp_all add: int64ToBytes_def range_wf_def)
  then show "decode_range (BlockRange_bytes r) = r" by (simp add: decode_range_def BlockRange_bytes_def)
qed

lemma AddMissingBlocks_spec:
  assumes laws: "lv_laws L content" and inv: "block_inv (content db)" and r: "range_wf r"
    and n: "block_counter (content db) + 1 < 256 ^ 16" and add: "AddMissingBlocks L r db = Ok (i, db')"
  shows "block_inv (content db') \<and> blocks (content db) i = None \<and> blocks (content db') = (blocks (content db))(i \<mapsto> r)
    \<and> content db' keyLastSeenBlockHeight = content db keyLastSeenBlockHeight
    \<and> block_counter (content db') = block_counter (content db) + 1"
proof -
  let ?m = "content db" and ?c = keyMissingBlocksIdCounter
  from add obtain t t2 where t: "content t = ?m" "content db' = content t2"
      "bind_res (read_counter L ?c t) (\<lambda>i. let i = getNextKey i in bind_res (lv_Put L t ?c i) (\<lambda>t.
        bind_res (lv_Put L t (keyPrefixMissingBlocks @ i) (BlockRange_bytes r)) (\<lambda>t. Ok (i, t)))) = Ok (i, t2)"
    unfolding AddMissingBlocks_def withIncrementingId_def by (rule withTransactionE [OF laws])
  then obtain j t1 where j: "read_counter L ?c t = Ok j" "i = getNextKey j" "lv_Put L t ?c i = Ok t1"
      "lv_Put L t1 (keyPrefixMissingBlocks @ i) (BlockRange_bytes r) = Ok t2" by (auto simp: Let_def)
  have m': "content db' = ?m(?c \<mapsto> i, keyPrefixMissingBlocks @ i \<mapsto> BlockRange_bytes r)"
    using lv_lawsD(2) [OF laws j(3)] lv_lawsD(2) [OF laws j(4)] t(1,2) by simp
  obtain x where x: "lv_Get L t ?c = Ok x" using j(1) by (auto simp: read_counter_def)
  have "key_val (replicate 16 0) = 0" using key_val_replicate [of "[]" 16] by simp
  then have "length j = 16" "key_val j = block_counter ?m"
    using j(1) x lv_lawsD(1) [OF laws x] t(1) by (auto simp: read_counter_def block_counter_def split: option.split_asm if_split_asm)
  then have i: "length i = 16" "key_val i = block_counter ?m + 1" using getNextKey_val [of j] n j(2) by simp_all
  have "?m (keyPrefixMissingBlocks @ i) = None"
  proof (rule ccontr)
    assume "?m (keyPrefixMissingBlocks @ i) \<noteq> None"
    then obtain v where "?m (keyPrefixMissingBlocks @ i) = Some v" by auto
    with inv have "key_val i \<le> block_counter ?m" unfolding block_inv_def by blast
    with i show False by simp
  qed
  moreover have "block_counter (content db') = block_counter ?m + 1" using i by (simp add: m' block_counter_def)
  moreover from this have "block_inv (content db')" using inv i unfolding block_inv_def
    by (auto simp: m' le_SucI split: if_split_asm)
  moreover have "blocks (content db') = (blocks ?m)(i \<mapsto> r)" using r by (simp add: blocks_def m' fun_eq_iff)
  ultimately show ?thesis by (simp add: blocks_def m')
qed

lemma missing_blocks_loop_map:
  assumes "list_all (\<lambda>(k, v). length (drop (length keyPrefixMissingBlocks) k) = 16 \<and> length v = 16) kvs"
  shows "missing_blocks_loop kvs = Ok (map (\<lambda>(k, v). NewBlockRangeWithId (decode_range v) (drop (length keyPrefixMissingBlocks) k)) kvs)"
  using assms
proof (induction kvs rule: missing_blocks_loop.induct)
  case (2 k v kvs)
  then show ?case by (simp add: bytesToInt_def decode_range_def Let_def)
qed simp

lemma MissingBlocks_spec:
  assumes laws: "lv_laws L content" and inv: "block_inv (content db)"
  shows "\<exists>rs. MissingBlocks L db = Ok rs \<and> (\<lambda>r. (bi_Id r, bi_BlockRange r)) ` set rs = {(i, r). blocks (content db) i = Some r}"
proof -
  let ?kvs = "lv_Prefix L db keyPrefixMissingBlocks"
  have kv: "\<exists>i. k = keyPrefixMissingBlocks @ i \<and> content db (keyPrefixMissingBlocks @ i) = Some v \<and> length i = 16 \<and> length v = 16"
    if e: "(k, v) \<in> set ?kvs" for k v
  proof -
    obtain i where "k = keyPrefixMissingBlocks @ i" "content db (keyPrefixMissingBlocks @ i) = Some v"
      using e by (auto simp: lv_lawsD(8) [OF laws] prefix_def)
    with inv show ?thesis unfolding block_inv_def by blast
  qed
  then have "MissingBlocks L db = Ok (map (\<lambda>(k, v). NewBlockRangeWithId (decode_range v) (drop (length keyPrefixMissingBlocks) k)) ?kvs)"
    unfolding MissingBlocks_def by (intro missing_blocks_loop_map) (force simp: list_all_iff)
  moreover have "(\<lambda>(k, v). (drop (length keyPrefixMissingBlocks) k, decode_range v)) ` set ?kvs = {(i, r). blocks (content db) i = Some r}"
    by (force simp: lv_lawsD(8) [OF laws] prefix_def blocks_def)
  ultimately show ?thesis by (auto simp: image_image NewBlockRangeWithId_def case_prod_beta)
qed

lemma UpdateMissingBlockRange_spec:
  assumes "lv_laws L content" "block_inv (content db)" "range_wf (bi_BlockRange r)" "blocks (content db) (bi_Id r) \<noteq> None"
    and "UpdateMissingBlockRange L r db = Ok db'"
  shows "block_inv (content db') \<and> blocks (content db') = (blocks (content db))(bi_Id r \<mapsto> bi_BlockRange r)
    \<and> content db' keyLastSeenBlockHeight = content db keyLastSeenBlockHeight \<and> block_counter (content db') = block_counter (content db)"
proof -
  have m': "content db' = (content db)(keyPrefixMissingBlocks @ bi_Id r \<mapsto> BlockRange_bytes (bi_BlockRange r))"
    using lv_lawsD(2) [OF assms(1)] assms(5) by (simp add: UpdateMissingBlockRange_def)
  then have c: "block_counter (content db') = block_counter (content db)" by (simp add: block_counter_def)
  then show ?thesis using assms(2-4) by (auto simp: block_inv_def m' blocks_def fun_eq_iff split: if_split_asm)
qed

lemma RemoveMissingBlockRange_spec:
  assumes "lv_laws L content" "block_inv (content db)" "RemoveMissingBlockRange L i db = Ok db'"
  shows "block_inv (content db') \<and> blocks (content db') = (blocks (content db))(i := None)
    \<and> content db' keyLastSeenBlockHeight = content db keyLastSeenBlockHeight \<and> block_counter (content db') = block_counter (content db)"
proof -
  have m': "content db' = (content db)(keyPrefixMissingBlocks @ i := None)"
    using lv_lawsD(3) [OF assms(1)] assms(3) by (simp add: RemoveMissingBlockRange_def)
  then have c: "block_counter (content db') = block_counter (content db)" by (simp add: block_counter_def)
  then show ?thesis using assms(2) by (auto simp: block_inv_def m' blocks_def fun_eq_iff split: if_split_asm)
qed

subsection \<open>A database in memory\<close>

definition mem_leveldb :: "(bytes \<times> bytes) list leveldb" where
  "mem_leveldb = \<lparr>lv_Get = \<lambda>d k. Ok (map_of d k), lv_Put = \<lambda>d k v. Ok (AList.update k v d), lv_Delete = \<lambda>d k. Ok (AList.delete k d),
     lv_Write = \<lambda>d ops. Ok (fold (\<lambda>op d. case op of BPut k v \<Rightarrow> AList.update k v d | BDelete k \<Rightarrow> AList.delete k d) ops d),
     lv_Prefix = \<lambda>d p. map (\<lambda>k. (k, the (map_of d k))) (filter (prefix p) (sort (remdups (map fst d)))),
     lv_OpenTransaction = Ok, lv_Commit = Ok\<rparr>"

lemma mem_leveldb_laws: "lv_laws mem_leveldb map_of"
proof -
  have w: "map_of (fold (\<lambda>op d. case op of BPut k v \<Rightarrow> AList.update k v d | BDelete k \<Rightarrow> AList.delete k d) ops d) = fold apply_op ops (map_of d)"
    for ops and d :: "(bytes \<times> bytes) list"
    by (induction ops arbitrary: d) (auto simp: AList.update_conv' AList.delete_conv' split: batch_op.split)
  have s: "sorted_wrt (<) (filter (prefix p) (sort (remdups (map fst d))))" for p and d :: "(bytes \<times> bytes) list"
    by (simp add: strict_sorted_iff sorted_filter [of id, simplified])
  have e: "set (lv_Prefix mem_leveldb d p) = {(k, v). map_of d k = Some v \<and> prefix p k}" for d p
  proof (intro set_eqI iffI)
    fix kv assume "kv \<in> {(k, v). map_of d k = Some v \<and> prefix p k}"
    then obtain k v where kv: "kv = (k, v)" "map_of d k = Some v" "prefix p k" by auto
    then have "k \<in> fst ` set d" using map_of_SomeD by force
    with kv show "kv \<in> set (lv_Prefix mem_leveldb d p)" by (simp add: mem_leveldb_def image_iff)
  next
    fix kv assume "kv \<in> set (lv_Prefix mem_leveldb d p)"
    then show "kv \<in> {(k, v). map_of d k = Some v \<and> prefix p k}"
      by (auto simp: mem_leveldb_def weak_map_of_SomeI dest: weak_map_of_SomeI)
  qed
  show ?thesis unfolding lv_laws_def e using w s by (simp add: mem_leveldb_def AList.update_conv' AList.delete_conv' comp_def)
qed

definition mem_time :: timelib where
  "mem_time = \<lparr>tm_MarshalBinary = \<lambda>t. if int64 t then Ok (int64ToBytes t) else Err (OtherError ''year''), tm_UnmarshalBinary = bytesToInt\<rparr>"

lemma mem_time_laws: "tm_laws mem_time"
  by (simp add: tm_laws_def mem_time_def)

lemma store_inv_empty: "store_inv tlib (map_of [])"
  by (simp add: store_inv_def ev_inv_def)

lemma block_inv_empty: "block_inv (map_of [])"
  by (simp add: block_inv_def)

definition demo_cmds :: "store_cmd list" where
  "demo_cmds = [CmdAdd [NewMissingEvent [1] 5 7, NewMissingEvent [2] 6 8], CmdRemove [3]]"

definition demo_store :: "(bytes \<times> bytes) list" where
  "demo_store = (case run_steps (store_step mem_leveldb mem_time) demo_cmds [] of Ok db \<Rightarrow> db)"

lemma demo_run: "run_inv mem_leveldb mem_time map_of demo_cmds []"
  using mem_leveldb_laws mem_time_laws store_inv_empty [of mem_time]
  by (simp add: run_inv_def demo_cmds_def counter_val_def me_wf_def NewMissingEvent_def int64_def)

lemma demo_store_runs: "run_steps (store_step mem_leveldb mem_time) demo_cmds [] = Ok demo_store"
  by code_simp

lemma demo_store_inv: "store_inv mem_time (map_of demo_store)"
  using store_sim.run_sim [OF demo_run demo_store_runs] by (simp add: run_inv_def)

subsection \<open>Properties\<close>



text \<open>\<^verbatim>\<open>getNextKey\<close> is the successor on 128-bit big-endian numbers and wraps around after the last one.\<close>

lemma getNextKey_successor:
  assumes "length key = 16"
  shows "key_val (getNextKey key) = (key_val key + 1) mod 256 ^ 16"
  using getNextKey_val [OF assms] by simp

text \<open>What \<^verbatim>\<open>marshalMissingEvent\<close> writes is read back by \<^verbatim>\<open>unmarshalMissingEvent\<close>, except that the time of the
  last retry comes back as the time of receipt.\<close>

lemma missing_event_roundtrip:
  assumes "tm_laws tlib" "me_wf e" "marshalMissingEvent tlib e = Ok b"
  shows "unmarshalMissingEvent tlib b = Ok (e\<lparr>me_LastRetryTime := me_ReceivedTime e\<rparr>)"
  using unmarshal_marshal [OF assms] by (simp add: stored_form_def)

definition demo_missing :: MissingEvent where
  "demo_missing = (NewMissingEvent [1, 2] 5 7)\<lparr>me_LastRetryTime := 9, me_RetriedUnicast := True\<rparr>"

text \<open>The page that \<^verbatim>\<open>MissingEvents\<close> returns after a stored entry starts right behind it and has at most
  \<^verbatim>\<open>limit\<close> entries.\<close>

lemma missing_events_page:
  assumes "lv_laws L content" "store_inv tlib (content db)" "0 < limit" "i < length (missing_list L tlib db)"
  shows "MissingEvents L tlib (Some (mk_Id (missing_list L tlib db ! i))) limit db
    = Ok (take (nat limit) (drop (Suc i) (missing_list L tlib db)))"
proof -
  note l = store_listing [OF assms(1,2)]
  have i: "i < length (lv_Prefix L db keyPrefixMissingEvents)" using assms(4) by (simp add: missing_list_def)
  show ?thesis unfolding missing_list_def
    by (rule MissingEvents_page [OF l(1,3) refl])
      (use sorted_wrt_ids [OF l(3) i l(4) [OF i]] l(2) l(4) [OF i] assms(3)
       in \<open>auto simp: missing_list_def dest: in_set_dropD\<close>)
qed

lemma demo_list: "map (me_EventId \<circ> mk_MissingEvent) (missing_list mem_leveldb mem_time demo_store) = [[1], [2]]"
  by code_simp

text \<open>When the event of the last entry of a page has been removed, the next page starts one entry too
  late: the entry behind the removed one is never returned.\<close>

lemma missing_events_page_skips:
  assumes "lv_laws L content" "store_inv tlib (content db)" "0 < limit" "i < length (missing_list L tlib db)"
    and "RemoveMissingEvent L (me_EventId (mk_MissingEvent (missing_list L tlib db ! i))) db = Ok db'"
  shows "MissingEvents L tlib (Some (mk_Id (missing_list L tlib db ! i))) limit db'
    = Ok (take (nat limit) (drop (Suc (Suc i)) (missing_list L tlib db)))"
proof -
  let ?kvs = "lv_Prefix L db keyPrefixMissingEvents" and ?kvs' = "lv_Prefix L db' keyPrefixMissingEvents"
  note l = store_listing [OF assms(1,2)] and inv' = RemoveMissingEvent_spec [OF assms(1,2,5)]
  have i: "i < length ?kvs" using assms(4) by (simp add: missing_list_def)
  have r: "?kvs' = take i ?kvs @ drop (Suc i) ?kvs" by (rule listing_remove [OF assms(1,2,4,5)])
  then have t: "take i ?kvs' = take i ?kvs" "drop (Suc i) ?kvs' = drop (Suc (Suc i)) ?kvs" using i by (simp_all add: Suc_diff_le)
  have n: "fst (?kvs ! i) \<le> fst (?kvs' ! i)" if "i < length ?kvs'"
  proof -
    have "Suc i < length ?kvs" "?kvs' ! i = ?kvs ! Suc i" using that i r by (auto simp: nth_append)
    then show ?thesis using sorted_wrt_nth_less [OF l(3), of i "Suc i"] i by simp
  qed
  have inv: "store_inv tlib (content db')" using inv' by simp
  have "MissingEvents L tlib (Some (mk_Id (missing_list L tlib db ! i))) limit db'
      = Ok (take (nat limit) (drop (Suc i) (map (decode_entry tlib) ?kvs')))"
    by (rule MissingEvents_page [OF store_listing(1,3) [OF assms(1) inv] refl])
      (use sorted_wrt_ids [OF l(3) i l(4) [OF i]] n l(4) [OF i] store_listing(2) [OF assms(1) inv] assms(3) t(1)
       in \<open>auto dest: in_set_dropD\<close>)
  then show ?thesis using t(2) by (simp add: drop_map missing_list_def)
qed

lemma demo_remove: "RemoveMissingEvent mem_leveldb [1] demo_store = Ok (case RemoveMissingEvent mem_leveldb [1] demo_store of Ok db \<Rightarrow> db)"
  by code_simp

text \<open>\<^verbatim>\<open>MissingEventCount\<close> is the number of missing events.\<close>

lemma missing_event_count:
  assumes "lv_laws L content" "store_inv tlib (content db)"
  shows "MissingEventCount L db = int (card (dom (missing tlib (content db))))"
  by (simp add: MissingEventCount_def card_index [OF assms])

text \<open>\<^verbatim>\<open>AddMissingBlocks\<close> stores the range under an identifier that was not in use and leaves every other
  range, so that \<^verbatim>\<open>MissingBlocks\<close> lists the new range and the ones that were stored before.\<close>

lemma missing_blocks_added:
  assumes "lv_laws L content" "block_inv (content db)" "range_wf r" "block_counter (content db) + 1 < 256 ^ 16"
    and "AddMissingBlocks L r db = Ok (i, db')"
  shows "blocks (content db) i = None \<and> (\<exists>rs. MissingBlocks L db' = Ok rs \<and>
    (\<lambda>r. (bi_Id r, bi_BlockRange r)) ` set rs = insert (i, r) {(j, q). blocks (content db) j = Some q})"
proof -
  have 1: "block_inv (content db')" "blocks (content db) i = None" "blocks (content db') = (blocks (content db))(i \<mapsto> r)"
    using AddMissingBlocks_spec [OF assms] by blast+
  then have "{(j, q). blocks (content db') j = Some q} = insert (i, r) {(j, q). blocks (content db) j = Some q}"
    by (auto split: if_split_asm)
  with MissingBlocks_spec [OF assms(1) 1(1)] 1(2) show ?thesis by simp
qed

definition demo_range_store :: "bytes \<times> (bytes \<times> bytes) list" where
  "demo_range_store = (case AddMissingBlocks mem_leveldb (NewBlockRange 3 9) [] of Ok r \<Rightarrow> r)"

lemma demo_range_added: "AddMissingBlocks mem_leveldb (NewBlockRange 3 9) [] = Ok demo_range_store"
  by code_simp

end
