(* ===== verification/BlockchainClient.thy ===== *)
theory BlockchainClient
  imports Multiplexer Pool StateStore
begin

section \<open>The off-chain node's blockchain client (offchain-interface/pkg/blockchain)\<close>

text \<open>
  Queries for events, identities and the retention policy through the connection pool, the search for
  the events of a range of blocks and the handling of the events a node's websocket delivers. The RPC
  client of CometBFT is a parameter: a record of the calls the code makes on a connection \<open>'c\<close>. The
  last part connects the client with the model of the node: a connection that answers queries as the
  multiplexed application does.
\<close>

subsection \<open>Parameters\<close>

datatype tx_reply = TxFound "json option" | TxRpcError string | TxError go_error

record tx_found =
  tf_Data :: "json option"
  tf_Height :: int

record 'c rpc_client =
  rc_Tx :: "'c \<Rightarrow> bytes \<Rightarrow> tx_reply"
  rc_ABCIQuery :: "'c \<Rightarrow> string \<Rightarrow> json option \<Rightarrow> int \<Rightarrow> bool \<Rightarrow> ResponseQuery res"
  rc_TxSearch :: "'c \<Rightarrow> string \<Rightarrow> int \<Rightarrow> int \<Rightarrow> (tx_found list \<times> int) res"

text \<open>
  \<open>rc_Tx\<close> gives the data of the transaction's result, an \<^verbatim>\<open>RPCError\<close> with its data, or another error;
  \<open>rc_ABCIQuery\<close> takes path, data, height and whether a proof is wanted; \<open>rc_TxSearch\<close> takes query, page and
  page size and gives the transactions of the page and the number of all transactions. The client:
\<close>

record 'c RoundRobinClient =
  cl_MinimumNodes :: int
  cl_pool :: "'c Pool"

definition client_LivenessValidThreshold :: int where "client_LivenessValidThreshold = 10 * 1000000000"

definition NewRoundRobinClient :: "int \<Rightarrow> ('c \<times> int) list \<Rightarrow> ('c \<Rightarrow> bool) \<Rightarrow> 'c RoundRobinClient" where
  "NewRoundRobinClient minimumNodes clients ABCIInfo_ok = \<lparr>cl_MinimumNodes = minimumNodes,
     cl_pool = NewPool clients \<lparr>pc_LivenessValidThreshold = client_LivenessValidThreshold, pc_TestFunc = Some ABCIInfo_ok\<rparr>\<rparr>"

text \<open>A call on the next connection of the pool; \<open>test\<close> and \<open>clock\<close> are those of the pool.\<close>

definition with_conn :: "('c \<Rightarrow> bool) \<Rightarrow> ('c \<Rightarrow> int) \<Rightarrow> ('c \<Rightarrow> 'a res) \<Rightarrow> 'c RoundRobinClient \<Rightarrow> 'a res \<times> 'c RoundRobinClient" where
  "with_conn test clock f c = (case pool_Get test clock (cl_pool c) of
     (conn, pool) \<Rightarrow> (bind_res conn f, c\<lparr>cl_pool := pool\<rparr>))"

subsection \<open>client.go\<close>

definition strings_Contains :: "string \<Rightarrow> string \<Rightarrow> bool" where
  "strings_Contains s sub = list_ex (\<lambda>i. take (length sub) (drop i s) = sub) [0..<Suc (length s)]"

definition CreateResponse_of_json :: "extlib \<Rightarrow> json \<Rightarrow> Metadata res" where
  "CreateResponse_of_json lib j = bind_res (jfields j) (jstruct (Metadata_of_json lib) ''metadata'')"

definition metadata_by_tx :: "'c rpc_client \<Rightarrow> extlib \<Rightarrow> bytes \<Rightarrow> 'c \<Rightarrow> Metadata res" where
  "metadata_by_tx R lib txHash conn = (case rc_Tx R conn txHash of
     TxRpcError d \<Rightarrow> if strings_Contains d ''not found'' then Err ErrEventNotFound else Err (OtherError d)
   | TxError e \<Rightarrow> Err e
   | TxFound d \<Rightarrow> json_Unmarshal (CreateResponse_of_json lib) d)"

definition GetEventMetadataByTx ::
    "'c rpc_client \<Rightarrow> extlib \<Rightarrow> ('c \<Rightarrow> bool) \<Rightarrow> ('c \<Rightarrow> int) \<Rightarrow> bytes \<Rightarrow> 'c RoundRobinClient \<Rightarrow> Metadata res \<times> 'c RoundRobinClient" where
  "GetEventMetadataByTx R lib test clock txHash c = with_conn test clock (metadata_by_tx R lib txHash) c"

definition ABCIQueryOptions :: "int \<times> bool" where "ABCIQueryOptions = (0, True)"

definition event_by_id :: "'c rpc_client \<Rightarrow> ics23 \<Rightarrow> extlib \<Rightarrow> EventHash \<Rightarrow> 'c \<Rightarrow> EventWithMetadata res" where
  "event_by_id R ics lib eventId conn =
     (let dataMarshalled = MuxedRequest_json \<lparr>mx_App = events_AppName, mx_Data = None\<rparr>;
          path = ''/event-by-id/'' @ TxHash_String eventId
      in bind_res (rc_ABCIQuery R conn path (Some dataMarshalled) (fst ABCIQueryOptions) (snd ABCIQueryOptions)) (\<lambda>res.
         if rq_Code res \<noteq> 0 then
           (if rq_Codespace res = events_Codespace \<and> rq_Code res = CodeEventNotFound then Err ErrEventNotFound
            else Err ErrABCIQueryFailed)
         else bind_res (json_Unmarshal (EventWithMetadata_of_json lib) (rq_Value res)) (\<lambda>event.
           bind_res (ValidateProofOps ics (rq_ProofOps res)) (\<lambda>_. Ok event))))"

definition client_GetEventById ::
    "'c rpc_client \<Rightarrow> ics23 \<Rightarrow> extlib \<Rightarrow> ('c \<Rightarrow> bool) \<Rightarrow> ('c \<Rightarrow> int) \<Rightarrow> EventHash \<Rightarrow> 'c RoundRobinClient \<Rightarrow> EventWithMetadata res \<times> 'c RoundRobinClient" where
  "client_GetEventById R ics lib test clock eventId c = with_conn test clock (event_by_id R ics lib eventId) c"

definition GetEventByTx ::
    "'c rpc_client \<Rightarrow> ics23 \<Rightarrow> extlib \<Rightarrow> ('c \<Rightarrow> bool) \<Rightarrow> ('c \<Rightarrow> int) \<Rightarrow> bytes \<Rightarrow> 'c RoundRobinClient \<Rightarrow> EventWithMetadata res \<times> 'c RoundRobinClient" where
  "GetEventByTx R ics lib test clock txHash c = (case GetEventMetadataByTx R lib test clock txHash c of
     (Ok metadata, c) \<Rightarrow> client_GetEventById R ics lib test clock (md_EventId metadata) c
   | (Err e, c) \<Rightarrow> (Err e, c)
   | (Panic, c) \<Rightarrow> (Panic, c))"

text \<open>\<^verbatim>\<open>SearchEvents\<close>: a result that cannot be decoded is logged and left out. \<open>now\<close> is the clock, one reading per result.\<close>

definition EventCreate :: string where "EventCreate = ''create''"
definition AttributeType :: string where "AttributeType = ''type''"
definition AttributeEventId :: string where "AttributeEventId = ''event_id''"
definition AttributeValueCreate :: string where "AttributeValueCreate = ''create''"

definition search_query :: "int \<Rightarrow> int \<Rightarrow> string" where
  "search_query lowerHeight upperHeight = ''tx.height >= '' @ int_dec lowerHeight @ '' AND tx.height < '' @ int_dec upperHeight
     @ '' AND '' @ EventCreate @ ''.'' @ AttributeType @ ''='' @ [CHR 0x27] @ AttributeValueCreate @ [CHR 0x27]"

fun search_results :: "extlib \<Rightarrow> (nat \<Rightarrow> int) \<Rightarrow> nat \<Rightarrow> tx_found list \<Rightarrow> MissingEvent list res" where
  "search_results lib now i [] = Ok []"
| "search_results lib now i (t # ts) = (case json_Unmarshal (CreateResponse_of_json lib) (tf_Data t) of
     Panic \<Rightarrow> Panic
   | Err e \<Rightarrow> search_results lib now (Suc i) ts
   | Ok decoded \<Rightarrow> map_res (Cons \<lparr>me_EventId = md_EventId decoded, me_ReceivedTime = now i, me_BlockHeight = tf_Height t,
        me_LastRetryTime = time_zero, me_RetriedUnicast = False, me_RetryCount = 0\<rparr>) (search_results lib now (Suc i) ts))"

definition SearchEvents :: "'c rpc_client \<Rightarrow> extlib \<Rightarrow> ('c \<Rightarrow> bool) \<Rightarrow> ('c \<Rightarrow> int) \<Rightarrow> (nat \<Rightarrow> int) \<Rightarrow> int \<Rightarrow> int \<Rightarrow> int \<Rightarrow> int
    \<Rightarrow> 'c RoundRobinClient \<Rightarrow> (MissingEvent list \<times> int) res \<times> 'c RoundRobinClient" where
  "SearchEvents R lib test clock now lowerHeight upperHeight page limit c =
     with_conn test clock (\<lambda>conn.
       bind_res (rc_TxSearch R conn (search_query lowerHeight upperHeight) page limit) (\<lambda>(txs, total).
       bind_res (search_results lib now 0 txs) (\<lambda>missingEvents. Ok (missingEvents, total)))) c"

text \<open>The retention policy: \<open>None\<close> is the nil policy of a chain that has none set.\<close>

definition getRetentionPolicyForClient :: "'c rpc_client \<Rightarrow> extlib \<Rightarrow> 'c \<Rightarrow> StoredPolicy option res" where
  "getRetentionPolicyForClient R lib client =
     (let marshalled = MuxedRequest_json \<lparr>mx_App = retention_AppName, mx_Data = None\<rparr>
      in bind_res (rc_ABCIQuery R client ''/'' (Some marshalled) 0 False) (\<lambda>res.
         if rq_Codespace res = retention_Codespace \<and> rq_Code res = CodeOk
         then map_res Some (json_Unmarshal (StoredPolicy_of_json lib) (rq_Value res))
         else if rq_Codespace res = retention_Codespace \<and> rq_Code res = CodePolicyNotSet then Ok None
         else Err ErrABCIQueryFailed))"

fun fetch_policies :: "'c rpc_client \<Rightarrow> extlib \<Rightarrow> 'c list \<Rightarrow> StoredPolicy option list res" where
  "fetch_policies R lib [] = Ok []"
| "fetch_policies R lib (client # clients) = (case getRetentionPolicyForClient R lib client of
     Panic \<Rightarrow> Panic
   | Err e \<Rightarrow> fetch_policies R lib clients
   | Ok policy \<Rightarrow> map_res (Cons policy) (fetch_policies R lib clients))"

fun compare_policies :: "StoredPolicy option \<Rightarrow> StoredPolicy option list \<Rightarrow> StoredPolicy option res" where
  "compare_policies firstPolicy [] = Ok firstPolicy"
| "compare_policies firstPolicy (policy # policies) = (case (policy, firstPolicy) of
     (None, None) \<Rightarrow> compare_policies firstPolicy policies
   | (Some p, Some f) \<Rightarrow> if \<not> StoredPolicy_Equal f p then Err ErrPolicyMismatch else compare_policies firstPolicy policies
   | _ \<Rightarrow> Err ErrPolicyMismatch)"

definition GetRetentionPolicy :: "'c rpc_client \<Rightarrow> extlib \<Rightarrow> ('c \<Rightarrow> bool) \<Rightarrow> ('c \<Rightarrow> int) \<Rightarrow> 'c RoundRobinClient
    \<Rightarrow> StoredPolicy option res \<times> 'c RoundRobinClient" where
  "GetRetentionPolicy R lib test clock c = (case pool_GetAll test clock False (cl_pool c) of
     Panic \<Rightarrow> (Panic, c)
   | Err e \<Rightarrow> (Err e, c)
   | Ok (clients, pool) \<Rightarrow>
       (if int (length clients) < cl_MinimumNodes c then Err ErrNotEnoughNodes
        else bind_res (fetch_policies R lib clients) (\<lambda>policies.
          if int (length policies) < cl_MinimumNodes c \<or> length policies = 0 then Err ErrNotEnoughNodes
          else if length policies = 1 then Ok (hd policies)
          else compare_policies (hd policies) (tl policies)),
        c\<lparr>cl_pool := pool\<rparr>))"

subsection \<open>identity.go\<close>

definition identity_by_principal :: "'c rpc_client \<Rightarrow> ics23 \<Rightarrow> Principal \<Rightarrow> 'c \<Rightarrow> IdentityData res" where
  "identity_by_principal R ics who conn =
     (let dataMarshalled = MuxedRequest_json \<lparr>mx_App = identity_AppName, mx_Data = None\<rparr>
      in bind_res (rc_ABCIQuery R conn (''/'' @ who) (Some dataMarshalled) 0 False) (\<lambda>res.
         if rq_Code res \<noteq> CodeOk then
           (if rq_Codespace res = identity_Codespace \<and> rq_Code res = CodeNotFound then Err ErrPrincipalNotFound
            else Err (OtherError ''unexpected error fetching principal''))
         else bind_res (json_Unmarshal IdentityData_UnmarshalJSON (rq_Value res)) (\<lambda>identityData.
           bind_res (ValidateProofOps ics (rq_ProofOps res)) (\<lambda>_. Ok identityData))))"

definition GetIdentity :: "'c rpc_client \<Rightarrow> ics23 \<Rightarrow> ('c \<Rightarrow> bool) \<Rightarrow> ('c \<Rightarrow> int) \<Rightarrow> Principal
    \<Rightarrow> 'c RoundRobinClient \<Rightarrow> IdentityData res \<times> 'c RoundRobinClient" where
  "GetIdentity R ics test clock who c = with_conn test clock (identity_by_principal R ics who) c"

subsection \<open>subscriber.go\<close>

text \<open>
  The values that the two channels of a websocket deliver: the data of a new block, the attributes of a
  transaction, or \<open>Closed\<close>. A round of the loop sends a block height, a missing event or nothing.
\<close>

datatype 'a recv = Received 'a | Closed

datatype ws_input = NewBlock "json recv" | ChainEvent "(string \<times> string list) list recv"

datatype ws_output = SendHeight int | SendEvent MissingEvent | SendNothing

fun traverseJsonMap :: "json \<Rightarrow> string list \<Rightarrow> string res" where
  "traverseJsonMap working [] = Err (OtherError ''no value found'')"
| "traverseJsonMap working [field] = (case working of
     JObj fs \<Rightarrow> (case map_of (rev fs) field of Some (JStr val) \<Rightarrow> Ok val | _ \<Rightarrow> Err (OtherError ''Field is not of type string''))
   | _ \<Rightarrow> Err (OtherError ''Field is not a map''))"
| "traverseJsonMap working (field # rest) = (case working of
     JObj fs \<Rightarrow> (case map_of (rev fs) field of
        Some (JObj next) \<Rightarrow> traverseJsonMap (JObj next) rest
      | _ \<Rightarrow> Err (OtherError ''Field is not a map''))
   | _ \<Rightarrow> Err (OtherError ''Field is not a map''))"

definition new_block_height :: "json \<Rightarrow> int res" where
  "new_block_height d = bind_res (traverseJsonMap d [''value'', ''block'', ''header'', ''height'']) ParseInt"

definition chain_event :: "int \<Rightarrow> (string \<times> string list) list \<Rightarrow> MissingEvent res" where
  "chain_event now evs =
     (let key = EventCreate @ ''.'' @ AttributeEventId in
      case map_of evs key of
        Some (eventId # _) \<Rightarrow> (case map_of evs ''tx.height'' of
          Some (height # _) \<Rightarrow>
            bind_res (ParseInt height) (\<lambda>blockHeight.
            bind_res (hex_DecodeString eventId) (\<lambda>eventIdDecoded.
              Ok (NewMissingEvent eventIdDecoded now blockHeight)))
        | _ \<Rightarrow> Err (OtherError ''Received event without block height''))
      | _ \<Rightarrow> Err (OtherError ''Received event without event ID''))"

text \<open>
  One round. The state says which of the two channels is not nil. A closed channel is set to nil and
  the zero value is handled like any other, which ends in \<^verbatim>\<open>continue\<close>: the test for both channels being
  nil at the end of the round is reached only after a value was sent. The result is \<open>None\<close> when the
  loop ends.
\<close>

definition ends_loop :: "bool \<times> bool \<Rightarrow> (bool \<times> bool) option" where
  "ends_loop chans = (if \<not> fst chans \<and> \<not> snd chans then None else Some chans)"

fun subscribe_round :: "int \<Rightarrow> ws_input \<Rightarrow> bool \<times> bool \<Rightarrow> ws_output \<times> (bool \<times> bool) option" where
  "subscribe_round now (NewBlock ev) (nb, ce) = (case ev of
     Closed \<Rightarrow> (SendNothing, Some (False, ce))
   | Received d \<Rightarrow> (case new_block_height d of
       Ok h \<Rightarrow> (SendHeight h, ends_loop (nb, ce))
     | _ \<Rightarrow> (SendNothing, Some (nb, ce))))"
| "subscribe_round now (ChainEvent ev) (nb, ce) = (case ev of
     Closed \<Rightarrow> (SendNothing, Some (nb, False))
   | Received evs \<Rightarrow> (case chain_event now evs of
       Ok e \<Rightarrow> (SendEvent e, ends_loop (nb, ce))
     | _ \<Rightarrow> (SendNothing, Some (nb, ce))))"

text \<open>The select statement takes a value only from a channel that is not nil.\<close>

fun selectable :: "ws_input \<Rightarrow> bool \<times> bool \<Rightarrow> bool" where
  "selectable (NewBlock _) (nb, ce) = nb"
| "selectable (ChainEvent _) (nb, ce) = ce"

inductive subscribe_run :: "(bool \<times> bool) option \<Rightarrow> ws_output list \<Rightarrow> bool" where
  start: "subscribe_run (Some (True, True)) []"
| round: "subscribe_run (Some chans) out \<Longrightarrow> selectable inp chans \<Longrightarrow> subscribe_round now inp chans = (o1, chans') \<Longrightarrow>
    subscribe_run chans' (out @ [o1])"

inductive_cases subscribe_runE: "subscribe_run st out"

subsection \<open>The policies of the nodes\<close>

lemma compare_policies_Ok: "compare_policies f ps = Ok p \<Longrightarrow> p = f \<and> set ps \<subseteq> {f}"
  by (induction f ps rule: compare_policies.induct) (auto split: option.split_asm if_split_asm)

lemma compare_policies_same: "set ps \<subseteq> {f} \<Longrightarrow> compare_policies f ps = Ok f"
  by (induction f ps rule: compare_policies.induct) (auto split: option.split)

lemma fetch_policies_Ok:
  assumes "fetch_policies R lib clients = Ok ps"
  shows "ps = concat (map (\<lambda>c. case getRetentionPolicyForClient R lib c of Ok p \<Rightarrow> [p] | _ \<Rightarrow> []) clients)"
  using assms by (induction clients arbitrary: ps) (auto split: res.split_asm)

subsection \<open>Reading from a node\<close>

lemma lower_hex_digit: "n < 16 \<Longrightarrow> lower_hex (hex_digit n)"
  by (auto simp: lower_hex_def hex_digit_def is_digit_def)

lemma lower_hex_EncodeToString: "list_all lower_hex (hex_EncodeToString b)"
proof (induction b)
  case (Cons w b)
  have "unat w < 256" by (rule unat_word_bounds)
  with Cons show ?case by (simp add: lower_hex_digit)
qed simp

lemma match_event_path_id: "length i = 32 \<Longrightarrow> match_event_path (''/event-by-id/'' @ TxHash_String i) = Some (hex_EncodeToString i)"
  by (simp add: match_event_path_def HasPrefix_def TxHash_String_def lower_hex_EncodeToString Let_def)

text \<open>A connection to a node that runs the multiplexed application in the state \<open>app\<close>.\<close>

definition answers_as :: "('t, 'd) env \<Rightarrow> ('t, 'd) MultiplexedApplication \<Rightarrow> 'c rpc_client \<Rightarrow> 'c \<Rightarrow> bool" where
  "answers_as E app R conn \<longleftrightarrow> (\<forall>path d height proof_wanted. rc_ABCIQuery R conn path d height proof_wanted
     = mux_Query E \<lparr>rqq_Data = d, rqq_Path = path, rqq_Height = height, rqq_Prove = proof_wanted\<rparr> app)"

text \<open>The tree proves what it stores: ics23 accepts the proof that iavl makes for a key.\<close>

definition tree_proves :: "'t iavl \<Rightarrow> ics23 \<Rightarrow> 't \<Rightarrow> bytes \<Rightarrow> bool" where
  "tree_proves T ics t key \<longleftrightarrow> is_ok (iv_GetWithIndex T t key) \<and> (\<forall>p. \<exists>m. pf_Marshal ics p = Ok m \<and> pf_Unmarshal ics m = Ok p)
     \<and> (\<exists>root pr. iv_Hash T t = Ok root \<and> iv_GetProof T t key = Ok pr \<and> proof_accepted ics root key pr)"

lemma tree_provesE:
  assumes "tree_proves T ics t key"
  obtains index b proofOp where "iv_GetWithIndex T t key = Ok (index, b)" "ProofOpForTree T ics t key = Ok proofOp"
    "ValidateProofOps ics (Some (ProofOps proofOp)) = Ok ()"
proof -
  obtain root pr where p: "iv_Hash T t = Ok root" "iv_GetProof T t key = Ok pr" "proof_accepted ics root key pr"
    using assms by (auto simp: tree_proves_def)
  have "bind_res (ProofOpForTree T ics t key) (\<lambda>op. ValidateProofOps ics (Some (ProofOps op))) = Ok ()"
    using proof_op_validates [OF _ p] assms by (simp add: tree_proves_def)
  moreover obtain x where "iv_GetWithIndex T t key = Ok x" using assms by (auto simp: tree_proves_def is_ok_iff)
  ultimately show ?thesis using that by (cases x) auto
qed

lemma events_query_decoded:
  "json_Unmarshal MuxedRequest_of_json (Some (MuxedRequest_json \<lparr>mx_App = a, mx_Data = None\<rparr>)) = Ok \<lparr>mx_App = a, mx_Data = Some JNull\<rparr>"
  by (simp add: json_Unmarshal_def MuxedRequest_of_json_def MuxedRequest_json_def rpc_json_simps)

lemma event_by_id_stored:
  assumes laws: "iavl_laws (en_T E) view saved latest" and wf: "uuid_laws (en_lib E)" "Event_wf (sc_Event (em_ScrubbedEvent e))"
    and stored: "view (ea_tree (mx_events app)) i = Some (EventWithMetadata_json (en_lib E) e)" and i: "length i = 32"
    and proves: "tree_proves (en_T E) (en_ics E) (ea_tree (mx_events app)) i" and conn: "answers_as E app R conn"
  shows "event_by_id R (en_ics E) (en_lib E) i conn = Ok e"
proof -
  let ?t = "ea_tree (mx_events app)" and ?req = "MuxedRequest_json \<lparr>mx_App = events_AppName, mx_Data = None\<rparr>"
  obtain index b proofOp where g: "iv_GetWithIndex (en_T E) ?t i = Ok (index, b)" "ProofOpForTree (en_T E) (en_ics E) ?t i = Ok proofOp"
      and v: "ValidateProofOps (en_ics E) (Some (ProofOps proofOp)) = Ok ()"
    using tree_provesE [OF proves] by blast
  have b: "b = Some (EventWithMetadata_json (en_lib E) e)" using iavl_lawsD(2) [OF laws g(1)] stored by simp
  note rt = EventWithMetadata_json_roundtrip [OF wf]
  have "ev_GetWithProof (en_T E) (en_ics E) (en_lib E) ?t i
      = Ok \<lparr>it_Item = Some e, it_Index = index, it_Height = GetProofHeight (en_T E) ?t, it_ProofOp = proofOp\<rparr>"
    using g b rt by (simp add: ev_GetWithProof_def)
  moreover have "\<not> ''/event-by-id/'' @ TxHash_String i = ''/count''" by simp
  ultimately have "\<exists>h. events_Query (en_T E) (en_ics E) (en_lib E) (mx_events app)
      \<lparr>rqq_Data = Some ?req, rqq_Path = ''/event-by-id/'' @ TxHash_String i, rqq_Height = 0, rqq_Prove = True\<rparr>
      = Ok \<lparr>rq_Code = CodeOk, rq_Log = ''Event found'', rq_Index = index, rq_Key = i, rq_Value = Some (EventWithMetadata_json (en_lib E) e),
           rq_ProofOps = Some (ProofOps proofOp), rq_Height = h, rq_Codespace = events_Codespace\<rparr>"
    using match_event_path_id [OF i] by (simp add: events_Query_def Item_ProofOps_def Let_def)
  moreover have "lookup_app events_AppName = Some Events" by (simp add: lookup_app_def events_AppName_def identity_AppName_def)
  ultimately have "\<exists>h. rc_ABCIQuery R conn (''/event-by-id/'' @ TxHash_String i) (Some ?req) 0 True
      = Ok \<lparr>rq_Code = CodeOk, rq_Log = ''Event found'', rq_Index = index, rq_Key = i, rq_Value = Some (EventWithMetadata_json (en_lib E) e),
           rq_ProofOps = Some (ProofOps proofOp), rq_Height = h, rq_Codespace = events_Codespace\<rparr>"
    using conn by (simp add: answers_as_def mux_Query_def events_query_decoded)
  then obtain h where "rc_ABCIQuery R conn (''/event-by-id/'' @ TxHash_String i) (Some ?req) 0 True
      = Ok \<lparr>rq_Code = CodeOk, rq_Log = ''Event found'', rq_Index = index, rq_Key = i, rq_Value = Some (EventWithMetadata_json (en_lib E) e),
           rq_ProofOps = Some (ProofOps proofOp), rq_Height = h, rq_Codespace = events_Codespace\<rparr>" ..
  then show ?thesis using rt v by (simp add: event_by_id_def ABCIQueryOptions_def json_Unmarshal_def CodeOk_def)
qed

lemma with_conn_usable:
  assumes "\<forall>conn \<in> set (p_conns (cl_pool c)). f conn = r" "\<exists>conn \<in> set (p_conns (cl_pool c)). usable test clock (cl_pool c) conn"
  shows "fst (with_conn test clock f c) = r"
proof -
  obtain x p' where g: "pool_Get test clock (cl_pool c) = (x, p')" by fastforce
  note q = pool_Get_props [of test clock "cl_pool c", unfolded g]
  from q assms(2) obtain conn where conn: "x = Ok conn" "conn \<in> set (p_conns p')" "usable test clock (cl_pool c) conn" by auto
  then have "conn \<in># {#c' \<in># mset (p_conns p'). usable test clock (cl_pool c) c'#}" by simp
  with q have "conn \<in># {#c' \<in># mset (p_conns (cl_pool c)). usable test clock (cl_pool c) c'#}" by simp
  then have "f conn = r" using assms(1) by simp
  with g conn show ?thesis by (simp add: with_conn_def)
qed

subsection \<open>Properties\<close>

text \<open>C30. An off-chain client whose connections lead to nodes that have an event in their tree reads exactly
  that event by its identifier, proof included, whenever the pool has a usable connection.\<close>

theorem client_reads_stored_event:
  assumes "iavl_laws (en_T E) view saved latest" "uuid_laws (en_lib E)" "Event_wf (sc_Event (em_ScrubbedEvent e))"
    and "view (ea_tree (mx_events app)) i = Some (EventWithMetadata_json (en_lib E) e)" "length i = 32"
    and "tree_proves (en_T E) (en_ics E) (ea_tree (mx_events app)) i"
    and "\<forall>conn \<in> set (p_conns (cl_pool c)). answers_as E app R conn"
    and "\<exists>conn \<in> set (p_conns (cl_pool c)). usable test clock (cl_pool c) conn"
  shows "fst (client_GetEventById R (en_ics E) (en_lib E) test clock i c) = Ok e"
  unfolding client_GetEventById_def
proof (rule with_conn_usable [OF _ assms(8)])
  show "\<forall>conn \<in> set (p_conns (cl_pool c)). event_by_id R (en_ics E) (en_lib E) i conn = Ok e"
    using event_by_id_stored [OF assms(1-6), of R] assms(7) by blast
qed

definition demo_stored_event :: EventWithMetadata where
  "demo_stored_event = \<lparr>em_ScrubbedEvent = \<lparr>OffChainHash = ''00'', sc_Event = demo_event\<rparr>,
     em_Metadata = \<lparr>md_EventId = replicate 32 1, ReceivedTime = 5, md_Principal = ''root''\<rparr>\<rparr>"

definition demo_node :: "(mem_tree, (bytes \<times> json) list) MultiplexedApplication" where
  "demo_node = demo_mux\<lparr>mx_events := \<lparr>ea_tree = \<lparr>mt_view = [(replicate 32 1, EventWithMetadata_json (en_lib demo_env) demo_stored_event)],
     mt_versions = []\<rparr>, ea_versionNumber = 0, ea_creating = []\<rparr>, mx_retention := \<lparr>ra_db = [], ra_policy = Some (demo_stored 7200000000000), ra_txPolicy = None\<rparr>\<rparr>"

definition demo_rpc :: "string rpc_client" where
  "demo_rpc = \<lparr>rc_Tx = \<lambda>_ _. TxRpcError ''tx not found'',
     rc_ABCIQuery = \<lambda>_ path d h pw. mux_Query demo_env \<lparr>rqq_Data = d, rqq_Path = path, rqq_Height = h, rqq_Prove = pw\<rparr> demo_node,
     rc_TxSearch = \<lambda>_ _ _ _. Ok ([], 0)\<rparr>"

definition demo_client :: "int \<Rightarrow> string RoundRobinClient" where
  "demo_client n = NewRoundRobinClient n [(''node1'', 5)] (\<lambda>_. True)"

lemma demo_client_conns: "p_conns (cl_pool (demo_client n)) = [''node1'']"
  by (simp add: demo_client_def NewRoundRobinClient_def NewPool_def pool_Add_def)

theorem client_reads_stored_event_witness:
  "fst (client_GetEventById demo_rpc demo_ics (en_lib demo_env) (\<lambda>_. True) (\<lambda>_. 7) (replicate 32 1) (demo_client 1)) = Ok demo_stored_event"
proof -
  have u: "uuid_laws (en_lib demo_env)" using demo_lib_uuid_laws by (simp add: uuid_laws_def demo_env_def)
  have w: "Event_wf (sc_Event (em_ScrubbedEvent demo_stored_event))"
    by (simp add: demo_stored_event_def Event_wf_def demo_event_def int64_def)
  have v: "mem_view (ea_tree (mx_events demo_node)) (replicate 32 1) = Some (EventWithMetadata_json (en_lib demo_env) demo_stored_event)"
    by (simp add: mem_view_def demo_node_def)
  have t: "tree_proves mem_iavl demo_ics (ea_tree (mx_events demo_node)) (replicate 32 1)"
    using demo_ics_codec by (simp add: tree_proves_def mem_iavl_def demo_node_def proof_accepted_def demo_ics_def)
  have l: "iavl_laws (en_T demo_env) mem_view mem_saved mem_latest" using mem_iavl_laws by (simp add: demo_env_def)
  show ?thesis
    using client_reads_stored_event [OF l u w v, of "demo_client 1" demo_rpc "\<lambda>_. True" "\<lambda>_. 7"] t
    by (simp add: demo_client_conns answers_as_def demo_rpc_def usable_def) (simp add: demo_env_def)
qed

text \<open>C31. A retention policy that the client accepts is the answer of every node that answered, and at least
  \<^verbatim>\<open>MinimumNodes\<close> answers were counted.\<close>

theorem retention_policy_agreed:
  assumes "fst (GetRetentionPolicy R lib test clock c) = Ok policy" "pool_GetAll test clock False (cl_pool c) = Ok (clients, pool)"
  shows "(\<forall>conn \<in> set clients. \<forall>answer. getRetentionPolicyForClient R lib conn = Ok answer \<longrightarrow> answer = policy)
    \<and> cl_MinimumNodes c \<le> int (length (filter (\<lambda>conn. is_ok (getRetentionPolicyForClient R lib conn)) clients))"
proof -
  obtain ps where ps: "fetch_policies R lib clients = Ok ps" "\<not> int (length ps) < cl_MinimumNodes c" "ps \<noteq> []"
      "length ps = 1 \<and> policy = hd ps \<or> compare_policies (hd ps) (tl ps) = Ok policy"
    using assms by (auto simp: GetRetentionPolicy_def split: if_split_asm)
  have "set ps = {policy}" using compare_policies_Ok [of "hd ps" "tl ps" policy] ps(3,4) by (cases ps) auto
  moreover have c: "ps = concat (map (\<lambda>c. case getRetentionPolicyForClient R lib c of Ok p \<Rightarrow> [p] | _ \<Rightarrow> []) clients)"
    by (rule fetch_policies_Ok [OF ps(1)])
  moreover have "length (concat (map (\<lambda>c. case getRetentionPolicyForClient R lib c of Ok p \<Rightarrow> [p] | _ \<Rightarrow> []) clients))
      = length (filter (\<lambda>conn. is_ok (getRetentionPolicyForClient R lib conn)) clients)"
    by (induction clients) (auto split: res.split)
  ultimately show ?thesis using ps(2) by (fastforce split: res.split_asm)
qed

lemma demo_policy_answer: "getRetentionPolicyForClient demo_rpc (en_lib demo_env) conn = Ok (Some (demo_stored 7200000000000))"
  by code_simp

lemma demo_getall: "pool_GetAll (\<lambda>_. True) (\<lambda>_. 7) False (cl_pool (demo_client n)) = Ok ([''node1'', ''node1''], cl_pool (demo_client n))"
proof -
  have "recently_tested (\<lambda>_. 7) (cl_pool (demo_client n)) ''node1''"
    by (simp add: demo_client_def NewRoundRobinClient_def NewPool_def pool_Add_def recently_tested_def client_LivenessValidThreshold_def)
  then show ?thesis using pool_GetAll_live [of "\<lambda>_. True" "cl_pool (demo_client n)"] by (simp add: demo_client_conns)
qed

lemma demo_policy_accepted:
  "GetRetentionPolicy demo_rpc (en_lib demo_env) (\<lambda>_. True) (\<lambda>_. 7) (demo_client 2) = (Ok (Some (demo_stored 7200000000000)), demo_client 2)"
  by (simp add: GetRetentionPolicy_def demo_getall demo_policy_answer compare_policies_same) (simp add: demo_client_def NewRoundRobinClient_def)

theorem retention_policy_agreed_witness:
  "cl_MinimumNodes (demo_client 2) \<le> int (length (filter (\<lambda>conn. is_ok (getRetentionPolicyForClient demo_rpc (en_lib demo_env) conn)) [''node1'', ''node1'']))"
  using retention_policy_agreed [OF _ demo_getall, of demo_rpc "en_lib demo_env"] demo_policy_accepted by simp

text \<open>A single node that was tested recently is enough for a client that requires two nodes: it is asked
  twice and its answer is accepted.\<close>

lemma one_node_counts_as_two:
  assumes "p_conns (cl_pool c) = [conn]" "test conn" "recently_tested clock (cl_pool c) conn"
    and "getRetentionPolicyForClient R lib conn = Ok policy" "cl_MinimumNodes c \<le> 2"
  shows "GetRetentionPolicy R lib test clock c = (Ok policy, c)"
proof -
  have "pool_GetAll test clock False (cl_pool c) = Ok ([conn, conn], cl_pool c)"
    using pool_GetAll_live [of test "cl_pool c" clock] assms(1-3) by simp
  with assms(4,5) compare_policies_same [of "[policy]" policy] show ?thesis
    by (simp add: GetRetentionPolicy_def del: compare_policies.simps)
qed

text \<open>The loop of \<^verbatim>\<open>subscribe\<close> never ends, even when both channels are closed: it then waits on two nil
  channels, so that the subscription is not renewed.\<close>

lemma subscription_never_ends:
  assumes "subscribe_run st out"
  shows "st \<noteq> None"
  using assms
proof cases
  case (round chans out' inp now o1)
  then show ?thesis by (cases inp; cases chans) (auto simp: ends_loop_def split: recv.split_asm res.split_asm if_split_asm)
qed simp

lemma demo_closed: "subscribe_run (Some (False, False)) [SendNothing, SendNothing]"
proof -
  have "subscribe_run (Some (False, True)) ([] @ [SendNothing])"
    by (rule subscribe_run.round [OF subscribe_run.start, where inp = "NewBlock Closed" and now = 0]) simp_all
  then have "subscribe_run (Some (False, False)) (([] @ [SendNothing]) @ [SendNothing])"
    by (rule subscribe_run.round [where inp = "ChainEvent Closed" and now = 0]) simp_all
  then show ?thesis by simp
qed

end
