(* ===== verification/Harmoniser.thy ===== *)
theory Harmoniser
  imports BlockchainClient
begin

section \<open>The harmoniser (offchain-interface/pkg/harmoniser)\<close>

text \<open>
  The harmoniser keeps the off-chain node complete: it notes the blocks it has not seen
  (harmoniser.go), searches them for events (blockbacklog.go) and asks other nodes for the data of the
  events it misses (eventbacklog.go). Its state is the state store. An error of the store is logged and
  the loop goes on (\<open>logged\<close>). The search on the blockchain, the local event repository, the
  transport and the clock are arguments; a request to shut down, which ends a loop, is not modelled.
\<close>

definition logged :: "'d res \<Rightarrow> 'd \<Rightarrow> 'd res" where
  "logged r db = (case r of Ok db' \<Rightarrow> Ok db' | Err e \<Rightarrow> Ok db | Panic \<Rightarrow> Panic)"

lemma logged_simps [simp]: "logged (Ok d) db = Ok d" "logged (Err e) db = Ok db" "logged Panic db = Panic"
  by (simp_all add: logged_def)

subsection \<open>harmoniser.go: new blocks and events\<close>

definition on_block_height :: "'d leveldb \<Rightarrow> int \<Rightarrow> 'd \<Rightarrow> 'd res" where
  "on_block_height L blockHeight db = (case LastSeenBlockHeight L db of
     Panic \<Rightarrow> Panic
   | Err e \<Rightarrow> Ok db
   | Ok lastBlockHeight \<Rightarrow>
       (let finish = (\<lambda>db. logged (SetLastSeenBlockHeight L blockHeight db) db)
        in if lastBlockHeight = None \<and> blockHeight > 0
           then bind_res (logged (map_res snd (AddMissingBlocks L (NewBlockRange 0 blockHeight) db)) db) finish
           else case lastBlockHeight of
             None \<Rightarrow> Panic
           | Some l \<Rightarrow>
               if l \<ge> blockHeight then Ok db
               else if wrap64 (l + 1) \<noteq> blockHeight
               then bind_res (logged (map_res snd (AddMissingBlocks L (NewBlockRange (wrap64 (l + 1)) blockHeight) db)) db) finish
               else finish db))"

definition on_event :: "'d leveldb \<Rightarrow> timelib \<Rightarrow> MissingEvent \<Rightarrow> 'd \<Rightarrow> 'd res" where
  "on_event L tlib ev db = logged (map_res snd (AddMissingEvents L tlib [ev] db)) db"

text \<open>\<^verbatim>\<open>ListenForMissedItems\<close> handles what arrives on the two channels, in any order.\<close>

fun listen_step :: "'d leveldb \<Rightarrow> timelib \<Rightarrow> ws_output \<Rightarrow> 'd \<Rightarrow> 'd res" where
  "listen_step L tlib (SendHeight h) db = on_block_height L h db"
| "listen_step L tlib (SendEvent ev) db = on_event L tlib ev db"
| "listen_step L tlib SendNothing db = Ok db"

subsection \<open>blockbacklog.go\<close>

fun add_each :: "'d leveldb \<Rightarrow> timelib \<Rightarrow> MissingEvent list \<Rightarrow> 'd \<Rightarrow> 'd res" where
  "add_each L tlib [] db = Ok db"
| "add_each L tlib (event # evs) db =
     bind_res (logged (map_res snd (AddMissingEvents L tlib [event] db)) db) (add_each L tlib evs)"

definition handleBacklogChunk :: "'d leveldb \<Rightarrow> timelib \<Rightarrow> BlockRangeWithId \<Rightarrow> MissingEvent list \<Rightarrow> 'd \<Rightarrow> 'd res" where
  "handleBacklogChunk L tlib blockRange evs db =
     bind_res (add_each L tlib evs db) (\<lambda>db.
       if evs = [] then Ok db
       else
         let maxHeight = me_BlockHeight (last evs); high = br_High (bi_BlockRange blockRange)
         in if maxHeight \<ge> wrap64 (high - 1)
            then logged (RemoveMissingBlockRange L (bi_Id blockRange) db) db
            else logged (UpdateMissingBlockRange L (NewBlockRangeWithId (NewBlockRange maxHeight high) (bi_Id blockRange)) db) db)"

text \<open>
  The pages of a range. \<open>search low high page chunk w\<close> is \<^verbatim>\<open>SearchEvents\<close> on the client state \<open>w\<close>. The loop
  runs while fewer results were retrieved than exist, each round counting a full chunk; with a chunk
  size of 0 it does not end. The flag says whether all pages could be fetched.
\<close>

type_synonym 'w search = "int \<Rightarrow> int \<Rightarrow> int \<Rightarrow> int \<Rightarrow> 'w \<Rightarrow> (MissingEvent list \<times> int) res \<times> 'w"

partial_function (option) backfill_pages ::
    "'d leveldb \<Rightarrow> timelib \<Rightarrow> 'w search \<Rightarrow> BlockRangeWithId \<Rightarrow> int \<Rightarrow> int \<Rightarrow> int \<Rightarrow> int \<Rightarrow> 'w \<Rightarrow> 'd \<Rightarrow> (bool \<times> 'w \<times> 'd) res option" where
  "backfill_pages L tlib search r chunk totalCount retrieved page w db =
     (if retrieved < totalCount then
        (case search (br_Low (bi_BlockRange r)) (br_High (bi_BlockRange r)) page chunk w of (found, w) \<Rightarrow>
          (case found of
             Panic \<Rightarrow> Some Panic
           | Err e \<Rightarrow> Some (Ok (False, w, db))
           | Ok (evs, _) \<Rightarrow> (case handleBacklogChunk L tlib r evs db of
                Panic \<Rightarrow> Some Panic
              | Err e \<Rightarrow> Some (Err e)
              | Ok db \<Rightarrow> backfill_pages L tlib search r chunk totalCount (wrap64 (retrieved + chunk)) (wrap64 (page + 1)) w db)))
      else Some (Ok (True, w, db)))"

definition backfill_range :: "'d leveldb \<Rightarrow> timelib \<Rightarrow> 'w search \<Rightarrow> int \<Rightarrow> BlockRangeWithId \<Rightarrow> 'w \<Rightarrow> 'd \<Rightarrow> ('w \<times> 'd) res option" where
  "backfill_range L tlib search chunk r w db =
     (case search (br_Low (bi_BlockRange r)) (br_High (bi_BlockRange r)) 1 chunk w of (found, w) \<Rightarrow>
       (case found of
          Panic \<Rightarrow> Some Panic
        | Err e \<Rightarrow> Some (Ok (w, db))
        | Ok (evs, totalCount) \<Rightarrow> (case handleBacklogChunk L tlib r evs db of
             Panic \<Rightarrow> Some Panic
           | Err e \<Rightarrow> Some (Err e)
           | Ok db \<Rightarrow> map_option (\<lambda>res. bind_res res (\<lambda>(complete, w, db).
               if complete then map_res (Pair w) (logged (RemoveMissingBlockRange L (bi_Id r) db) db) else Ok (w, db)))
               (backfill_pages L tlib search r chunk totalCount chunk 2 w db))))"

fun backfill_ranges :: "'d leveldb \<Rightarrow> timelib \<Rightarrow> 'w search \<Rightarrow> int \<Rightarrow> BlockRangeWithId list \<Rightarrow> 'w \<Rightarrow> 'd \<Rightarrow> ('w \<times> 'd) res option" where
  "backfill_ranges L tlib search chunk [] w db = Some (Ok (w, db))"
| "backfill_ranges L tlib search chunk (r # rs) w db = (case backfill_range L tlib search chunk r w db of
     None \<Rightarrow> None
   | Some Panic \<Rightarrow> Some Panic
   | Some (Err e) \<Rightarrow> Some (Err e)
   | Some (Ok (w, db)) \<Rightarrow> backfill_ranges L tlib search chunk rs w db)"

text \<open>One tick of \<^verbatim>\<open>StartBlockBackfillLoop\<close>.\<close>

definition block_backfill_tick :: "'d leveldb \<Rightarrow> timelib \<Rightarrow> 'w search \<Rightarrow> int \<Rightarrow> 'w \<Rightarrow> 'd \<Rightarrow> ('w \<times> 'd) res option" where
  "block_backfill_tick L tlib search chunk w db = (case MissingBlocks L db of
     Panic \<Rightarrow> Some Panic
   | Err e \<Rightarrow> Some (Ok (w, db))
   | Ok missingBlocks \<Rightarrow> if missingBlocks = [] then Some (Ok (w, db)) else backfill_ranges L tlib search chunk missingBlocks w db)"

subsection \<open>eventbacklog.go\<close>

record Backfill =
  bf_TryUnicastFirst :: bool
  bf_EventFetchChunkSize :: int
  bf_NewEventIgnoreThreshold :: int
  bf_EventRetryInterval :: int
  bf_EventMaxRetries :: int

text \<open>
  \<^verbatim>\<open>handleMissingEvent\<close>: \<open>exists\<close> is the answer of the local repository, \<open>now\<close> and \<open>now'\<close> are the two readings
  of the clock. The result says whether to request the event and whether to use multicast.
\<close>

definition handleMissingEvent :: "'d leveldb \<Rightarrow> Backfill \<Rightarrow> (EventHash \<Rightarrow> bool res) \<Rightarrow> int \<Rightarrow> int \<Rightarrow> MissingEvent \<Rightarrow> 'd
    \<Rightarrow> ((bool \<times> bool) \<times> 'd) res" where
  "handleMissingEvent L cfg exists now now' ev db =
     bind_res (exists (me_EventId ev)) (\<lambda>alreadyExists.
       if alreadyExists then map_res (Pair (False, False)) (RemoveMissingEvent L (me_EventId ev) db)
       else if me_ReceivedTime ev > now + wrap64 (- bf_NewEventIgnoreThreshold cfg) then Ok ((False, False), db)
       else if me_RetryCount ev \<ge> bf_EventMaxRetries cfg
       then map_res (Pair (False, False)) (RemoveMissingEvent L (me_EventId ev) db)
       else if now' < me_LastRetryTime ev + bf_EventRetryInterval cfg then Ok ((False, False), db)
       else if bf_TryUnicastFirst cfg \<and> \<not> me_RetriedUnicast ev then Ok ((True, False), db)
       else Ok ((True, True), db))"

text \<open>
  A page of missing events is sorted into the two buffers; an event whose handling fails is left out.
  \<open>clock\<close> gives the readings for an event.
\<close>

fun sort_page :: "'d leveldb \<Rightarrow> Backfill \<Rightarrow> (EventHash \<Rightarrow> bool res) \<Rightarrow> (EventHash \<Rightarrow> int \<times> int) \<Rightarrow> MissingEventWithKey list
    \<Rightarrow> EventHash list \<Rightarrow> EventHash list \<Rightarrow> 'd \<Rightarrow> (EventHash list \<times> EventHash list \<times> 'd) res" where
  "sort_page L cfg exists clock [] multicast unicast db = Ok (multicast, unicast, db)"
| "sort_page L cfg exists clock (ev # evs) multicast unicast db =
     (let e = mk_MissingEvent ev; i = me_EventId e in
      case handleMissingEvent L cfg exists (fst (clock i)) (snd (clock i)) e db of
        Panic \<Rightarrow> Panic
      | Err _ \<Rightarrow> sort_page L cfg exists clock evs multicast unicast db
      | Ok ((shouldRequest, useMulticast), db) \<Rightarrow>
          if shouldRequest then
            (if useMulticast then sort_page L cfg exists clock evs (multicast @ [i]) unicast db
             else sort_page L cfg exists clock evs multicast (unicast @ [i]) db)
          else sort_page L cfg exists clock evs multicast unicast db)"

fun increment_each :: "'d leveldb \<Rightarrow> timelib \<Rightarrow> (EventHash \<Rightarrow> int) \<Rightarrow> EventHash list \<Rightarrow> 'd \<Rightarrow> 'd res" where
  "increment_each L tlib now [] db = Ok db"
| "increment_each L tlib now (i # is) db = bind_res (logged (IncrementMissingEventRetryCount L tlib (now i) i db) db) (increment_each L tlib now is)"

text \<open>
  One round of the inner loop of \<^verbatim>\<open>StartEventBackfillLoop\<close> with what the environment answers in it. The
  result: the requests that were sent (\<open>True\<close> for multicast), the next \<^verbatim>\<open>after\<close>, whether the loop goes on,
  and the store.
\<close>

record round_env =
  re_exists :: "EventHash \<Rightarrow> bool res"
  re_clock :: "EventHash \<Rightarrow> int \<times> int"
  re_now :: "EventHash \<Rightarrow> int"
  re_broadcast :: "unit res"
  re_unicast :: "unit res"

definition send_buffer :: "'d leveldb \<Rightarrow> timelib \<Rightarrow> (EventHash \<Rightarrow> int) \<Rightarrow> bool \<Rightarrow> EventHash list \<Rightarrow> unit res \<Rightarrow> 'd
    \<Rightarrow> ((bool \<times> EventHash list) list \<times> bool \<times> 'd) res" where
  "send_buffer L tlib now multicast buffer sent db =
     (if buffer = [] then Ok ([], True, db)
      else bind_res (increment_each L tlib now buffer db) (\<lambda>db. case sent of
        Panic \<Rightarrow> Panic
      | Err e \<Rightarrow> Ok ([], False, db)
      | Ok _ \<Rightarrow> Ok ([(multicast, buffer)], True, db)))"

definition event_backfill_round :: "'d leveldb \<Rightarrow> timelib \<Rightarrow> Backfill \<Rightarrow> round_env \<Rightarrow> bytes option \<Rightarrow> 'd
    \<Rightarrow> ((bool \<times> EventHash list) list \<times> bytes option \<times> bool \<times> 'd) res" where
  "event_backfill_round L tlib cfg env after db = (case MissingEvents L tlib after (bf_EventFetchChunkSize cfg) db of
     Panic \<Rightarrow> Panic
   | Err e \<Rightarrow> Ok ([], after, True, db)
   | Ok missingEvents \<Rightarrow>
       if missingEvents = [] then Ok ([], after, False, db)
       else
         bind_res (sort_page L cfg (re_exists env) (re_clock env) missingEvents [] [] db) (\<lambda>(multicast, unicast, db).
         let after = Some (mk_Id (last missingEvents)) in
         bind_res (send_buffer L tlib (re_now env) True multicast (re_broadcast env) db) (\<lambda>(sent, go_on, db).
           if \<not> go_on then Ok (sent, after, True, db)
           else bind_res (send_buffer L tlib (re_now env) False unicast (re_unicast env) db) (\<lambda>(sent', go_on, db).
             if \<not> go_on then Ok (sent @ sent', after, True, db)
             else Ok (sent @ sent', after, \<not> int (length missingEvents) < bf_EventFetchChunkSize cfg, db)))))"

text \<open>A tick of the loop: rounds until one ends it, or until the given answers are used up.\<close>

fun event_backfill_tick :: "'d leveldb \<Rightarrow> timelib \<Rightarrow> Backfill \<Rightarrow> round_env list \<Rightarrow> bytes option \<Rightarrow> 'd
    \<Rightarrow> ((bool \<times> EventHash list) list \<times> bool \<times> 'd) res" where
  "event_backfill_tick L tlib cfg [] after db = Ok ([], False, db)"
| "event_backfill_tick L tlib cfg (env # envs) after db =
     bind_res (event_backfill_round L tlib cfg env after db) (\<lambda>(sent, after, go_on, db).
       if \<not> go_on then Ok (sent, True, db)
       else bind_res (event_backfill_tick L tlib cfg envs after db) (\<lambda>(sent', ended, db). Ok (sent @ sent', ended, db)))"

subsection \<open>A store that does not fail\<close>

definition lv_total :: "'d leveldb \<Rightarrow> bool" where
  "lv_total L \<longleftrightarrow> (\<forall>d k. is_ok (lv_Get L d k)) \<and> (\<forall>d k v. is_ok (lv_Put L d k v)) \<and> (\<forall>d k. is_ok (lv_Delete L d k))
     \<and> (\<forall>d ops. is_ok (lv_Write L d ops)) \<and> (\<forall>d. is_ok (lv_OpenTransaction L d)) \<and> (\<forall>d. is_ok (lv_Commit L d))"

lemma lv_totalD:
  assumes "lv_total L"
  shows "\<exists>v. lv_Get L d k = Ok v" "\<exists>d'. lv_Put L d k v = Ok d'" "\<exists>d'. lv_Delete L d k = Ok d'" "\<exists>d'. lv_Write L d ops = Ok d'"
    "\<exists>d'. lv_OpenTransaction L d = Ok d'" "\<exists>d'. lv_Commit L d = Ok d'"
  using assms unfolding lv_total_def is_ok_iff by blast+

lemma withTransaction_Ok:
  assumes "lv_laws L content" "lv_total L" "\<And>t. content t = content db \<Longrightarrow> is_ok (f t)"
  shows "is_ok (withTransaction L f db)"
proof -
  obtain t where t: "lv_OpenTransaction L db = Ok t" using lv_totalD(5) [OF assms(2)] by blast
  then have "content t = content db" by (rule lv_lawsD(5) [OF assms(1)])
  with assms(3) obtain v t' where "f t = Ok (v, t')" by (metis is_ok_iff surj_pair)
  with t lv_totalD(6) [OF assms(2), of t'] show ?thesis by (auto simp: withTransaction_def)
qed

lemma read_counter_Ok:
  assumes "lv_laws L content" "lv_total L" "pred_option (\<lambda>c. length c = 16) (content t k)"
  shows "\<exists>i. read_counter L k t = Ok i"
proof -
  obtain v where v: "lv_Get L t k = Ok v" using lv_totalD(1) [OF assms(2)] by blast
  with lv_lawsD(1) [OF assms(1) v] assms(3) show ?thesis by (auto simp: read_counter_def split: option.split)
qed

lemma AddMissingBlocks_Ok:
  assumes laws: "lv_laws L content" "lv_total L" and "block_inv (content db)"
  obtains i db' where "AddMissingBlocks L r db = Ok (i, db')"
proof -
  have "is_ok (AddMissingBlocks L r db)" unfolding AddMissingBlocks_def withIncrementingId_def
  proof (rule withTransaction_Ok [OF laws])
    fix t assume "content t = content db"
    then have "pred_option (\<lambda>c. length c = 16) (content t keyMissingBlocksIdCounter)" using assms(3) by (simp add: block_inv_def)
    then obtain i where i: "read_counter L keyMissingBlocksIdCounter t = Ok i" using read_counter_Ok [OF laws] by blast
    obtain t1 where "lv_Put L t keyMissingBlocksIdCounter (getNextKey i) = Ok t1" using lv_totalD(2) [OF laws(2)] by blast
    moreover obtain t2 where "lv_Put L t1 (keyPrefixMissingBlocks @ getNextKey i) (BlockRange_bytes r) = Ok t2"
      using lv_totalD(2) [OF laws(2)] by blast
    ultimately show "is_ok (bind_res (read_counter L keyMissingBlocksIdCounter t) (\<lambda>i. let i = getNextKey i in
        bind_res (lv_Put L t keyMissingBlocksIdCounter i) (\<lambda>t. bind_res (lv_Put L t (keyPrefixMissingBlocks @ i) (BlockRange_bytes r)) (\<lambda>t. Ok (i, t)))))"
      using i by (simp add: Let_def)
  qed
  then show ?thesis using that by (auto simp: is_ok_iff)
qed

subsection \<open>No block is lost\<close>

definition covered :: "(bytes \<rightharpoonup> bytes) \<Rightarrow> int set" where
  "covered m = {b. \<exists>i r. blocks m i = Some r \<and> br_Low r \<le> b \<and> b < br_High r}"

text \<open>
  The last seen height is the greatest height that arrived, and every block up to it has arrived or
  lies in a missing range.
\<close>

definition heights_inv :: "int set \<Rightarrow> (bytes \<rightharpoonup> bytes) \<Rightarrow> bool" where
  "heights_inv seen m \<longleftrightarrow> block_inv m \<and> (case m keyLastSeenBlockHeight of
     None \<Rightarrow> seen = {}
   | Some v \<Rightarrow> (\<exists>l. v = int64ToBytes l \<and> int64 l \<and> l \<in> seen \<and> (\<forall>b \<in> seen. b \<le> l) \<and> {0..l} \<subseteq> seen \<union> covered m))"

lemma covered_upd: "blocks m i = None \<Longrightarrow> blocks m' = (blocks m)(i \<mapsto> r) \<Longrightarrow> covered m' = covered m \<union> {br_Low r..<br_High r}"
proof (intro set_eqI iffI)
  fix b assume i: "blocks m i = None" and m': "blocks m' = (blocks m)(i \<mapsto> r)" and b: "b \<in> covered m \<union> {br_Low r..<br_High r}"
  show "b \<in> covered m'"
  proof (cases "b \<in> covered m")
    case True
    then obtain j q where "blocks m j = Some q" "br_Low q \<le> b" "b < br_High q" by (auto simp: covered_def)
    moreover from this i have "blocks m' j = Some q" by (auto simp: m')
    ultimately show ?thesis by (auto simp: covered_def)
  next
    case False
    with b m' have "blocks m' i = Some r" "br_Low r \<le> b" "b < br_High r" by auto
    then show ?thesis by (auto simp: covered_def)
  qed
qed (auto simp: covered_def split: if_split_asm)

lemma wrap64_int64: "int64 x \<Longrightarrow> wrap64 x = x"
  by (simp add: wrap64_def int64_def)

lemma last_counter_distinct [simp]: "keyMissingBlocksIdCounter \<noteq> keyLastSeenBlockHeight"
  by (simp add: keyLastSeenBlockHeight_def keyMissingBlocksIdCounter_def bz_def)

lemma SetLast_spec:
  assumes laws: "lv_laws L content" "lv_total L" and h: "int64 h" "h \<in> seen" "\<forall>b \<in> seen. b \<le> h"
    and inv: "block_inv (content db)" "{0..h} \<subseteq> seen \<union> covered (content db)"
  obtains db' where "logged (SetLastSeenBlockHeight L h db) db = Ok db'" "heights_inv seen (content db')"
    "block_counter (content db') = block_counter (content db)"
proof -
  obtain db' where put: "lv_Put L db keyLastSeenBlockHeight (int64ToBytes h) = Ok db'" using lv_totalD(2) [OF laws(2)] by blast
  have m': "content db' = (content db)(keyLastSeenBlockHeight \<mapsto> int64ToBytes h)" by (rule lv_lawsD(2) [OF laws(1) put])
  have b: "blocks (content db') = blocks (content db)" "block_counter (content db') = block_counter (content db)"
    by (simp_all add: m' blocks_def block_counter_def fun_eq_iff)
  then have "block_inv (content db')" using inv(1) by (simp add: block_inv_def m' block_counter_def)
  moreover have "covered (content db') = covered (content db)" by (simp add: covered_def b)
  ultimately have "heights_inv seen (content db')" using h inv(2) by (auto simp: heights_inv_def m')
  with put b(2) that show ?thesis by (simp add: SetLastSeenBlockHeight_def)
qed

lemma add_range_step:
  assumes laws: "lv_laws L content" "lv_total L" and inv: "block_inv (content db)" "block_counter (content db) + 1 < 256 ^ 16"
    and r: "range_wf (NewBlockRange low h)" and h: "int64 h" "h \<in> seen" "\<forall>b \<in> seen. b \<le> h" "{0..<low} \<subseteq> seen \<union> covered (content db)"
  obtains db' where "bind_res (logged (map_res snd (AddMissingBlocks L (NewBlockRange low h) db)) db) (\<lambda>db. logged (SetLastSeenBlockHeight L h db) db) = Ok db'"
    "heights_inv seen (content db')" "block_counter (content db') \<le> block_counter (content db) + 1"
proof -
  obtain i db1 where add: "AddMissingBlocks L (NewBlockRange low h) db = Ok (i, db1)" using AddMissingBlocks_Ok [OF laws inv(1)] .
  have s: "block_inv (content db1)" "block_counter (content db1) = block_counter (content db) + 1"
      "covered (content db1) = covered (content db) \<union> {low..<h}"
    using AddMissingBlocks_spec [OF laws(1) inv(1) r inv(2) add] covered_upd by (auto simp: NewBlockRange_def)
  have "{0..h} \<subseteq> {0..<low} \<union> {low..<h} \<union> {h}" by auto
  then have "{0..h} \<subseteq> seen \<union> covered (content db1)" using h s(3) by blast
  then obtain db' where "logged (SetLastSeenBlockHeight L h db1) db1 = Ok db'" "heights_inv seen (content db')"
      "block_counter (content db') = block_counter (content db1)"
    using SetLast_spec [OF laws h(1-3) s(1)] by blast
  with add s(2) that show ?thesis by simp
qed

lemma on_block_height_step:
  assumes laws: "lv_laws L content" "lv_total L" and inv: "heights_inv seen (content db)" and n: "block_counter (content db) + 1 < 256 ^ 16"
    and h: "0 < h" "int64 h"
  obtains db' where "on_block_height L h db = Ok db'" "heights_inv (insert h seen) (content db')"
    "block_counter (content db') \<le> block_counter (content db) + 1"
proof -
  have bi: "block_inv (content db)" using inv by (simp add: heights_inv_def)
  obtain v where v: "lv_Get L db keyLastSeenBlockHeight = Ok v" using lv_totalD(1) [OF laws(2)] by blast
  then have v': "content db keyLastSeenBlockHeight = v" using lv_lawsD(1) [OF laws(1) v] by simp
  show ?thesis
  proof (cases v)
    case None
    then have last: "LastSeenBlockHeight L db = Ok None" using v by (simp add: LastSeenBlockHeight_def)
    have "seen = {}" using inv v' None by (simp add: heights_inv_def)
    then obtain db' where "bind_res (logged (map_res snd (AddMissingBlocks L (NewBlockRange 0 h) db)) db) (\<lambda>db. logged (SetLastSeenBlockHeight L h db) db) = Ok db'"
        "heights_inv (insert h seen) (content db')" "block_counter (content db') \<le> block_counter (content db) + 1"
      using add_range_step [OF laws bi n _ h(2), of 0 "insert h seen"] h(2) by (auto simp: range_wf_def NewBlockRange_def int64_def)
    with last h(1) that show ?thesis by (simp add: on_block_height_def)
  next
    case (Some x)
    then obtain l where l: "x = int64ToBytes l" "int64 l" "l \<in> seen" "\<forall>b \<in> seen. b \<le> l" "{0..l} \<subseteq> seen \<union> covered (content db)"
      using inv v' by (auto simp: heights_inv_def)
    have last: "LastSeenBlockHeight L db = Ok (Some l)" using v Some l by (simp add: LastSeenBlockHeight_def)
    show ?thesis
    proof (cases "l \<ge> h")
      case True
      have "heights_inv (insert h seen) (content db)" using inv l v' Some True by (auto simp: heights_inv_def)
      with last True that show ?thesis by (simp add: on_block_height_def)
    next
      case False
      have i: "int64 (l + 1)" using False l(2) h(2) by (simp add: int64_def)
      have s: "h \<in> insert h seen" "\<forall>b \<in> insert h seen. b \<le> h" "{0..<l + 1} \<subseteq> insert h seen \<union> covered (content db)"
        using False l(4,5) by (auto simp: atLeastLessThan_def atLeastAtMost_def)
      show ?thesis
      proof (cases "l + 1 = h")
        case True
        then have "{0..h} \<subseteq> {0..<l + 1} \<union> {h}" by auto
        with s(1,3) have "{0..h} \<subseteq> insert h seen \<union> covered (content db)" by blast
        then obtain db' where "logged (SetLastSeenBlockHeight L h db) db = Ok db'" "heights_inv (insert h seen) (content db')"
            "block_counter (content db') = block_counter (content db)"
          using SetLast_spec [OF laws h(2) s(1,2) bi] by blast
        with last False True that show ?thesis by (simp add: on_block_height_def wrap64_int64 [OF h(2)])
      next
        case ne: False
        have "range_wf (NewBlockRange (l + 1) h)" using i h(2) by (simp add: range_wf_def NewBlockRange_def)
        from add_range_step [OF laws bi n this h(2) s]
        obtain db' where "bind_res (logged (map_res snd (AddMissingBlocks L (NewBlockRange (l + 1) h) db)) db) (\<lambda>db. logged (SetLastSeenBlockHeight L h db) db) = Ok db'"
            "heights_inv (insert h seen) (content db')" "block_counter (content db') \<le> block_counter (content db) + 1" by blast
        with last False ne that show ?thesis by (simp add: on_block_height_def wrap64_int64 [OF i])
      qed
    qed
  qed
qed

lemma heights_run:
  assumes "lv_laws L content" "lv_total L" "heights_inv seen (content db)" "block_counter (content db) + length hs < 256 ^ 16"
    and "\<forall>h \<in> set hs. 0 < h \<and> int64 h"
  shows "\<exists>db'. run_steps (on_block_height L) hs db = Ok db' \<and> heights_inv (seen \<union> set hs) (content db')"
  using assms(3-)
proof (induction hs arbitrary: seen db)
  case (Cons h hs)
  then obtain db1 where 1: "on_block_height L h db = Ok db1" "heights_inv (insert h seen) (content db1)"
      "block_counter (content db1) \<le> block_counter (content db) + 1"
    using on_block_height_step [OF assms(1,2) Cons.prems(1), of h] by auto
  with Cons.IH [OF 1(2)] Cons.prems(2,3) show ?case by auto
qed auto

subsection \<open>Backfilling a range\<close>

text \<open>The keys of the missing events; the operations on blocks do not touch them, and the other way round.\<close>

definition event_key :: "bytes \<Rightarrow> bool" where
  "event_key k \<longleftrightarrow> prefix keyPrefixMissingEvents k \<or> prefix keyPrefixMissingEventsIndex k \<or> k = keyMissingEventsIdCounter"

lemma event_key_simps [simp]:
  "event_key (keyPrefixMissingEvents @ i)" "event_key (keyPrefixMissingEventsIndex @ i)" "event_key keyMissingEventsIdCounter"
  "\<not> event_key (keyPrefixMissingBlocks @ i)"
  by (auto simp: event_key_def prefix_def)
    (simp_all add: keyPrefixMissingBlocks_def keyPrefixMissingEvents_def keyPrefixMissingEventsIndex_def keyMissingEventsIdCounter_def bz_def)

lemma event_view_cong:
  assumes "\<forall>k. event_key k \<longrightarrow> m' k = m k"
  shows "missing tlib m' = missing tlib m" "store_inv tlib m' = store_inv tlib m" "counter_val m' = counter_val m"
proof -
  have k: "m' (keyPrefixMissingEvents @ i) = m (keyPrefixMissingEvents @ i)" "m' (keyPrefixMissingEventsIndex @ i) = m (keyPrefixMissingEventsIndex @ i)"
    "m' keyMissingEventsIdCounter = m keyMissingEventsIdCounter" for i using assms by simp_all
  show "missing tlib m' = missing tlib m" unfolding missing_def [abs_def] k ..
  show c: "counter_val m' = counter_val m" unfolding counter_val_def k ..
  show "store_inv tlib m' = store_inv tlib m" unfolding store_inv_def ev_inv_def c k ..
qed

fun op_key :: "batch_op \<Rightarrow> bytes" where
  "op_key (BPut k v) = k"
| "op_key (BDelete k) = k"

lemma fold_apply_other: "\<forall>op \<in> set ops. op_key op \<noteq> k \<Longrightarrow> fold apply_op ops m k = m k"
proof (induction ops arbitrary: m)
  case (Cons op ops)
  then show ?case by (cases op) auto
qed simp

lemma add_all_keys: "add_all L tlib t es = Ok b \<Longrightarrow> \<forall>op \<in> set b. event_key (op_key op)"
proof (induction es arbitrary: b)
  case (Cons x es)
  obtain e i where x: "x = (e, i)" by (cases x)
  with Cons.prems obtain b1 b2 where b: "add_one L tlib t e i = Ok b1" "add_all L tlib t es = Ok b2" "b = b1 @ b2" by auto
  have "\<forall>op \<in> set b1. event_key (op_key op)" using b(1) by (auto simp: add_one_def Let_def split: option.split_asm)
  with Cons.IH [OF b(2)] b(3) show ?case by auto
qed simp

lemma AddMissingEvents_frame:
  assumes laws: "lv_laws L content" and add: "AddMissingEvents L tlib es db = Ok (ks, db')" and k: "\<not> event_key k"
  shows "content db' k = content db k"
proof -
  obtain ids where "withIncrementingIdBatch L keyMissingEventsIdCounter (length es) (\<lambda>t ids. add_all L tlib t (zip es ids)) db = Ok (ids, db')"
    using add by (auto simp: AddMissingEvents_def)
  then obtain t t2 where t: "content t = content db" "content db' = content t2"
      "bind_res (read_counter L keyMissingEventsIdCounter t) (\<lambda>i.
       let ids = next_keys (length es) i in
       bind_res (lv_Put L t keyMissingEventsIdCounter (last (i # ids))) (\<lambda>t.
       bind_res (add_all L tlib t (zip es ids)) (\<lambda>batch.
       bind_res (lv_Write L t batch) (\<lambda>t. Ok (ids, t))))) = Ok (ids, t2)"
    unfolding withIncrementingIdBatch_def by (rule withTransactionE [OF laws])
  then obtain i t1 b where i: "lv_Put L t keyMissingEventsIdCounter i = Ok t1" "add_all L tlib t1 (zip es ids) = Ok b" "lv_Write L t1 b = Ok t2"
    by (auto simp: Let_def)
  have "content t1 k = content t k" using lv_lawsD(2) [OF laws i(1)] k by auto
  moreover have "content t2 k = content t1 k"
    unfolding lv_lawsD(4) [OF laws i(3)] using add_all_keys [OF i(2)] k by (intro fold_apply_other) auto
  ultimately show ?thesis using t(1,2) by simp
qed

lemma AddMissingEvents_Ok:
  assumes laws: "lv_laws L content" "lv_total L" and inv: "store_inv tlib (content db)" and e: "is_ok (tm_MarshalBinary tlib (me_ReceivedTime e))"
  obtains ks db' where "AddMissingEvents L tlib [e] db = Ok (ks, db')"
proof -
  have one: "is_ok (add_one L tlib t e i)" for t i
    using lv_totalD(1) [OF laws(2), of t "keyPrefixMissingEventsIndex @ me_EventId e"] e
    by (auto simp: add_one_def marshalMissingEvent_def is_ok_iff Let_def)
  have "is_ok (withIncrementingIdBatch L keyMissingEventsIdCounter 1 (\<lambda>t ids. add_all L tlib t (zip [e] ids)) db)"
    unfolding withIncrementingIdBatch_def
  proof (rule withTransaction_Ok [OF laws])
    fix t assume "content t = content db"
    then have "pred_option (\<lambda>c. length c = 16) (content t keyMissingEventsIdCounter)" using inv by (simp add: store_inv_def)
    then obtain i where i: "read_counter L keyMissingEventsIdCounter t = Ok i" using read_counter_Ok [OF laws] by blast
    obtain t1 where t1: "lv_Put L t keyMissingEventsIdCounter (getNextKey i) = Ok t1" using lv_totalD(2) [OF laws(2)] by blast
    obtain b where b: "add_one L tlib t1 e (getNextKey i) = Ok b" using one by (auto simp: is_ok_iff)
    obtain t2 where "lv_Write L t1 b = Ok t2" using lv_totalD(4) [OF laws(2)] by blast
    with i t1 b show "is_ok (bind_res (read_counter L keyMissingEventsIdCounter t) (\<lambda>i. let ids = next_keys 1 i in
        bind_res (lv_Put L t keyMissingEventsIdCounter (last (i # ids))) (\<lambda>t. bind_res (add_all L tlib t (zip [e] ids)) (\<lambda>batch.
        bind_res (lv_Write L t batch) (\<lambda>t. Ok (ids, t))))))" by (simp add: Let_def)
  qed
  then show ?thesis using that by (auto simp: AddMissingEvents_def is_ok_iff)
qed

text \<open>What the events of a page do to the store: only the keys of missing events and the range \<open>i\<close> change.\<close>

definition note_event :: "MissingEvent \<Rightarrow> (EventHash \<rightharpoonup> MissingEvent) \<Rightarrow> (EventHash \<rightharpoonup> MissingEvent)" where
  "note_event e m = m(me_EventId e \<mapsto> stored_form e)"

definition events_noted :: "timelib \<Rightarrow> bytes \<Rightarrow> MissingEvent list \<Rightarrow> (bytes \<rightharpoonup> bytes) \<Rightarrow> (bytes \<rightharpoonup> bytes) \<Rightarrow> bool" where
  "events_noted tlib i es m m' \<longleftrightarrow> store_inv tlib m' \<and> counter_val m' = counter_val m + length es
     \<and> missing tlib m' = fold note_event es (missing tlib m) \<and> (\<forall>k. \<not> event_key k \<and> k \<noteq> keyPrefixMissingBlocks @ i \<longrightarrow> m' k = m k)"

definition noting_ok :: "'d leveldb \<Rightarrow> timelib \<Rightarrow> ('d \<Rightarrow> bytes \<rightharpoonup> bytes) \<Rightarrow> MissingEvent list \<Rightarrow> 'd \<Rightarrow> bool" where
  "noting_ok L tlib content es db \<longleftrightarrow> lv_laws L content \<and> lv_total L \<and> tm_laws tlib \<and> store_inv tlib (content db)
     \<and> list_all (\<lambda>e. me_wf e \<and> is_ok (tm_MarshalBinary tlib (me_ReceivedTime e))) es
     \<and> counter_val (content db) + length es < 256 ^ 16"

lemma events_noted_trans:
  "events_noted tlib i es m m1 \<Longrightarrow> events_noted tlib i fs m1 m2 \<Longrightarrow> events_noted tlib i (es @ fs) m m2"
  by (simp add: events_noted_def)

lemma noting_ok_step:
  "noting_ok L tlib content (es @ fs) db \<Longrightarrow> events_noted tlib i es (content db) (content db') \<Longrightarrow> noting_ok L tlib content fs db'"
  by (simp add: noting_ok_def events_noted_def)

lemma note_one:
  assumes ok: "noting_ok L tlib content (e # es) db"
  obtains db' where "logged (map_res snd (AddMissingEvents L tlib [e] db)) db = Ok db'" "events_noted tlib i [e] (content db) (content db')"
proof -
  have laws: "lv_laws L content" "lv_total L" "tm_laws tlib" "store_inv tlib (content db)" using ok by (simp_all add: noting_ok_def)
  have e: "\<forall>x \<in> set [e]. me_wf x" "is_ok (tm_MarshalBinary tlib (me_ReceivedTime e))" "counter_val (content db) + length [e] < 256 ^ 16"
    using ok by (simp_all add: noting_ok_def)
  obtain ks db' where add: "AddMissingEvents L tlib [e] db = Ok (ks, db')" by (rule AddMissingEvents_Ok [OF laws(1,2,4) e(2)])
  note spec = AddMissingEvents_spec [OF laws(1,3,4) e(1) _ e(3) add]
  have "events_noted tlib i [e] (content db) (content db')"
    using spec AddMissingEvents_frame [OF laws(1) add] by (simp add: events_noted_def note_event_def map_add_def fun_eq_iff)
  with add that show ?thesis by simp
qed

lemma note_each:
  assumes "noting_ok L tlib content (es @ fs) db"
  shows "\<exists>db'. add_each L tlib es db = Ok db' \<and> events_noted tlib i es (content db) (content db')"
  using assms
proof (induction es arbitrary: db)
  case Nil
  then show ?case by (simp add: events_noted_def noting_ok_def)
next
  case (Cons e es)
  then obtain db1 where 1: "logged (map_res snd (AddMissingEvents L tlib [e] db)) db = Ok db1" "events_noted tlib i [e] (content db) (content db1)"
    using note_one [of L tlib content e "es @ fs" db] by auto
  have "noting_ok L tlib content (es @ fs) db1" using noting_ok_step [of L tlib content "[e]" "es @ fs" db, OF _ 1(2)] Cons.prems by simp
  then obtain db' where 2: "add_each L tlib es db1 = Ok db'" "events_noted tlib i es (content db1) (content db')" using Cons.IH by blast
  have "events_noted tlib i (e # es) (content db) (content db')" using events_noted_trans [OF 1(2) 2(2)] by simp
  with 1(1) 2(1) show ?case by simp
qed

text \<open>Then the range is updated or removed, which touches no event.\<close>

lemma range_op_noted:
  assumes laws: "lv_laws L content" and m: "events_noted tlib i es m (content db)"
    and r: "r = RemoveMissingBlockRange L i db \<or> r = UpdateMissingBlockRange L (NewBlockRangeWithId q i) db" and t: "lv_total L"
  obtains db' where "logged r db = Ok db'" "events_noted tlib i es m (content db')"
proof -
  obtain db' where db': "r = Ok db'"
    using r lv_totalD(2) [OF t, where d = db and k = "keyPrefixMissingBlocks @ i" and v = "BlockRange_bytes q"]
      lv_totalD(3) [OF t, where d = db and k = "keyPrefixMissingBlocks @ i"]
    by (auto simp: RemoveMissingBlockRange_def UpdateMissingBlockRange_def NewBlockRangeWithId_def)
  have c: "content db' k = content db k" if "k \<noteq> keyPrefixMissingBlocks @ i" for k
    using r db' lv_lawsD(2,3) [OF laws] that by (auto simp: RemoveMissingBlockRange_def UpdateMissingBlockRange_def NewBlockRangeWithId_def)
  have "\<forall>k. event_key k \<longrightarrow> content db' k = content db k"
  proof (intro allI impI)
    fix k assume "event_key k"
    then have "k \<noteq> keyPrefixMissingBlocks @ i" by auto
    then show "content db' k = content db k" by (rule c)
  qed
  then have "events_noted tlib i es m (content db')" using m c event_view_cong [of "content db'" "content db"] by (simp add: events_noted_def)
  with db' that show ?thesis by simp
qed

lemma chunk_noted:
  assumes ok: "noting_ok L tlib content (es @ fs) db"
  shows "\<exists>db'. handleBacklogChunk L tlib r es db = Ok db' \<and> events_noted tlib (bi_Id r) es (content db) (content db')"
proof -
  obtain db1 where 1: "add_each L tlib es db = Ok db1" "events_noted tlib (bi_Id r) es (content db) (content db1)" using note_each [OF ok] by blast
  have laws: "lv_laws L content" "lv_total L" using ok by (simp_all add: noting_ok_def)
  obtain db2 where 2: "logged (RemoveMissingBlockRange L (bi_Id r) db1) db1 = Ok db2" "events_noted tlib (bi_Id r) es (content db) (content db2)"
    by (rule range_op_noted [OF laws(1) 1(2) disjI1 [OF refl] laws(2)])
  obtain db3 where 3: "logged (UpdateMissingBlockRange L (NewBlockRangeWithId (NewBlockRange (me_BlockHeight (last es)) (br_High (bi_BlockRange r))) (bi_Id r)) db1) db1 = Ok db3"
      "events_noted tlib (bi_Id r) es (content db) (content db3)"
    by (rule range_op_noted [OF laws(1) 1(2) disjI2 [OF refl] laws(2)])
  show ?thesis using 1 2 3 by (cases "es = []") (simp_all add: handleBacklogChunk_def Let_def)
qed

text \<open>The events of a range, in pages of \<open>c\<close> events numbered from 1.\<close>

definition page_of :: "nat \<Rightarrow> MissingEvent list \<Rightarrow> nat \<Rightarrow> MissingEvent list" where
  "page_of c es k = take c (drop ((k - 1) * c) es)"

definition serves :: "'w search \<Rightarrow> BlockRangeWithId \<Rightarrow> nat \<Rightarrow> MissingEvent list \<Rightarrow> bool" where
  "serves search r c es \<longleftrightarrow> (\<forall>k w. 0 < k \<longrightarrow> (\<exists>w'. search (br_Low (bi_BlockRange r)) (br_High (bi_BlockRange r)) (int k) (int c) w
     = (Ok (page_of c es k, int (length es)), w')))"

lemma backfill_pages_noted:
  assumes s: "serves search r c es" and c: "0 < c" "int (length es) + int c + 2 < 2 ^ 63"
  shows "noting_ok L tlib content (drop (k * c) es) db \<Longrightarrow> k * c \<le> length es + c \<Longrightarrow> k \<le> length es + 1 \<Longrightarrow>
    \<exists>w' db'. backfill_pages L tlib search r (int c) (int (length es)) (int (k * c)) (int (k + 1)) w db = Some (Ok (True, w', db'))
      \<and> events_noted tlib (bi_Id r) (drop (k * c) es) (content db) (content db')"
proof (induction "length es + c - k * c" arbitrary: k w db rule: less_induct)
  case less
  show ?case
  proof (cases "k * c < length es")
    case False
    then have "\<not> int (k * c) < int (length es)" "drop (k * c) es = []" by (simp_all del: of_nat_mult)
    then show ?thesis using less.prems(1)
      by (subst backfill_pages.simps) (simp add: events_noted_def noting_ok_def del: of_nat_mult)
  next
    case True
    let ?p = "page_of c es (k + 1)"
    have split: "drop (k * c) es = ?p @ drop ((k + 1) * c) es" by (simp add: page_of_def algebra_simps) (metis add.commute append_take_drop_id drop_drop)
    obtain w1 where w1: "search (br_Low (bi_BlockRange r)) (br_High (bi_BlockRange r)) (int (k + 1)) (int c) w = (Ok (?p, int (length es)), w1)"
      using s by (fastforce simp: serves_def)
    obtain db1 where db1: "handleBacklogChunk L tlib r ?p db = Ok db1" "events_noted tlib (bi_Id r) ?p (content db) (content db1)"
      using chunk_noted [of L tlib content ?p] less.prems(1) split by metis
    have ok1: "noting_ok L tlib content (drop ((k + 1) * c) es) db1" using noting_ok_step [OF _ db1(2)] less.prems(1) split by metis
    have k: "(k + 1) * c \<le> length es + c" "k + 1 \<le> length es + 1" "length es + c - (k + 1) * c < length es + c - k * c"
    proof -
      show "(k + 1) * c \<le> length es + c" using True by simp
      have "k \<le> k * c" using c(1) by simp
      then have "k < length es" using True by (rule le_less_trans)
      then show "k + 1 \<le> length es + 1" by simp
      show "length es + c - (k + 1) * c < length es + c - k * c" using c(1) True by simp
    qed
    have "int ((k + 1) * c) \<le> int (length es) + int c" using k(1) by (metis of_nat_add of_nat_le_iff)
    then have "int64 (int ((k + 1) * c))" "int64 (int (k + 1 + 1))" using c(2) k(2) by (simp_all add: int64_def del: of_nat_mult)
    moreover have "int (k * c) + int c = int ((k + 1) * c)" "int (k + 1) + 1 = int (k + 1 + 1)" by simp_all
    ultimately have wr: "wrap64 (int (k * c) + int c) = int ((k + 1) * c)" "wrap64 (int (k + 1) + 1) = int (k + 1 + 1)"
      by (simp_all only: wrap64_int64)
    obtain w' db' where 2: "backfill_pages L tlib search r (int c) (int (length es)) (int ((k + 1) * c)) (int (k + 1 + 1)) w1 db1 = Some (Ok (True, w', db'))"
        "events_noted tlib (bi_Id r) (drop ((k + 1) * c) es) (content db1) (content db')"
      using less.hyps [OF k(3) ok1 k(1,2)] by blast
    have "backfill_pages L tlib search r (int c) (int (length es)) (int (k * c)) (int (k + 1)) w db = Some (Ok (True, w', db'))"
      using True w1 db1(1) 2(1) wr by (subst backfill_pages.simps) (simp del: of_nat_add of_nat_mult)
    moreover have "events_noted tlib (bi_Id r) (drop (k * c) es) (content db) (content db')" unfolding split
      by (rule events_noted_trans [OF db1(2) 2(2)])
    ultimately show ?thesis by blast
  qed
qed

lemma fold_note_event: "dom (fold note_event es m) = dom m \<union> me_EventId ` set es"
  by (induction es arbitrary: m) (auto simp: note_event_def)

lemma missing_event_id:
  assumes "ev_inv tlib n m" "missing tlib m eid = Some e"
  shows "me_EventId e = eid"
proof -
  obtain i where i: "m (keyPrefixMissingEventsIndex @ eid) = Some i" using assms(2) by (auto simp: missing_def split: option.split_asm)
  from assms(1) i obtain v f where "me_EventId f = eid" "missing tlib m eid = Some f" by (rule ev_inv_index)
  with assms(2) show ?thesis by simp
qed

lemma backfill_range_noted:
  assumes s: "serves search r c es" and c: "0 < c" "int (length es) + int c + 2 < 2 ^ 63" and ok: "noting_ok L tlib content es db"
  obtains w' db' where "backfill_range L tlib search (int c) r w db = Some (Ok (w', db'))"
    "events_noted tlib (bi_Id r) es (content db) (content db')" "content db' (keyPrefixMissingBlocks @ bi_Id r) = None"
proof -
  let ?p = "page_of c es 1"
  have laws: "lv_laws L content" "lv_total L" using ok by (simp_all add: noting_ok_def)
  have split: "es = ?p @ drop (1 * c) es" by (simp add: page_of_def)
  obtain w1 where w1: "search (br_Low (bi_BlockRange r)) (br_High (bi_BlockRange r)) 1 (int c) w = (Ok (?p, int (length es)), w1)"
    using s [unfolded serves_def, rule_format, of 1 w] by auto
  obtain db1 where db1: "handleBacklogChunk L tlib r ?p db = Ok db1" "events_noted tlib (bi_Id r) ?p (content db) (content db1)"
    using chunk_noted [of L tlib content ?p] ok split by metis
  have ok1: "noting_ok L tlib content (drop (1 * c) es) db1" using noting_ok_step [OF _ db1(2)] ok split by metis
  obtain w2 db2 where 2: "backfill_pages L tlib search r (int c) (int (length es)) (int (1 * c)) (int (1 + 1)) w1 db1 = Some (Ok (True, w2, db2))"
      "events_noted tlib (bi_Id r) (drop (1 * c) es) (content db1) (content db2)"
    using backfill_pages_noted [OF s c ok1, where w = w1] by auto
  have n2: "events_noted tlib (bi_Id r) es (content db) (content db2)" using events_noted_trans [OF db1(2) 2(2)] split by simp
  obtain db' where 3: "logged (RemoveMissingBlockRange L (bi_Id r) db2) db2 = Ok db'" "events_noted tlib (bi_Id r) es (content db) (content db')"
    by (rule range_op_noted [OF laws(1) n2 disjI1 [OF refl] laws(2)])
  obtain d where "lv_Delete L db2 (keyPrefixMissingBlocks @ bi_Id r) = Ok d" using lv_totalD(3) [OF laws(2)] by blast
  with 3(1) lv_lawsD(3) [OF laws(1) this] have "content db' (keyPrefixMissingBlocks @ bi_Id r) = None" by (simp add: RemoveMissingBlockRange_def)
  moreover have "backfill_range L tlib search (int c) r w db = Some (Ok (w2, db'))"
    using w1 db1(1) 2(1) 3(1) by (simp add: backfill_range_def)
  ultimately show ?thesis using 3(2) that by blast
qed

subsection \<open>Properties\<close>


lemma mem_leveldb_total: "lv_total mem_leveldb"
  by (simp add: lv_total_def mem_leveldb_def)



definition demo_found :: "MissingEvent list" where
  "demo_found = [NewMissingEvent [1] 5 3, NewMissingEvent [2] 6 4, NewMissingEvent [3] 6 4]"

definition demo_search :: "unit search" where
  "demo_search low high page chunk w = (Ok (page_of (nat chunk) demo_found (nat page), 3), w)"


text \<open>The interval between two retries has no effect: an event that was asked for at any time is asked for
  again, by multicast, as soon as the interval has passed since it was received.\<close>

lemma retry_interval_ignored:
  assumes "lv_laws L content" "tm_laws tlib" "store_inv tlib (content db)" "missing tlib (content db) eid = Some e"
    and "IncrementMissingEventRetryCount L tlib now eid db = Ok db'"
    and "exists eid = Ok False" "int64 (me_RetryCount e + 1)" "me_RetryCount e + 1 < bf_EventMaxRetries cfg"
    and "me_ReceivedTime e \<le> t + wrap64 (- bf_NewEventIgnoreThreshold cfg)" "me_ReceivedTime e + bf_EventRetryInterval cfg \<le> t'"
  shows "\<exists>e'. missing tlib (content db') eid = Some e' \<and> handleMissingEvent L cfg exists t t' e' db' = Ok ((True, True), db')"
proof -
  have m: "missing tlib (content db') eid = Some (stored_form (retried now e))"
    using IncrementMissingEventRetryCount_spec [OF assms(1-3,5)] assms(4) by simp
  have "me_EventId e = eid" using missing_event_id assms(3,4) unfolding store_inv_def by blast
  moreover have "sint (word_of_int (me_RetryCount e + 1) :: 64 word) = me_RetryCount e + 1" by (rule sint_int64 [OF assms(7)])
  ultimately have "handleMissingEvent L cfg exists t t' (stored_form (retried now e)) db' = Ok ((True, True), db')"
    using assms(6,8-) by (simp add: handleMissingEvent_def stored_form_def retried_def)
  with m show ?thesis by blast
qed

definition demo_cfg :: Backfill where
  "demo_cfg = \<lparr>bf_TryUnicastFirst = True, bf_EventFetchChunkSize = 10, bf_NewEventIgnoreThreshold = 1,
     bf_EventRetryInterval = 30, bf_EventMaxRetries = 48\<rparr>"

definition demo_retried :: "(bytes \<times> bytes) list" where
  "demo_retried = (case IncrementMissingEventRetryCount mem_leveldb mem_time 39 [1] demo_store of Ok db \<Rightarrow> db)"

lemma demo_retried_eval: "IncrementMissingEventRetryCount mem_leveldb mem_time 39 [1] demo_store = Ok demo_retried"
  by code_simp

lemma demo_missing_1: "missing mem_time (map_of demo_store) [1] = Some (stored_form (NewMissingEvent [1] 5 7))"
proof -
  have "missing mem_time (map_of demo_store) = fold store_spec demo_cmds (missing mem_time (map_of []))"
    using store_sim.run_sim [OF demo_run demo_store_runs] by simp
  then show ?thesis by (simp add: demo_cmds_def missing_def NewMissingEvent_def)
qed

text \<open>When the first page of a range reaches its last block and the second page cannot be fetched, the range
  is removed although its remaining events were never seen: only those of the first page are noted.\<close>

lemma backfill_drops_events:
  assumes "lv_laws L content" "lv_total L" "tm_laws tlib" "store_inv tlib (content db)"
    and "list_all (\<lambda>e. me_wf e \<and> is_ok (tm_MarshalBinary tlib (me_ReceivedTime e))) es" "counter_val (content db) + length es < 256 ^ 16"
    and "search (br_Low (bi_BlockRange r)) (br_High (bi_BlockRange r)) 1 chunk w = (Ok (es, totalCount), w1)" "chunk < totalCount"
    and "es \<noteq> []" "wrap64 (br_High (bi_BlockRange r) - 1) \<le> me_BlockHeight (last es)"
    and "search (br_Low (bi_BlockRange r)) (br_High (bi_BlockRange r)) 2 chunk w1 = (Err err, w2)"
  shows "\<exists>db'. backfill_range L tlib search chunk r w db = Some (Ok (w2, db'))
    \<and> dom (missing tlib (content db')) = dom (missing tlib (content db)) \<union> me_EventId ` set es
    \<and> blocks (content db') = (blocks (content db))(bi_Id r := None)"
proof -
  have ok: "noting_ok L tlib content (es @ []) db" using assms by (simp add: noting_ok_def)
  obtain db1 where 1: "add_each L tlib es db = Ok db1" "events_noted tlib (bi_Id r) es (content db) (content db1)" using note_each [OF ok] by blast
  obtain db' where 2: "logged (RemoveMissingBlockRange L (bi_Id r) db1) db1 = Ok db'" "events_noted tlib (bi_Id r) es (content db) (content db')"
    by (rule range_op_noted [OF assms(1) 1(2) disjI1 [OF refl] assms(2)])
  obtain d where "lv_Delete L db1 (keyPrefixMissingBlocks @ bi_Id r) = Ok d" using lv_totalD(3) [OF assms(2)] by blast
  with 2(1) lv_lawsD(3) [OF assms(1) this] have n: "content db' (keyPrefixMissingBlocks @ bi_Id r) = None" by (simp add: RemoveMissingBlockRange_def)
  have "handleBacklogChunk L tlib r es db = Ok db'" using 1(1) 2(1) assms(9,10) by (simp add: handleBacklogChunk_def Let_def)
  moreover have "backfill_pages L tlib search r chunk totalCount chunk 2 w1 db' = Some (Ok (False, w2, db'))"
    using assms(8,11) by (subst backfill_pages.simps) simp
  ultimately have "backfill_range L tlib search chunk r w db = Some (Ok (w2, db'))" using assms(7) by (simp add: backfill_range_def)
  moreover have "blocks (content db') i = ((blocks (content db))(bi_Id r := None)) i" for i
    using 2(2) n by (cases "i = bi_Id r") (simp_all add: events_noted_def blocks_def)
  moreover have "dom (missing tlib (content db')) = dom (missing tlib (content db)) \<union> me_EventId ` set es"
    using 2(2) by (simp add: events_noted_def fold_note_event)
  ultimately show ?thesis by blast
qed

definition demo_broken_search :: "unit search" where
  "demo_broken_search low high page chunk w = (if page = 1 then Ok ([NewMissingEvent [1] 5 8], 2) else Err EOF, w)"

end
