(* ===== verification/EventRepository.thy ===== *)
theory EventRepository
  imports BlockchainClient
begin

section \<open>The event repository and its retention (offchain-interface/pkg/repository, pkg/retention)\<close>

text \<open>
  The events an off-chain node stores in MongoDB, and how the retention policy of the chain is
  enforced on them: retention.go translates the policy into an aggregation pipeline, the repository
  runs it and deletes the events it returns, and the agent does so at every scan. A pipeline is a list
  of the stages the code builds. MongoDB is a parameter; \<open>run_pipeline\<close> states the documented effect of
  these stages and is used in the hypothesis \<open>mongo_laws\<close> only. The reference is the documented
  meaning of a policy: an event is kept if a timestamp filter that matches it still protects it, and of
  the other events the count filter keeps the newest ones, overall or per principal.
\<close>

subsection \<open>Documents and conditions\<close>

text \<open>BSON stores a time with millisecond precision (\<^verbatim>\<open>primitive.NewDateTimeFromTime\<close>).\<close>

definition DateTime :: "int \<Rightarrow> int" where "DateTime t = t div 1000000"

definition doc_id :: "StoredEvent \<Rightarrow> EventHash" where "doc_id d = md_EventId (st_Metadata d)"
definition doc_time :: "StoredEvent \<Rightarrow> int" where "doc_time d = DateTime (ReceivedTime (st_Metadata d))"
definition doc_principal :: "StoredEvent \<Rightarrow> Principal" where "doc_principal d = md_Principal (st_Metadata d)"
definition doc_channel :: "StoredEvent \<Rightarrow> string" where "doc_channel d = sy_Channel (ev_System (ed_Event (st_EventWithData d)))"
definition doc_type :: "StoredEvent \<Rightarrow> int" where "doc_type d = sy_EventId (ev_System (ed_Event (st_EventWithData d)))"
definition doc_provider :: "extlib \<Rightarrow> StoredEvent \<Rightarrow> bson_value" where
  "doc_provider lib d = (case pr_Guid (sy_Provider (ev_System (ed_Event (st_EventWithData d)))) of
     None \<Rightarrow> BNull | Some g \<Rightarrow> Guid_MarshalBSONValue lib g)"

datatype mcond =
    MTimeLt int
  | MChannel bool string
  | MType bool int
  | MProvider bool string
  | MAnd "mcond list"
  | MOr "mcond list"

text \<open>\<open>MChannel True c\<close> is \<^verbatim>\<open>{channel: c}\<close>, \<open>MChannel False c\<close> is \<^verbatim>\<open>{channel: {$ne: c}}\<close>, and so on. The stages:\<close>

datatype stage =
    StMatch mcond
  | StSort
  | StSkip nat
  | StExtractIds
  | StProjectEventsOnly
  | StGroupPrincipal
  | StSliceFrom nat
  | StUnwind
  | StReplaceRoot
  | StPushIds

subsection \<open>retention.go\<close>

definition isGlobal :: "Filter \<Rightarrow> bool" where
  "isGlobal f \<longleftrightarrow> pa_Type (fi_PolicyAction f) = PolicyTypeTimestamp
     \<and> (pa_RuleGroup (fi_PolicyAction f) = RuleGroupingGlobal \<or> pa_RuleGroup (fi_PolicyAction f) = [])"

definition isMatchEmpty :: "Match \<Rightarrow> bool" where
  "isMatchEmpty m \<longleftrightarrow> ma_Channel m = None \<and> ma_EventId m = None \<and> ma_ProviderGuid m = None"

definition provider_guid :: "string \<Rightarrow> string" where "provider_guid s = ''{'' @ ToLower s @ ''}''"

definition match_clauses :: "bool \<Rightarrow> Match \<Rightarrow> mcond list" where
  "match_clauses eq m =
     (case ma_Channel m of None \<Rightarrow> [] | Some c \<Rightarrow> [MChannel eq c])
     @ (case ma_EventId m of None \<Rightarrow> [] | Some i \<Rightarrow> [MType eq i])
     @ (case ma_ProviderGuid m of None \<Rightarrow> [] | Some g \<Rightarrow> [MProvider eq (provider_guid g)])"

definition filter_matcher :: "int \<Rightarrow> Filter \<Rightarrow> mcond" where
  "filter_matcher now f =
     (let orClause = match_clauses False (fi_Match f);
          andClause = MTimeLt (DateTime (now + wrap64 (- pa_RetentionPeriod (fi_PolicyAction f)))) # match_clauses True (fi_Match f)
      in MOr (orClause @ [MAnd andClause]))"

fun global_matchers :: "int \<Rightarrow> Filter list \<Rightarrow> mcond list res" where
  "global_matchers now [] = Ok []"
| "global_matchers now (f # fs) =
     (if \<not> isGlobal f then global_matchers now fs
      else if pa_Type (fi_PolicyAction f) \<noteq> PolicyTypeTimestamp then Err ErrInvalidPolicyType
      else map_res (Cons (filter_matcher now f)) (global_matchers now fs))"

fun find_count :: "Filter list \<Rightarrow> Filter option" where
  "find_count [] = None"
| "find_count (f # fs) = (if pa_Type (fi_PolicyAction f) = PolicyTypeCount then Some f else find_count fs)"

definition getCountFilter :: "RetentionPolicy \<Rightarrow> Filter option" where
  "getCountFilter p = find_count (rp_Filters p)"

definition buildAggregate :: "int \<Rightarrow> RetentionPolicy \<Rightarrow> stage list res" where
  "buildAggregate now policy =
     bind_res (RetentionPolicy_Validate policy) (\<lambda>_.
     bind_res (global_matchers now (rp_Filters policy)) (\<lambda>matcher.
       let aggregate = (if 0 < length matcher then [StMatch (MAnd matcher)] else [])
       in case getCountFilter policy of
            None \<Rightarrow> Ok (aggregate @ [StExtractIds, StProjectEventsOnly])
          | Some countFilter \<Rightarrow>
              let a = fi_PolicyAction countFilter; aggregate = aggregate @ [StSort]
              in if pa_RuleGroup a = RuleGroupingGlobal \<or> pa_RuleGroup a = []
                 then Ok (aggregate @ [StSkip (pa_Volume a), StExtractIds, StProjectEventsOnly])
                 else if pa_RuleGroup a = RuleGroupingPrincipal
                 then Ok (aggregate @ [StGroupPrincipal, StSliceFrom (pa_Volume a), StUnwind, StReplaceRoot, StPushIds, StProjectEventsOnly])
                 else Err ErrInvalidRuleGrouping))"

subsection \<open>MongoDB\<close>

record 'c mongo =
  mg_FindById :: "'c \<Rightarrow> EventHash \<Rightarrow> StoredEvent option res"
  mg_FindByTx :: "'c \<Rightarrow> TxHash \<Rightarrow> StoredEvent option res"
  mg_FindByIds :: "'c \<Rightarrow> EventHash list \<Rightarrow> StoredEvent list res"
  mg_InsertOne :: "'c \<Rightarrow> StoredEvent \<Rightarrow> (bool \<times> 'c) res"
  mg_Count :: "'c \<Rightarrow> int res"
  mg_Aggregate :: "'c \<Rightarrow> stage list \<Rightarrow> EventHash list list res"
  mg_DeleteMany :: "'c \<Rightarrow> EventHash list \<Rightarrow> 'c res"

text \<open>
  \<open>mg_InsertOne\<close> says whether the document was inserted; \<open>False\<close> is a duplicate key error (code 11000) of
  the unique index on the event identifier. The documented effect of a pipeline: sorting gives some
  order that is sorted, grouping gives the groups in some order. In \<open>mongo_laws\<close>, \<open>docs\<close> are the events that
  were inserted and not deleted since, in order of insertion (what is read back has its times cut to
  milliseconds, which no stage looks beyond).
\<close>

fun holds :: "extlib \<Rightarrow> mcond \<Rightarrow> StoredEvent \<Rightarrow> bool" where
  "holds lib (MTimeLt t) d = (doc_time d < t)"
| "holds lib (MChannel eq c) d = ((doc_channel d = c) = eq)"
| "holds lib (MType eq i) d = ((doc_type d = i) = eq)"
| "holds lib (MProvider eq g) d = ((doc_provider lib d = BString g) = eq)"
| "holds lib (MAnd cs) d = list_all (\<lambda>c. holds lib c d) cs"
| "holds lib (MOr cs) d = list_ex (\<lambda>c. holds lib c d) cs"

datatype pipe_state =
    PDocs "StoredEvent list"
  | PGroups "(Principal \<times> EventHash list) list"
  | PUnwound "(Principal \<times> EventHash) list"
  | PIds "EventHash list"
  | PResult "EventHash list list"

fun run_stage :: "extlib \<Rightarrow> (StoredEvent list \<Rightarrow> StoredEvent list) \<Rightarrow> (Principal list \<Rightarrow> Principal list) \<Rightarrow> stage \<Rightarrow> pipe_state \<Rightarrow> pipe_state" where
  "run_stage lib srt grp (StMatch c) (PDocs ds) = PDocs (filter (holds lib c) ds)"
| "run_stage lib srt grp StSort (PDocs ds) = PDocs (srt ds)"
| "run_stage lib srt grp (StSkip n) (PDocs ds) = PDocs (drop n ds)"
| "run_stage lib srt grp StExtractIds (PDocs ds) = PResult (if ds = [] then [] else [map doc_id ds])"
| "run_stage lib srt grp StGroupPrincipal (PDocs ds) =
     PGroups (map (\<lambda>p. (p, map doc_id (filter (\<lambda>d. doc_principal d = p) ds))) (grp (remdups (map doc_principal ds))))"
| "run_stage lib srt grp (StSliceFrom n) (PGroups gs) = PGroups (map (\<lambda>(p, is). (p, drop n is)) gs)"
| "run_stage lib srt grp StUnwind (PGroups gs) = PUnwound (concat (map (\<lambda>(p, is). map (Pair p) is) gs))"
| "run_stage lib srt grp StReplaceRoot (PUnwound us) = PIds (map snd us)"
| "run_stage lib srt grp StPushIds (PIds is) = PResult (if is = [] then [] else [is])"
| "run_stage lib srt grp _ s = s"

definition run_pipeline :: "extlib \<Rightarrow> (StoredEvent list \<Rightarrow> StoredEvent list) \<Rightarrow> (Principal list \<Rightarrow> Principal list) \<Rightarrow> stage list
    \<Rightarrow> StoredEvent list \<Rightarrow> EventHash list list" where
  "run_pipeline lib srt grp stages ds = (case fold (run_stage lib srt grp) stages (PDocs ds) of PResult r \<Rightarrow> r | _ \<Rightarrow> [])"

definition newest_first :: "(StoredEvent list \<Rightarrow> StoredEvent list) \<Rightarrow> bool" where
  "newest_first srt \<longleftrightarrow> (\<forall>ds. mset (srt ds) = mset ds \<and> sorted_wrt (\<lambda>a b. doc_time b \<le> doc_time a) (srt ds))"

definition mongo_laws :: "'c mongo \<Rightarrow> extlib \<Rightarrow> ('c \<Rightarrow> StoredEvent list) \<Rightarrow> bool" where
  "mongo_laws G lib docs \<longleftrightarrow>
     (\<forall>c d c'. mg_InsertOne G c d = Ok (False, c') \<longrightarrow> docs c' = docs c \<and> doc_id d \<in> doc_id ` set (docs c)) \<and>
     (\<forall>c d c'. mg_InsertOne G c d = Ok (True, c') \<longrightarrow>
        doc_id d \<notin> doc_id ` set (docs c) \<and> docs c' = docs c @ [d]) \<and>
     (\<forall>c stages r. mg_Aggregate G c stages = Ok r \<longrightarrow>
        (\<exists>srt grp. newest_first srt \<and> (\<forall>ps. mset (grp ps) = mset ps) \<and> r = run_pipeline lib srt grp stages (docs c))) \<and>
     (\<forall>c ids c'. mg_DeleteMany G c ids = Ok c' \<longrightarrow> docs c' = filter (\<lambda>d. doc_id d \<notin> set ids) (docs c))"

lemma mongo_lawsD:
  assumes "mongo_laws G lib docs"
  shows "mg_InsertOne G c d = Ok (False, c') \<Longrightarrow> docs c' = docs c \<and> doc_id d \<in> doc_id ` set (docs c)"
    and "mg_InsertOne G c d = Ok (True, c') \<Longrightarrow> doc_id d \<notin> doc_id ` set (docs c) \<and> docs c' = docs c @ [d]"
    and "mg_Aggregate G c stages = Ok rs \<Longrightarrow> \<exists>srt grp. newest_first srt \<and> (\<forall>ps. mset (grp ps) = mset ps) \<and> rs = run_pipeline lib srt grp stages (docs c)"
    and "mg_DeleteMany G c ids = Ok c' \<Longrightarrow> docs c' = filter (\<lambda>d. doc_id d \<notin> set ids) (docs c)"
  using assms unfolding mongo_laws_def by blast+

subsection \<open>event.go\<close>

text \<open>\<^verbatim>\<open>GetEventById\<close>: the flag that the code returns beside the event is \<open>None\<close> or \<open>Some\<close> here.\<close>

definition repo_GetEventById :: "'c mongo \<Rightarrow> EventHash \<Rightarrow> 'c \<Rightarrow> StoredEvent option res" where
  "repo_GetEventById G i c = mg_FindById G c i"

definition repo_GetEventsById :: "'c mongo \<Rightarrow> EventHash list \<Rightarrow> 'c \<Rightarrow> StoredEvent list res" where
  "repo_GetEventsById G ids c = mg_FindByIds G c ids"

definition repo_GetEventByTx :: "'c mongo \<Rightarrow> TxHash \<Rightarrow> 'c \<Rightarrow> StoredEvent option res" where
  "repo_GetEventByTx G txHash c = mg_FindByTx G c txHash"

definition repo_EventCount :: "'c mongo \<Rightarrow> 'c \<Rightarrow> int res" where
  "repo_EventCount G c = mg_Count G c"

definition repo_Store :: "'c mongo \<Rightarrow> StoredEvent \<Rightarrow> 'c \<Rightarrow> 'c res" where
  "repo_Store G event c = bind_res (mg_InsertOne G c event) (\<lambda>(inserted, c').
     if \<not> inserted then Err ErrEventAlreadyStored else Ok c')"

definition DropExpiredEvents :: "'c mongo \<Rightarrow> int \<Rightarrow> RetentionPolicy \<Rightarrow> 'c \<Rightarrow> 'c res" where
  "DropExpiredEvents G now policy c =
     bind_res (RetentionPolicy_Validate policy) (\<lambda>_.
     bind_res (buildAggregate now policy) (\<lambda>aggregate.
     bind_res (mg_Aggregate G c aggregate) (\<lambda>results.
       if length results = 0 then Ok c
       else mg_DeleteMany G c (results ! 0))))"

subsection \<open>agent.go\<close>

record Agent =
  ag_policy :: "StoredPolicy option"

definition NewAgent :: Agent where "NewAgent = \<lparr>ag_policy = None\<rparr>"

text \<open>\<open>fetch\<close> is \<^verbatim>\<open>GetRetentionPolicy\<close>. The result is the error, the agent and the collection.\<close>

definition scanAndDrop :: "'c mongo \<Rightarrow> StoredPolicy option res \<Rightarrow> int \<Rightarrow> Agent \<Rightarrow> 'c \<Rightarrow> unit res \<times> Agent \<times> 'c" where
  "scanAndDrop G fetch now a c =
     (let drop_events = (\<lambda>a policy. case DropExpiredEvents G now (so_Policy policy) c of
            Ok c' \<Rightarrow> (Ok (), a, c') | Err e \<Rightarrow> (Err e, a, c) | Panic \<Rightarrow> (Panic, a, c))
      in case ag_policy a of
           Some policy \<Rightarrow> drop_events a policy
         | None \<Rightarrow> (case fetch of
             Panic \<Rightarrow> (Panic, a, c)
           | Err e \<Rightarrow> (Err e, a, c)
           | Ok None \<Rightarrow> (Ok (), a\<lparr>ag_policy := None\<rparr>, c)
           | Ok (Some policy) \<Rightarrow> drop_events (a\<lparr>ag_policy := Some policy\<rparr>) policy))"

subsection \<open>The documented meaning of a policy\<close>

definition doc_matches :: "extlib \<Rightarrow> Match \<Rightarrow> StoredEvent \<Rightarrow> bool" where
  "doc_matches lib m d \<longleftrightarrow> pred_option (\<lambda>c. doc_channel d = c) (ma_Channel m) \<and> pred_option (\<lambda>i. doc_type d = i) (ma_EventId m)
     \<and> pred_option (\<lambda>g. doc_provider lib d = BString (provider_guid g)) (ma_ProviderGuid m)"

definition protects :: "extlib \<Rightarrow> int \<Rightarrow> Filter \<Rightarrow> StoredEvent \<Rightarrow> bool" where
  "protects lib now f d \<longleftrightarrow> doc_matches lib (fi_Match f) d
     \<and> DateTime (now + wrap64 (- pa_RetentionPeriod (fi_PolicyAction f))) \<le> doc_time d"

definition protected_by :: "extlib \<Rightarrow> int \<Rightarrow> RetentionPolicy \<Rightarrow> StoredEvent \<Rightarrow> bool" where
  "protected_by lib now policy d \<longleftrightarrow> list_ex (\<lambda>f. pa_Type (fi_PolicyAction f) = PolicyTypeTimestamp \<and> protects lib now f d) (rp_Filters policy)"

text \<open>How many of the other events are kept, and in which groups.\<close>

definition spare_volume :: "RetentionPolicy \<Rightarrow> nat" where
  "spare_volume policy = (case getCountFilter policy of None \<Rightarrow> 0 | Some f \<Rightarrow> pa_Volume (fi_PolicyAction f))"

definition spare_group :: "RetentionPolicy \<Rightarrow> StoredEvent \<Rightarrow> string" where
  "spare_group policy d = (case getCountFilter policy of
     None \<Rightarrow> [] | Some f \<Rightarrow> if pa_RuleGroup (fi_PolicyAction f) = RuleGroupingPrincipal then doc_principal d else [])"

lemma match_clauses_holds:
  "list_ex (\<lambda>c. holds lib c d) (match_clauses False m) \<longleftrightarrow> \<not> doc_matches lib m d"
  "list_all (\<lambda>c. holds lib c d) (match_clauses True m) \<longleftrightarrow> doc_matches lib m d"
  by (auto simp: match_clauses_def doc_matches_def split: option.split)

lemma filter_matcher_holds: "holds lib (filter_matcher now f) d \<longleftrightarrow> \<not> protects lib now f d"
  by (auto simp: filter_matcher_def protects_def match_clauses_holds Let_def)

lemma global_matchers_Ok:
  assumes "\<forall>f \<in> set fs. count_ok (fi_PolicyAction f) \<or> timestamp_ok (fi_PolicyAction f)"
  shows "\<exists>ms. global_matchers now fs = Ok ms \<and> (ms = [] \<longleftrightarrow> \<not> list_ex (\<lambda>f. pa_Type (fi_PolicyAction f) = PolicyTypeTimestamp) fs)
    \<and> (\<forall>d. list_all (\<lambda>c. holds lib c d) ms \<longleftrightarrow> \<not> list_ex (\<lambda>f. pa_Type (fi_PolicyAction f) = PolicyTypeTimestamp \<and> protects lib now f d) fs)"
  using assms
proof (induction fs)
  case (Cons f fs)
  then obtain ms where ms: "global_matchers now fs = Ok ms" "ms = [] \<longleftrightarrow> \<not> list_ex (\<lambda>f. pa_Type (fi_PolicyAction f) = PolicyTypeTimestamp) fs"
      "\<And>d. list_all (\<lambda>c. holds lib c d) ms \<longleftrightarrow> \<not> list_ex (\<lambda>f. pa_Type (fi_PolicyAction f) = PolicyTypeTimestamp \<and> protects lib now f d) fs"
    by auto
  have g: "isGlobal f \<longleftrightarrow> pa_Type (fi_PolicyAction f) = PolicyTypeTimestamp"
    using Cons.prems by (auto simp: isGlobal_def timestamp_ok_def count_ok_def PolicyTypeTimestamp_def PolicyTypeCount_def)
  show ?case
  proof (cases "isGlobal f")
    case True
    then show ?thesis using ms g by (simp add: filter_matcher_holds)
  next
    case False
    then show ?thesis using ms g by simp
  qed
qed simp

text \<open>
  The events of a pipeline are first filtered to those that no timestamp filter protects.
\<close>

lemma match_stage:
  assumes "RetentionPolicy_Validate policy = Ok ()"
  obtains ms where "global_matchers now (rp_Filters policy) = Ok ms"
    "\<And>srt grp ds. fold (run_stage lib srt grp) (if 0 < length ms then [StMatch (MAnd ms)] else []) (PDocs ds)
       = PDocs (filter (\<lambda>d. \<not> protected_by lib now policy d) ds)"
proof -
  obtain ms where ms: "global_matchers now (rp_Filters policy) = Ok ms"
      "ms = [] \<longleftrightarrow> \<not> list_ex (\<lambda>f. pa_Type (fi_PolicyAction f) = PolicyTypeTimestamp) (rp_Filters policy)"
      "\<And>d. list_all (\<lambda>c. holds lib c d) ms \<longleftrightarrow> \<not> protected_by lib now policy d"
    using global_matchers_Ok [of "rp_Filters policy" now lib] assms [unfolded Validate_Ok_iff] unfolding protected_by_def by blast
  have "fold (run_stage lib srt grp) (if 0 < length ms then [StMatch (MAnd ms)] else []) (PDocs ds)
      = PDocs (filter (\<lambda>d. \<not> protected_by lib now policy d) ds)" for srt grp ds
  proof (cases "ms = []")
    case True
    then have "\<not> protected_by lib now policy d" for d using ms(3) [of d] by simp
    with True show ?thesis by simp
  next
    case False
    have "holds lib (MAnd ms) = (\<lambda>d. \<not> protected_by lib now policy d)" using ms(3) by (simp add: fun_eq_iff)
    with False show ?thesis by simp
  qed
  with ms(1) that show ?thesis by blast
qed

text \<open>The newest events of every group: what \<open>take n\<close> and \<open>drop n\<close> of the sorted events of a group leave.\<close>

definition newest :: "nat \<Rightarrow> ('a \<Rightarrow> 'g) \<Rightarrow> 'a list \<Rightarrow> 'a set" where
  "newest n g ss = {d \<in> set ss. d \<in> set (take n (filter (\<lambda>x. g x = g d) ss))}"

lemma newest_rest:
  assumes "distinct ss"
  shows "set ss - newest n g ss = {d \<in> set ss. d \<in> set (drop n (filter (\<lambda>x. g x = g d) ss))}"
proof -
  have "d \<in> set (drop n (filter (\<lambda>x. g x = g d) ss)) \<longleftrightarrow> d \<notin> set (take n (filter (\<lambda>x. g x = g d) ss))" if "d \<in> set ss" for d
  proof -
    let ?f = "filter (\<lambda>x. g x = g d) ss"
    have "d \<in> set (take n ?f @ drop n ?f)" using that by simp
    moreover have "distinct (take n ?f @ drop n ?f)" using assms by simp
    ultimately show ?thesis unfolding set_append distinct_append by blast
  qed
  then show ?thesis by (auto simp: newest_def)
qed

lemma newest_card:
  assumes "distinct ss"
  shows "card {d \<in> newest n g ss. g d = p} = min n (card {d \<in> set ss. g d = p})"
proof -
  let ?f = "filter (\<lambda>x. g x = p) ss"
  have "{d \<in> newest n g ss. g d = p} = set (take n ?f)"
  proof (rule set_eqI)
    fix x
    have "x \<in> set (take n ?f) \<Longrightarrow> x \<in> set ss \<and> g x = p" using in_set_takeD [of x n ?f] by simp
    then show "x \<in> {d \<in> newest n g ss. g d = p} \<longleftrightarrow> x \<in> set (take n ?f)" unfolding newest_def by blast
  qed
  moreover have "card (set (take n ?f)) = length (take n ?f)" using assms by (intro distinct_card) simp
  moreover have "card {d \<in> set ss. g d = p} = length ?f" using assms by (simp add: distinct_card [symmetric] distinct_filter)
  ultimately show ?thesis by (simp add: min.commute)
qed

lemma newest_sorted:
  assumes "distinct ss" "sorted_wrt R ss" "k \<in> newest n g ss" "x \<in> set ss - newest n g ss" "g k = g x"
  shows "R k x"
proof -
  let ?f = "filter (\<lambda>y. g y = g x) ss"
  have "k \<in> set (take n ?f)" using assms(3,5) by (auto simp: newest_def)
  moreover have "x \<in> set (drop n ?f)" using assms(4) newest_rest [OF assms(1)] by blast
  moreover have "sorted_wrt R (take n ?f @ drop n ?f)" using sorted_wrt_filter [OF assms(2)] by simp
  ultimately show ?thesis unfolding sorted_wrt_append by blast
qed

lemma UN_groups:
  assumes "\<And>p. D p \<subseteq> {d \<in> S. g d = p}"
  shows "(\<Union>p \<in> g ` S. h ` D p) = h ` {d \<in> S. d \<in> D (g d)}"
  using assms by fastforce

text \<open>The pipeline finds the unprotected events that are not among the newest of their group.\<close>

definition expired :: "extlib \<Rightarrow> int \<Rightarrow> RetentionPolicy \<Rightarrow> StoredEvent list \<Rightarrow> StoredEvent list" where
  "expired lib now policy ds = filter (\<lambda>d. \<not> protected_by lib now policy d) ds"

lemma run_pipeline_append:
  "run_pipeline lib srt grp (as @ bs) ds = (case fold (run_stage lib srt grp) bs (fold (run_stage lib srt grp) as (PDocs ds)) of PResult r \<Rightarrow> r | _ \<Rightarrow> [])"
  by (simp add: run_pipeline_def)

lemma pipeline_finds:
  assumes v: "RetentionPolicy_Validate policy = Ok ()" and b: "buildAggregate now policy = Ok stages"
    and srt: "newest_first srt" and grp: "\<forall>ps. mset (grp ps) = mset ps" and ds: "distinct ds"
  obtains ss where "mset ss = mset (expired lib now policy ds)" "sorted_wrt (\<lambda>a b. doc_time b \<le> doc_time a) ss"
    "concat (run_pipeline lib srt grp stages ds) \<noteq> [] \<longrightarrow> length (run_pipeline lib srt grp stages ds) = 1"
    "run_pipeline lib srt grp stages ds \<noteq> [] \<longrightarrow> concat (run_pipeline lib srt grp stages ds) \<noteq> []"
    "set (concat (run_pipeline lib srt grp stages ds)) = doc_id ` (set ss - newest (spare_volume policy) (spare_group policy) ss)"
proof -
  let ?es = "expired lib now policy ds" and ?run = "run_pipeline lib srt grp stages ds"
  define ss where "ss = srt ?es"
  have ss: "mset ss = mset ?es" "sorted_wrt (\<lambda>a b. doc_time b \<le> doc_time a) ss" using srt by (simp_all add: newest_first_def ss_def)
  have d: "distinct ss" using ss(1) ds by (metis distinct_filter expired_def mset_eq_imp_distinct_iff)
  have set_ss: "set ss = set ?es" using ss(1) by (rule mset_eq_setD)
  obtain ms where ms: "global_matchers now (rp_Filters policy) = Ok ms"
      "\<And>ds. fold (run_stage lib srt grp) (if 0 < length ms then [StMatch (MAnd ms)] else []) (PDocs ds) = PDocs (expired lib now policy ds)"
    unfolding expired_def by (rule match_stage [OF v, where lib = lib and now = now]) blast
  define m where "m = (if 0 < length ms then [StMatch (MAnd ms)] else [])"
  note m = ms(2) [of ds, folded m_def]
  show ?thesis
  proof (cases "getCountFilter policy")
    case None
    then have st: "stages = m @ [StExtractIds, StProjectEventsOnly]" using b v ms(1) by (simp add: buildAggregate_def Let_def m_def)
    have run: "?run = (if ?es = [] then [] else [map doc_id ?es])" unfolding st run_pipeline_append m by simp
    have "newest (spare_volume policy) (spare_group policy) ss = {}" using None by (simp add: newest_def spare_volume_def)
    with run set_ss show ?thesis by (intro that [OF ss]) auto
  next
    case (Some f)
    let ?n = "pa_Volume (fi_PolicyAction f)" and ?r = "pa_RuleGroup (fi_PolicyAction f)"
    have n: "spare_volume policy = ?n" using Some by (simp add: spare_volume_def)
    show ?thesis
    proof (cases "?r = RuleGroupingGlobal \<or> ?r = []")
      case True
      then have st: "stages = m @ [StSort, StSkip ?n, StExtractIds, StProjectEventsOnly]"
        using b v ms(1) Some by (simp add: buildAggregate_def Let_def m_def)
      have run: "?run = (if drop ?n ss = [] then [] else [map doc_id (drop ?n ss)])" unfolding st run_pipeline_append m by (simp add: ss_def)
      have "spare_group policy = (\<lambda>_. [])" using Some True by (auto simp: spare_group_def RuleGroupingGlobal_def RuleGroupingPrincipal_def)
      then have "set ss - newest ?n (spare_group policy) ss = set (drop ?n ss)" unfolding newest_rest [OF d] by (auto dest: in_set_dropD)
      with run n show ?thesis by (intro that [OF ss]) auto
    next
      case False
      then have g: "?r = RuleGroupingPrincipal" and st: "stages = m @ [StSort, StGroupPrincipal, StSliceFrom ?n, StUnwind, StReplaceRoot, StPushIds, StProjectEventsOnly]"
        using b v ms(1) Some by (auto simp: buildAggregate_def Let_def m_def split: if_split_asm)
      define ids where "ids = concat (map (\<lambda>p. drop ?n (map doc_id (filter (\<lambda>d. doc_principal d = p) ss))) (grp (remdups (map doc_principal ss))))"
      have run: "?run = (if ids = [] then [] else [ids])"
        unfolding st run_pipeline_append m by (simp add: ss_def [symmetric] ids_def comp_def map_concat)
      have sg: "spare_group policy = doc_principal" using Some g by (simp add: spare_group_def fun_eq_iff)
      have "set (grp (remdups (map doc_principal ss))) = doc_principal ` set ss" using grp by (metis list.set_map mset_eq_setD set_remdups)
      then have "set ids = (\<Union>p \<in> doc_principal ` set ss. doc_id ` set (drop ?n (filter (\<lambda>d. doc_principal d = p) ss)))"
        by (simp add: ids_def drop_map)
      also have "\<dots> = doc_id ` {d \<in> set ss. d \<in> set (drop ?n (filter (\<lambda>x. doc_principal x = doc_principal d) ss))}"
        by (rule UN_groups) (auto dest!: in_set_dropD)
      finally have "set ids = doc_id ` (set ss - newest ?n (spare_group policy) ss)" unfolding sg newest_rest [OF d] .
      with run n show ?thesis by (intro that [OF ss]) auto
    qed
  qed
qed

subsection \<open>The policy is enforced\<close>

text \<open>
  What a scan should leave of the events \<open>ds\<close>: every protected event, and of the others, in each group,
  as many of the newest as the count filter allows.
\<close>

definition enforces :: "extlib \<Rightarrow> int \<Rightarrow> RetentionPolicy \<Rightarrow> StoredEvent list \<Rightarrow> StoredEvent list \<Rightarrow> bool" where
  "enforces lib now policy ds ds' \<longleftrightarrow> (\<exists>kept \<subseteq> set (expired lib now policy ds).
     set ds' = {d \<in> set ds. protected_by lib now policy d} \<union> kept
     \<and> (\<forall>p. card {d \<in> kept. spare_group policy d = p} = min (spare_volume policy) (card {d \<in> set (expired lib now policy ds). spare_group policy d = p}))
     \<and> (\<forall>k \<in> kept. \<forall>x \<in> set (expired lib now policy ds) - kept. spare_group policy k = spare_group policy x \<longrightarrow> doc_time x \<le> doc_time k))"

lemma DropExpiredEvents_Ok:
  assumes r: "DropExpiredEvents G now policy c = Ok c'" and l: "mongo_laws G lib docs"
  obtains stages srt grp where "RetentionPolicy_Validate policy = Ok ()" "buildAggregate now policy = Ok stages"
    "newest_first srt" "\<forall>ps. mset (grp ps) = mset ps"
    "docs c' = (case run_pipeline lib srt grp stages (docs c) of [] \<Rightarrow> docs c | is # _ \<Rightarrow> filter (\<lambda>d. doc_id d \<notin> set is) (docs c))"
proof -
  obtain stages results where v: "RetentionPolicy_Validate policy = Ok ()" and b: "buildAggregate now policy = Ok stages"
    and a: "mg_Aggregate G c stages = Ok results" and d: "if results = [] then c' = c else mg_DeleteMany G c (hd results) = Ok c'"
    using r unfolding DropExpiredEvents_def by (auto simp: bind_res_eq_Ok hd_conv_nth split: if_split_asm)
  obtain srt grp where g: "newest_first srt" "\<forall>ps. mset (grp ps) = mset ps" and rs: "results = run_pipeline lib srt grp stages (docs c)"
    using mongo_lawsD(3) [OF l a] by blast
  have "docs c' = (case results of [] \<Rightarrow> docs c | is # _ \<Rightarrow> filter (\<lambda>d. doc_id d \<notin> set is) (docs c))"
    using d mongo_lawsD(4) [OF l] by (cases results) auto
  with v b g rs show ?thesis by (intro that) auto
qed

lemma DropExpiredEvents_enforces:
  assumes r: "DropExpiredEvents G now policy c = Ok c'" and l: "mongo_laws G lib docs" and u: "distinct (map doc_id (docs c))"
  shows "enforces lib now policy (docs c) (docs c')"
proof -
  obtain stages srt grp where v: "RetentionPolicy_Validate policy = Ok ()" and b: "buildAggregate now policy = Ok stages"
    and g: "newest_first srt" "\<forall>ps. mset (grp ps) = mset ps"
    and c': "docs c' = (case run_pipeline lib srt grp stages (docs c) of [] \<Rightarrow> docs c | is # _ \<Rightarrow> filter (\<lambda>d. doc_id d \<notin> set is) (docs c))"
    using r l by (rule DropExpiredEvents_Ok)
  have du: "distinct (docs c)" using u by (simp add: distinct_map)
  let ?run = "run_pipeline lib srt grp stages (docs c)" and ?es = "set (expired lib now policy (docs c))"
  obtain ss where ss: "mset ss = mset (expired lib now policy (docs c))" "sorted_wrt (\<lambda>a b. doc_time b \<le> doc_time a) ss"
    and run: "concat ?run \<noteq> [] \<longrightarrow> length ?run = 1" "?run \<noteq> [] \<longrightarrow> concat ?run \<noteq> []"
      "set (concat ?run) = doc_id ` (set ss - newest (spare_volume policy) (spare_group policy) ss)"
    using pipeline_finds [OF v b g du, of lib] by blast
  let ?kept = "newest (spare_volume policy) (spare_group policy) ss"
  have set_ss: "set ss = ?es" using ss(1) by (rule mset_eq_setD)
  have d: "distinct ss" using ss(1) du by (metis distinct_filter expired_def mset_eq_imp_distinct_iff)
  have kept: "?kept \<subseteq> ?es" unfolding set_ss [symmetric] newest_def by blast
  have "docs c' = filter (\<lambda>d. doc_id d \<notin> set (concat ?run)) (docs c)"
    using c' run(1,2) by (cases ?run) (auto simp: Suc_length_conv)
  then have "set (docs c') = {d \<in> set (docs c). doc_id d \<notin> doc_id ` (?es - ?kept)}" by (simp only: set_filter run(3) set_ss)
  also have "\<dots> = set (docs c) - (?es - ?kept)"
    using u kept by (auto simp: distinct_map expired_def dest: inj_onD)
  also have "\<dots> = {d \<in> set (docs c). protected_by lib now policy d} \<union> ?kept" using kept by (auto simp: expired_def)
  finally have "set (docs c') = \<dots>" .
  moreover have "\<forall>p. card {d \<in> ?kept. spare_group policy d = p} = min (spare_volume policy) (card {d \<in> ?es. spare_group policy d = p})"
    using newest_card [OF d] set_ss by auto
  moreover have "\<forall>k \<in> ?kept. \<forall>x \<in> ?es - ?kept. spare_group policy k = spare_group policy x \<longrightarrow> doc_time x \<le> doc_time k"
    using newest_sorted [OF d ss(2)] set_ss by blast
  ultimately show ?thesis unfolding enforces_def using kept by blast
qed


subsection \<open>A store in memory\<close>

definition mem_mongo :: "extlib \<Rightarrow> StoredEvent list mongo" where
  "mem_mongo lib = \<lparr>mg_FindById = \<lambda>c i. Ok (find (\<lambda>d. doc_id d = i) c), mg_FindByTx = \<lambda>c t. Ok (find (\<lambda>d. st_TxHash d = t) c),
     mg_FindByIds = \<lambda>c is. Ok (filter (\<lambda>d. doc_id d \<in> set is) c),
     mg_InsertOne = \<lambda>c d. Ok (if doc_id d \<in> doc_id ` set c then (False, c) else (True, c @ [d])),
     mg_Count = \<lambda>c. Ok (int (length c)),
     mg_Aggregate = \<lambda>c stages. Ok (run_pipeline lib (sort_key (\<lambda>d. - doc_time d)) (\<lambda>ps. ps) stages c),
     mg_DeleteMany = \<lambda>c is. Ok (filter (\<lambda>d. doc_id d \<notin> set is) c)\<rparr>"

lemma mem_mongo_laws: "mongo_laws (mem_mongo lib) lib (\<lambda>c. c)"
proof -
  have "sorted_wrt (\<lambda>a b. doc_time b \<le> doc_time a) (sort_key (\<lambda>d. - doc_time d) ds)" for ds
    using sorted_sort_key [of "\<lambda>d. - doc_time d" ds] by (simp add: sorted_map)
  then have "newest_first (sort_key (\<lambda>d. - doc_time d))" by (simp add: newest_first_def)
  then show ?thesis by (auto simp: mongo_laws_def mem_mongo_def split: if_split_asm)
qed

definition demo_doc :: "nat \<Rightarrow> string \<Rightarrow> int \<Rightarrow> StoredEvent" where
  "demo_doc i p t = \<lparr>st_EventWithData = \<lparr>ed_Event = demo_event, ed_EventData = []\<rparr>,
     st_Metadata = \<lparr>md_EventId = [of_nat i], ReceivedTime = t * 1000000, md_Principal = p\<rparr>, st_TxHash = [of_nat i]\<rparr>"

definition demo_docs :: "StoredEvent list" where
  "demo_docs = [demo_doc 1 ''a'' 1, demo_doc 2 ''a'' 2, demo_doc 3 ''b'' 1, demo_doc 4 ''a'' 100]"

definition demo_count_policy :: StoredPolicy where
  "demo_count_policy = \<lparr>so_Policy = \<lparr>rp_Filters = [
     \<lparr>fi_Label = ''new'', fi_Match = \<lparr>ma_Channel = None, ma_EventId = None, ma_ProviderGuid = None\<rparr>,
       fi_PolicyAction = \<lparr>pa_Type = PolicyTypeTimestamp, pa_RuleGroup = [], pa_RetentionPeriod = 50000000, pa_Volume = 0\<rparr>\<rparr>,
     \<lparr>fi_Label = ''last'', fi_Match = \<lparr>ma_Channel = None, ma_EventId = None, ma_ProviderGuid = None\<rparr>,
       fi_PolicyAction = \<lparr>pa_Type = PolicyTypeCount, pa_RuleGroup = RuleGroupingPrincipal, pa_RetentionPeriod = 0, pa_Volume = 1\<rparr>\<rparr>]\<rparr>,
     so_Author = ''root'', so_AppliedAt = 0\<rparr>"

lemma demo_scan:
  "scanAndDrop (mem_mongo demo_lib) (Ok (Some demo_count_policy)) 120000000 NewAgent demo_docs
   = (Ok (), \<lparr>ag_policy = Some demo_count_policy\<rparr>, [demo_doc 2 ''a'' 2, demo_doc 3 ''b'' 1, demo_doc 4 ''a'' 100])"
  by code_simp


end
