(* ===== verification/OffchainNode.thy ===== *)
theory OffchainNode
  imports Chain Harmoniser EventRepository
begin

section \<open>The off-chain node: submissions and messages (internal/server, pkg/transport/payload)\<close>

text \<open>
  How event data gets into the store of an off-chain node: an agent submits it over HTTP, another node
  broadcasts a submission, or another node answers a request for missing events. The messages between
  nodes, the decoder that dispatches them and the handlers are modelled here, and the node as a
  transition system whose steps are requests, messages, the loop that handles backfilled events and
  retention scans, in any order; a handler is one step. The transport is an argument (the result of a
  broadcast); what is sent is recorded in the state. The locale \<open>chain_reader\<close> states what the handlers
  rely on when they read the chain; it is interpreted with the round-robin client over connections to
  nodes that run the multiplexed application.
\<close>

subsection \<open>Messages (types/offchain/rpc.go, payload/types.go, payload.go)\<close>

record SubmitRequest =
  sr_EventId :: EventHash
  sr_TxHash :: TxHash
  sr_EventData :: EventData
  sr_Principal :: string
  sr_Signature :: string

record EventRequest =
  er_EventIds :: "EventHash list"

record EventBackfillResponseData =
  bd_EventId :: EventHash
  bd_TxHash :: TxHash
  bd_EventData :: EventData

record EventBackfillResponse =
  eb_Events :: "EventBackfillResponseData list"

definition NewEventRequest :: "EventHash list \<Rightarrow> EventRequest" where
  "NewEventRequest eventIds = \<lparr>er_EventIds = eventIds\<rparr>"

definition EventIds :: "EventBackfillResponse \<Rightarrow> EventHash list" where
  "EventIds r = map bd_EventId (eb_Events r)"

definition EvData_json :: "EvData \<Rightarrow> json" where
  "EvData_json d = JObj [(''name'', jptr JStr (dt_Name d)), (''value'', jptr JStr (dt_Value d))]"

definition EvData_of_json :: "json \<Rightarrow> EvData res" where
  "EvData_of_json j = bind_res (jfields j) (\<lambda>fs.
     bind_res (jstring_ptr ''name'' fs) (\<lambda>n.
     bind_res (jstring_ptr ''value'' fs) (\<lambda>v. Ok \<lparr>dt_Name = n, dt_Value = v\<rparr>)))"

definition SubmitRequest_json :: "SubmitRequest \<Rightarrow> json" where
  "SubmitRequest_json r = JObj [(''event_id'', TxHash_MarshalJSON (sr_EventId r)), (''tx_hash'', TxHash_MarshalJSON (sr_TxHash r)),
     (''event_data'', JArr (map EvData_json (sr_EventData r))), (''principal'', JStr (sr_Principal r)), (''signature'', JStr (sr_Signature r))]"

definition SubmitRequest_of_json :: "extlib \<Rightarrow> json \<Rightarrow> SubmitRequest res" where
  "SubmitRequest_of_json lib j = bind_res (jfields j) (\<lambda>fs.
     bind_res (jcustom (rfc3339 lib) TxHash_UnmarshalJSON [] ''event_id'' fs) (\<lambda>eid.
     bind_res (jcustom (rfc3339 lib) TxHash_UnmarshalJSON [] ''tx_hash'' fs) (\<lambda>tx.
     bind_res (jarray EvData_of_json ''event_data'' fs) (\<lambda>d.
     bind_res (jstring ''principal'' fs) (\<lambda>p.
     bind_res (jstring ''signature'' fs) (\<lambda>s.
       Ok \<lparr>sr_EventId = eid, sr_TxHash = tx, sr_EventData = d, sr_Principal = p, sr_Signature = s\<rparr>))))))"

definition hash_text :: "extlib \<Rightarrow> json \<Rightarrow> TxHash res" where
  "hash_text lib j = TxHash_UnmarshalJSON (render (rfc3339 lib) j)"

definition EventRequest_json :: "EventRequest \<Rightarrow> json" where
  "EventRequest_json r = JObj [(''e'', JArr (map TxHash_MarshalJSON (er_EventIds r)))]"

definition EventRequest_of_json :: "extlib \<Rightarrow> json \<Rightarrow> EventRequest res" where
  "EventRequest_of_json lib j = bind_res (jfields j) (\<lambda>fs.
     bind_res (jarray (hash_text lib) ''e'' fs) (\<lambda>is. Ok \<lparr>er_EventIds = is\<rparr>))"

definition EventBackfillResponseData_json :: "EventBackfillResponseData \<Rightarrow> json" where
  "EventBackfillResponseData_json d = JObj [(''e'', TxHash_MarshalJSON (bd_EventId d)), (''h'', TxHash_MarshalJSON (bd_TxHash d)),
     (''d'', JArr (map EvData_json (bd_EventData d)))]"

definition EventBackfillResponseData_of_json :: "extlib \<Rightarrow> json \<Rightarrow> EventBackfillResponseData res" where
  "EventBackfillResponseData_of_json lib j = bind_res (jfields j) (\<lambda>fs.
     bind_res (jcustom (rfc3339 lib) TxHash_UnmarshalJSON [] ''e'' fs) (\<lambda>eid.
     bind_res (jcustom (rfc3339 lib) TxHash_UnmarshalJSON [] ''h'' fs) (\<lambda>tx.
     bind_res (jarray EvData_of_json ''d'' fs) (\<lambda>d. Ok \<lparr>bd_EventId = eid, bd_TxHash = tx, bd_EventData = d\<rparr>))))"

definition EventBackfillResponse_json :: "EventBackfillResponse \<Rightarrow> json" where
  "EventBackfillResponse_json r = JObj [(''e'', JArr (map EventBackfillResponseData_json (eb_Events r)))]"

definition EventBackfillResponse_of_json :: "extlib \<Rightarrow> json \<Rightarrow> EventBackfillResponse res" where
  "EventBackfillResponse_of_json lib j = bind_res (jfields j) (\<lambda>fs.
     bind_res (jarray (EventBackfillResponseData_of_json lib) ''e'' fs) (\<lambda>evs. Ok \<lparr>eb_Events = evs\<rparr>))"

text \<open>The envelope. A \<^verbatim>\<open>PayloadType\<close> is a \<^verbatim>\<open>uint8\<close>.\<close>

record TransportPayload =
  tp_Type :: nat
  tp_Data :: "json option"

definition TypeBroadcastEvent :: nat where "TypeBroadcastEvent = 0"
definition TypeRequestEvent :: nat where "TypeRequestEvent = 1"
definition TypeBackfillResponse :: nat where "TypeBackfillResponse = 2"

definition NewPayload :: "nat \<Rightarrow> json \<Rightarrow> TransportPayload" where
  "NewPayload t data = \<lparr>tp_Type = t, tp_Data = Some data\<rparr>"

definition NewPayloadMarshalled :: "nat \<Rightarrow> json \<Rightarrow> json" where
  "NewPayloadMarshalled t data =
     (let p = NewPayload t data in JObj [(''t'', JNum (nat_dec (tp_Type p))), (''d'', raw_json (tp_Data p))])"

definition TransportPayload_of_json :: "json \<Rightarrow> TransportPayload res" where
  "TransportPayload_of_json j = bind_res (jfields j) (\<lambda>fs.
     bind_res (juint64 ''t'' fs) (\<lambda>t.
       if 256 \<le> t then Err (OtherError ''cannot unmarshal number into uint8'')
       else Ok \<lparr>tp_Type = t, tp_Data = jraw ''d'' fs\<rparr>))"

subsection \<open>decoder.go\<close>

text \<open>
  A handler acts on the state of the node; \<^verbatim>\<open>HandleMessage\<close> returns the handler call it starts in a
  goroutine, if the handler is set.
\<close>

record 'n Decoder =
  dc_broadcastHandler :: "(string \<Rightarrow> SubmitRequest \<Rightarrow> 'n \<Rightarrow> 'n res) option"
  dc_eventRequestHandler :: "(string \<Rightarrow> EventRequest \<Rightarrow> 'n \<Rightarrow> 'n res) option"
  dc_eventBackfillResponseHandler :: "(string \<Rightarrow> EventBackfillResponse \<Rightarrow> 'n \<Rightarrow> 'n res) option"

definition NewDecoder :: "'n Decoder" where
  "NewDecoder = \<lparr>dc_broadcastHandler = None, dc_eventRequestHandler = None, dc_eventBackfillResponseHandler = None\<rparr>"

definition WithBroadcastHandler :: "(string \<Rightarrow> SubmitRequest \<Rightarrow> 'n \<Rightarrow> 'n res) \<Rightarrow> 'n Decoder \<Rightarrow> 'n Decoder" where
  "WithBroadcastHandler handler d = d\<lparr>dc_broadcastHandler := Some handler\<rparr>"

definition WithRequestHandler :: "(string \<Rightarrow> EventRequest \<Rightarrow> 'n \<Rightarrow> 'n res) \<Rightarrow> 'n Decoder \<Rightarrow> 'n Decoder" where
  "WithRequestHandler handler d = d\<lparr>dc_eventRequestHandler := Some handler\<rparr>"

definition WithEventBackfillResponseHandler :: "(string \<Rightarrow> EventBackfillResponse \<Rightarrow> 'n \<Rightarrow> 'n res) \<Rightarrow> 'n Decoder \<Rightarrow> 'n Decoder" where
  "WithEventBackfillResponseHandler handler d = d\<lparr>dc_eventBackfillResponseHandler := Some handler\<rparr>"

definition decodePayload :: "json option \<Rightarrow> TransportPayload res" where
  "decodePayload message = json_Unmarshal TransportPayload_of_json message"

definition HandleMessage :: "extlib \<Rightarrow> 'n Decoder \<Rightarrow> string \<Rightarrow> json option \<Rightarrow> ('n \<Rightarrow> 'n res) option res" where
  "HandleMessage lib d sourceName message =
     bind_res (decodePayload message) (\<lambda>p.
       if tp_Type p = TypeBroadcastEvent
       then bind_res (json_Unmarshal (SubmitRequest_of_json lib) (tp_Data p)) (\<lambda>data.
         Ok (map_option (\<lambda>h. h sourceName data) (dc_broadcastHandler d)))
       else if tp_Type p = TypeRequestEvent
       then bind_res (json_Unmarshal (EventRequest_of_json lib) (tp_Data p)) (\<lambda>data.
         Ok (map_option (\<lambda>h. h sourceName data) (dc_eventRequestHandler d)))
       else if tp_Type p = TypeBackfillResponse
       then bind_res (json_Unmarshal (EventBackfillResponse_of_json lib) (tp_Data p)) (\<lambda>data.
         Ok (map_option (\<lambda>h. h sourceName data) (dc_eventBackfillResponseHandler d)))
       else Err (OtherError ''unknown payload type''))"

subsection \<open>The node\<close>

text \<open>
  \<open>chain_api\<close> are the two calls the handlers make on the blockchain client, whose state is \<open>nd_client\<close>. In
  the state, \<open>nd_viewer\<close> are the events sent on \<^verbatim>\<open>eventBroadcastCh\<close>, \<open>nd_sent\<close> the messages handed to the
  transport (with their target for a unicast), \<open>nd_pending\<close> the events that started calls of the backfill
  response handler still have to hand over to the loop, one list per call, and \<open>nd_alive\<close> says whether
  that loop still runs.
\<close>

record 'w chain_api =
  api_GetIdentity :: "Principal \<Rightarrow> 'w \<Rightarrow> IdentityData res \<times> 'w"
  api_GetEventByTx :: "TxHash \<Rightarrow> 'w \<Rightarrow> EventWithMetadata res \<times> 'w"

record ('c, 'd) deps =
  dp_lib :: extlib
  dp_mongo :: "'c mongo"
  dp_leveldb :: "'d leveldb"
  dp_NodeName :: string
  dp_viewer :: bool

record ('w, 'c, 'd) node =
  nd_client :: 'w
  nd_repo :: 'c
  nd_state :: 'd
  nd_viewer :: "StoredEvent list"
  nd_sent :: "(string option \<times> json) list"
  nd_pending :: "EventBackfillResponseData list list"
  nd_alive :: bool

subsection \<open>error.go and submit.go\<close>

record HttpError =
  he_error :: string
  he_ResponseCode :: nat

definition NewHttpError :: "nat \<Rightarrow> string \<Rightarrow> HttpError option" where
  "NewHttpError responseCode message = Some \<lparr>he_error = message, he_ResponseCode = responseCode\<rparr>"

definition full_event :: "EventWithMetadata \<Rightarrow> EventData \<Rightarrow> TxHash \<Rightarrow> StoredEvent" where
  "full_event event data txHash = \<lparr>st_EventWithData = \<lparr>ed_Event = sc_Event (em_ScrubbedEvent event), ed_EventData = data\<rparr>,
     st_Metadata = em_Metadata event, st_TxHash = txHash\<rparr>"

text \<open>The part of \<^verbatim>\<open>StoreEvent\<close> after the event has been fetched.\<close>

definition store_fetched :: "('c, 'd) deps \<Rightarrow> SubmitRequest \<Rightarrow> bytes \<Rightarrow> EventWithMetadata \<Rightarrow> ('w, 'c, 'd) node
    \<Rightarrow> (HttpError option \<times> ('w, 'c, 'd) node) res" where
  "store_fetched D req hash event n =
     (if md_EventId (em_Metadata event) \<noteq> sr_EventId req then Ok (NewHttpError 400 ''event id does not match'', n)
      else if md_Principal (em_Metadata event) \<noteq> sr_Principal req then Ok (NewHttpError 403 ''principal does not match'', n)
      else if OffChainHash (em_ScrubbedEvent event) \<noteq> hex_EncodeToString hash
      then Ok (NewHttpError 400 ''event data does not match'', n)
      else
        let fullEvent = full_event event (sr_EventData req) (sr_TxHash req);
            finish = (\<lambda>c. bind_res (logged (RemoveMissingEvent (dp_leveldb D) (md_EventId (em_Metadata event)) (nd_state n)) (nd_state n)) (\<lambda>db.
              Ok (None, n\<lparr>nd_repo := c, nd_state := db,
                nd_viewer := (if dp_viewer D then nd_viewer n @ [fullEvent] else nd_viewer n)\<rparr>)))
        in case repo_Store (dp_mongo D) fullEvent (nd_repo n) of
             Panic \<Rightarrow> Panic
           | Err e \<Rightarrow> if e = ErrEventAlreadyStored then finish (nd_repo n) else Ok (NewHttpError 500 ''failed to store event'', n)
           | Ok c \<Rightarrow> finish c)"

definition StoreEvent :: "('c, 'd) deps \<Rightarrow> 'w chain_api \<Rightarrow> SubmitRequest \<Rightarrow> ('w, 'c, 'd) node
    \<Rightarrow> (HttpError option \<times> ('w, 'c, 'd) node) res" where
  "StoreEvent D api req n = (case api_GetIdentity api (sr_Principal req) (nd_client n) of (found, w) \<Rightarrow>
     (case found of
        Panic \<Rightarrow> Panic
      | Err e \<Rightarrow> Ok (if e = ErrPrincipalNotFound then NewHttpError 401 ''principal not found''
                    else NewHttpError 500 ''failed to get identity'', n\<lparr>nd_client := w\<rparr>)
      | Ok who \<Rightarrow> (case hex_DecodeString (sr_Signature req) of
          Ok signature \<Rightarrow>
            let hash = EventData_Hash (dp_lib D) (sr_EventData req)
            in bind_res (ed25519_Verify (dp_lib D) (id_PublicKey who) hash signature) (\<lambda>signatureValid.
              if \<not> signatureValid then Ok (NewHttpError 403 ''signature is invalid'', n\<lparr>nd_client := w\<rparr>)
              else case api_GetEventByTx api (sr_TxHash req) w of (fetched, w) \<Rightarrow>
                (case fetched of
                   Panic \<Rightarrow> Panic
                 | Err e \<Rightarrow> Ok (if e = ErrEventNotFound then NewHttpError 404 ''event not found''
                               else NewHttpError 500 ''failed to get event by tx'', n\<lparr>nd_client := w\<rparr>)
                 | Ok event \<Rightarrow> store_fetched D req hash event (n\<lparr>nd_client := w\<rparr>)))
        | _ \<Rightarrow> Ok (NewHttpError 400 ''invalid signature'', n\<lparr>nd_client := w\<rparr>))))"

text \<open>An HTTP answer: a body or an error text, with its code. \<open>sending\<close> is the result of the broadcast.\<close>

datatype 'a reply = Reply nat 'a | ErrorReply nat string

definition HandleSubmit :: "('c, 'd) deps \<Rightarrow> 'w chain_api \<Rightarrow> unit res \<Rightarrow> json option \<Rightarrow> ('w, 'c, 'd) node
    \<Rightarrow> (unit reply \<times> ('w, 'c, 'd) node) res" where
  "HandleSubmit D api sending body n = (case json_Unmarshal (SubmitRequest_of_json (dp_lib D)) body of
     Panic \<Rightarrow> Panic
   | Err e \<Rightarrow> Ok (ErrorReply 400 (err_Error e), n)
   | Ok req \<Rightarrow> bind_res (StoreEvent D api req n) (\<lambda>(err, n). case err of
       Some e \<Rightarrow> Ok (ErrorReply (he_ResponseCode e) (he_error e), n)
     | None \<Rightarrow>
         let marshalled = NewPayloadMarshalled TypeBroadcastEvent (SubmitRequest_json req);
             n = n\<lparr>nd_sent := nd_sent n @ [(None, marshalled)]\<rparr>
         in case sending of
              Panic \<Rightarrow> Panic
            | Err e \<Rightarrow> Ok (ErrorReply 500 ''failed to send submit request'', n)
            | Ok _ \<Rightarrow> Ok (Reply 201 (), n)))"

subsection \<open>getevent.go, stats.go and status.go\<close>

definition sha256Regex :: "string \<Rightarrow> bool" where
  "sha256Regex s \<longleftrightarrow> length s = 64 \<and> list_all lower_hex s"

definition HandleGetEvent :: "('c, 'd) deps \<Rightarrow> string \<Rightarrow> ('w, 'c, 'd) node \<Rightarrow> StoredEvent option reply res" where
  "HandleGetEvent D eventIdStr n =
     (if \<not> sha256Regex eventIdStr then Ok (ErrorReply 400 ''invalid event id'')
      else case hex_DecodeString eventIdStr of
        Ok eventId \<Rightarrow> (case repo_GetEventById (dp_mongo D) eventId (nd_repo n) of
            Panic \<Rightarrow> Panic
          | Err e \<Rightarrow> Ok (ErrorReply 500 ''failed to get event'')
          | Ok None \<Rightarrow> Ok (Reply 404 None)
          | Ok (Some ev) \<Rightarrow> Ok (Reply 200 (Some ev)))
      | _ \<Rightarrow> Ok (ErrorReply 400 ''invalid event id''))"

definition HandleStats :: "('c, 'd) deps \<Rightarrow> ('w, 'c, 'd) node \<Rightarrow> (int \<times> int \<times> int option \<times> BlockRange list) reply res" where
  "HandleStats D n =
     on_err (repo_EventCount (dp_mongo D) (nd_repo n)) (\<lambda>_. Ok (ErrorReply 500 ''failed to get event count'')) (\<lambda>eventCount.
     on_err (LastSeenBlockHeight (dp_leveldb D) (nd_state n)) (\<lambda>_. Ok (ErrorReply 500 ''failed to get last seen block height'')) (\<lambda>lastSeen.
     on_err (MissingBlocks (dp_leveldb D) (nd_state n)) (\<lambda>_. Ok (ErrorReply 500 ''failed to get missing blocks'')) (\<lambda>missingBlocks.
       Ok (Reply 200 (eventCount, MissingEventCount (dp_leveldb D) (nd_state n), lastSeen, map bi_BlockRange missingBlocks)))))"

definition HandleStatus :: "unit res \<Rightarrow> string reply res" where
  "HandleStatus connection = (case connection of
     Panic \<Rightarrow> Panic
   | Err e \<Rightarrow> Ok (ErrorReply 500 ''failed to connect to the database'')
   | Ok _ \<Rightarrow> Ok (Reply 200 ''ok''))"

subsection \<open>The handlers\<close>

definition BroadcastHandler :: "('c, 'd) deps \<Rightarrow> 'w chain_api \<Rightarrow> string \<Rightarrow> SubmitRequest \<Rightarrow> ('w, 'c, 'd) node \<Rightarrow> ('w, 'c, 'd) node res" where
  "BroadcastHandler D api sourceName request n = map_res snd (StoreEvent D api request n)"

definition EventRequestHandler :: "('c, 'd) deps \<Rightarrow> string \<Rightarrow> EventRequest \<Rightarrow> ('w, 'c, 'd) node \<Rightarrow> ('w, 'c, 'd) node res" where
  "EventRequestHandler D sourceName request n =
     (if dp_NodeName D = sourceName then Ok n
      else case repo_GetEventsById (dp_mongo D) (er_EventIds request) (nd_repo n) of
        Panic \<Rightarrow> Panic
      | Err e \<Rightarrow> Ok n
      | Ok evs \<Rightarrow>
          if length evs = 0 then Ok n
          else
            let data = map (\<lambda>event. \<lparr>bd_EventId = md_EventId (st_Metadata event), bd_TxHash = st_TxHash event,
                  bd_EventData = ed_EventData (st_EventWithData event)\<rparr>) evs;
                marshalled = NewPayloadMarshalled TypeBackfillResponse (EventBackfillResponse_json \<lparr>eb_Events = data\<rparr>)
            in Ok (n\<lparr>nd_sent := nd_sent n @ [(Some sourceName, marshalled)]\<rparr>))"

definition BackfillResponseHandler :: "string \<Rightarrow> EventBackfillResponse \<Rightarrow> ('w, 'c, 'd) node \<Rightarrow> ('w, 'c, 'd) node res" where
  "BackfillResponseHandler sourceName res n = Ok (n\<lparr>nd_pending := nd_pending n @ [eb_Events res]\<rparr>)"

text \<open>One event in the loop of \<^verbatim>\<open>startBackfillResponseHandlerLoop\<close>; the flag says whether the loop goes on.\<close>

definition backfill_event :: "('c, 'd) deps \<Rightarrow> 'w chain_api \<Rightarrow> EventBackfillResponseData \<Rightarrow> ('w, 'c, 'd) node
    \<Rightarrow> (bool \<times> ('w, 'c, 'd) node) res" where
  "backfill_event D api event n = (case api_GetEventByTx api (bd_TxHash event) (nd_client n) of (fetched, w) \<Rightarrow>
     (case fetched of
        Panic \<Rightarrow> Panic
      | Err e \<Rightarrow> Ok (False, n\<lparr>nd_client := w\<rparr>)
      | Ok tx \<Rightarrow>
          let n = n\<lparr>nd_client := w\<rparr>; hash = EventData_Hash (dp_lib D) (bd_EventData event)
          in if OffChainHash (em_ScrubbedEvent tx) \<noteq> hex_EncodeToString hash then Ok (False, n)
             else if md_EventId (em_Metadata tx) \<noteq> bd_EventId event then Ok (False, n)
             else
               let fullEvent = full_event tx (bd_EventData event) (bd_TxHash event);
                   finish = (\<lambda>c. let n = n\<lparr>nd_repo := c\<rparr> in
                     case RemoveMissingEvent (dp_leveldb D) (md_EventId (em_Metadata tx)) (nd_state n) of
                       Panic \<Rightarrow> Panic
                     | Err e \<Rightarrow> Ok (False, n)
                     | Ok db \<Rightarrow> Ok (True, n\<lparr>nd_state := db\<rparr>))
               in case repo_Store (dp_mongo D) fullEvent (nd_repo n) of
                    Panic \<Rightarrow> Panic
                  | Err e \<Rightarrow> if e = ErrEventAlreadyStored then finish (nd_repo n) else Ok (False, n)
                  | Ok c \<Rightarrow> finish c))"

text \<open>The decoder as main.go sets it up.\<close>

definition node_decoder :: "('c, 'd) deps \<Rightarrow> 'w chain_api \<Rightarrow> ('w, 'c, 'd) node Decoder" where
  "node_decoder D api = WithEventBackfillResponseHandler BackfillResponseHandler
     (WithRequestHandler (EventRequestHandler D) (WithBroadcastHandler (BroadcastHandler D api) NewDecoder))"

subsection \<open>The node as a transition system\<close>

text \<open>\<open>A\<close> are the answers the chain may give at a step.\<close>

inductive node_step :: "('c, 'd) deps \<Rightarrow> ('w chain_api \<Rightarrow> bool) \<Rightarrow> ('w, 'c, 'd) node \<Rightarrow> ('w, 'c, 'd) node \<Rightarrow> bool"
  for D :: "('c, 'd) deps" and A :: "'w chain_api \<Rightarrow> bool" where
  submit: "A api \<Longrightarrow> HandleSubmit D api sending body n = Ok (r, n') \<Longrightarrow> node_step D A n n'"
| message: "A api \<Longrightarrow> HandleMessage (dp_lib D) (node_decoder D api) source msg = Ok (Some handler) \<Longrightarrow> handler n = Ok n' \<Longrightarrow> node_step D A n n'"
| backfill: "A api \<Longrightarrow> nd_alive n \<Longrightarrow> i < length (nd_pending n) \<Longrightarrow> nd_pending n ! i = ev # evs
    \<Longrightarrow> backfill_event D api ev (n\<lparr>nd_pending := (nd_pending n)[i := evs]\<rparr>) = Ok (goes_on, n') \<Longrightarrow> node_step D A n (n'\<lparr>nd_alive := goes_on\<rparr>)"
| scan: "DropExpiredEvents (dp_mongo D) now policy (nd_repo n) = Ok c \<Longrightarrow> node_step D A n (n\<lparr>nd_repo := c\<rparr>)"

inductive_cases node_stepE: "node_step D A n n'"

definition node_run :: "('c, 'd) deps \<Rightarrow> ('w chain_api \<Rightarrow> bool) \<Rightarrow> ('w, 'c, 'd) node \<Rightarrow> ('w, 'c, 'd) node \<Rightarrow> bool" where
  "node_run D A = (node_step D A)\<^sup>*\<^sup>*"

subsection \<open>Messages arrive as they were sent\<close>

lemma EvData_json_roundtrip: "EvData_of_json (EvData_json d) = Ok d"
  by (simp add: EvData_of_json_def EvData_json_def jstring_ptr_JStr ToLower_def to_lower_char_def)

lemma SubmitRequest_json_roundtrip: "SubmitRequest_of_json lib (SubmitRequest_json r) = Ok r"
  by (simp add: SubmitRequest_of_json_def SubmitRequest_json_def jcustom_def jarray_def jstring_def map_res_list_map EvData_json_roundtrip
      ToLower_def to_lower_char_def)

lemma EventRequest_json_roundtrip: "EventRequest_of_json lib (EventRequest_json r) = Ok r"
  by (simp add: EventRequest_of_json_def EventRequest_json_def jarray_def map_res_list_map hash_text_def)

lemma EventBackfillResponseData_json_roundtrip: "EventBackfillResponseData_of_json lib (EventBackfillResponseData_json d) = Ok d"
  by (simp add: EventBackfillResponseData_of_json_def EventBackfillResponseData_json_def jcustom_def jarray_def map_res_list_map
      EvData_json_roundtrip ToLower_def to_lower_char_def)

lemma EventBackfillResponse_json_roundtrip: "EventBackfillResponse_of_json lib (EventBackfillResponse_json r) = Ok r"
  by (simp add: EventBackfillResponse_of_json_def EventBackfillResponse_json_def jarray_def map_res_list_map
      EventBackfillResponseData_json_roundtrip)

interpretation submit_json: codec SubmitRequest_json "SubmitRequest_of_json lib" "\<lambda>_. True"
  by unfold_locales (simp add: SubmitRequest_json_roundtrip)

interpretation backfill_json: codec EventBackfillResponse_json "EventBackfillResponse_of_json lib" "\<lambda>_. True"
  by unfold_locales (simp add: EventBackfillResponse_json_roundtrip)

lemma decodePayload_marshalled:
  assumes "t < 256"
  shows "decodePayload (Some (NewPayloadMarshalled t j)) = Ok \<lparr>tp_Type = t, tp_Data = Some j\<rparr>"
  using assms by (simp add: decodePayload_def json_Unmarshal_def TransportPayload_of_json_def NewPayloadMarshalled_def NewPayload_def
      juint64_nat_dec raw_json_def jraw_def ToLower_def to_lower_char_def)

lemmas payload_types = TypeBroadcastEvent_def TypeRequestEvent_def TypeBackfillResponse_def

lemma HandleMessage_broadcast:
  "HandleMessage lib d source (Some (NewPayloadMarshalled TypeBroadcastEvent (SubmitRequest_json r)))
     = Ok (map_option (\<lambda>h. h source r) (dc_broadcastHandler d))"
  by (simp add: HandleMessage_def decodePayload_marshalled payload_types json_Unmarshal_def SubmitRequest_json_roundtrip)

lemma HandleMessage_request:
  "HandleMessage lib d source (Some (NewPayloadMarshalled TypeRequestEvent (EventRequest_json r)))
     = Ok (map_option (\<lambda>h. h source r) (dc_eventRequestHandler d))"
  by (simp add: HandleMessage_def decodePayload_marshalled payload_types json_Unmarshal_def EventRequest_json_roundtrip)

lemma HandleMessage_backfill:
  "HandleMessage lib d source (Some (NewPayloadMarshalled TypeBackfillResponse (EventBackfillResponse_json r)))
     = Ok (map_option (\<lambda>h. h source r) (dc_eventBackfillResponseHandler d))"
  by (simp add: HandleMessage_def decodePayload_marshalled payload_types json_Unmarshal_def EventBackfillResponse_json_roundtrip)

lemma node_decoder_simps [simp]:
  "dc_broadcastHandler (node_decoder D api) = Some (BroadcastHandler D api)"
  "dc_eventRequestHandler (node_decoder D api) = Some (EventRequestHandler D)"
  "dc_eventBackfillResponseHandler (node_decoder D api) = Some BackfillResponseHandler"
  by (simp_all add: node_decoder_def WithEventBackfillResponseHandler_def WithRequestHandler_def WithBroadcastHandler_def NewDecoder_def)

text \<open>What a message can start.\<close>

lemma HandleMessage_cases:
  assumes "HandleMessage lib (node_decoder D api) source msg = Ok (Some handler)"
  obtains (broadcast) r where "handler = BroadcastHandler D api source r"
    | (request) r where "handler = EventRequestHandler D source r"
    | (response) r where "handler = BackfillResponseHandler source r"
  using assms by (auto simp: HandleMessage_def split: if_split_asm)

subsection \<open>What the handlers rely on\<close>

text \<open>A stored event is genuine when the chain records it and its data has the recorded hash.\<close>

definition genuine :: "(EventWithMetadata \<Rightarrow> bool) \<Rightarrow> extlib \<Rightarrow> StoredEvent \<Rightarrow> bool" where
  "genuine recorded lib d \<longleftrightarrow> (\<exists>e. recorded e \<and> d = full_event e (ed_EventData (st_EventWithData d)) (st_TxHash d)
     \<and> OffChainHash (em_ScrubbedEvent e) = hex_EncodeToString (EventData_Hash lib (ed_EventData (st_EventWithData d))))"

definition node_inv :: "('w \<Rightarrow> bool) \<Rightarrow> (EventWithMetadata \<Rightarrow> bool) \<Rightarrow> ('c, 'd) deps \<Rightarrow> ('c \<Rightarrow> StoredEvent list) \<Rightarrow> ('w, 'c, 'd) node \<Rightarrow> bool" where
  "node_inv good recorded D docs n \<longleftrightarrow> good (nd_client n) \<and> (\<forall>d \<in> set (docs (nd_repo n)). genuine recorded (dp_lib D) d)"

lemma repo_Store_docs:
  assumes "mongo_laws G lib docs" "repo_Store G ev c = Ok c'"
  shows "docs c' = docs c @ [ev]"
  using assms mongo_lawsD(2) [OF assms(1)] by (auto simp: repo_Store_def split: if_split_asm)

lemma DropExpiredEvents_docs:
  assumes "mongo_laws G lib docs" "DropExpiredEvents G now policy c = Ok c'"
  shows "set (docs c') \<subseteq> set (docs c)"
proof -
  obtain rs where "docs c' = (case rs of [] \<Rightarrow> docs c | is # _ \<Rightarrow> filter (\<lambda>d. doc_id d \<notin> set is) (docs c))"
    by (rule DropExpiredEvents_Ok [OF assms(2,1)])
  then show ?thesis by (cases rs) auto
qed

lemma genuine_full_event:
  assumes "recorded e" "OffChainHash (em_ScrubbedEvent e) = hex_EncodeToString (EventData_Hash lib data)"
  shows "genuine recorded lib (full_event e data txHash)"
  unfolding genuine_def by (rule exI [of _ e]) (use assms in \<open>simp add: full_event_def\<close>)

locale chain_reader =
  fixes A :: "'w chain_api \<Rightarrow> bool" and good :: "'w \<Rightarrow> bool" and recorded :: "EventWithMetadata \<Rightarrow> bool"
  assumes identity_good: "A api \<Longrightarrow> good w \<Longrightarrow> api_GetIdentity api p w = (r, w') \<Longrightarrow> good w'"
    and event_good: "A api \<Longrightarrow> good w \<Longrightarrow> api_GetEventByTx api t w = (r', w') \<Longrightarrow> good w'"
    and event_recorded: "A api \<Longrightarrow> good w \<Longrightarrow> api_GetEventByTx api t w = (Ok e, w') \<Longrightarrow> recorded e"
begin

lemma store_fetched_inv:
  assumes m: "mongo_laws (dp_mongo D) (dp_lib D) docs" and e: "recorded event" and i: "node_inv good recorded D docs n"
    and s: "store_fetched D req (EventData_Hash (dp_lib D) (sr_EventData req)) event n = Ok (err, n')"
  shows "node_inv good recorded D docs n'"
proof -
  let ?full = "full_event event (sr_EventData req) (sr_TxHash req)"
  consider "nd_repo n' = nd_repo n" "nd_client n' = nd_client n"
    | "repo_Store (dp_mongo D) ?full (nd_repo n) = Ok (nd_repo n')" "nd_client n' = nd_client n"
      "OffChainHash (em_ScrubbedEvent event) = hex_EncodeToString (EventData_Hash (dp_lib D) (sr_EventData req))"
    using s by (auto simp: store_fetched_def Let_def split: if_split_asm res.split_asm)
  then show ?thesis
  proof cases
    case 2
    with repo_Store_docs [OF m 2(1)] genuine_full_event [of recorded, OF e 2(3)] i show ?thesis by (simp add: node_inv_def)
  qed (use i in \<open>simp add: node_inv_def\<close>)
qed

lemma StoreEvent_inv:
  assumes m: "mongo_laws (dp_mongo D) (dp_lib D) docs" and a: "A api" and i: "node_inv good recorded D docs n"
    and s: "StoreEvent D api req n = Ok (err, n')"
  shows "node_inv good recorded D docs n'"
proof -
  obtain found w1 where g1: "api_GetIdentity api (sr_Principal req) (nd_client n) = (found, w1)" by fastforce
  obtain fetched w2 where g2: "api_GetEventByTx api (sr_TxHash req) w1 = (fetched, w2)" by fastforce
  have w1: "good w1" using identity_good [OF a _ g1] i by (simp add: node_inv_def)
  have w2: "good w2" using event_good [OF a w1 g2] .
  have w: "node_inv good recorded D docs (n\<lparr>nd_client := w1\<rparr>)" "node_inv good recorded D docs (n\<lparr>nd_client := w2\<rparr>)"
    using i w1 w2 by (simp_all add: node_inv_def)
  consider "n' = n\<lparr>nd_client := w1\<rparr>" | "n' = n\<lparr>nd_client := w2\<rparr>"
    | event where "fetched = Ok event"
      "store_fetched D req (EventData_Hash (dp_lib D) (sr_EventData req)) event (n\<lparr>nd_client := w2\<rparr>) = Ok (err, n')"
    using s g1 g2 by (auto simp: StoreEvent_def Let_def split: res.split_asm if_split_asm)
  then show ?thesis
  proof cases
    case 3
    with store_fetched_inv [OF m event_recorded [OF a w1] w(2) 3(2)] g2 show ?thesis by simp
  qed (use w in simp_all)
qed

lemma backfill_event_inv:
  assumes m: "mongo_laws (dp_mongo D) (dp_lib D) docs" and a: "A api" and i: "node_inv good recorded D docs n"
    and s: "backfill_event D api ev n = Ok (goes_on, n')"
  shows "node_inv good recorded D docs n'"
proof -
  obtain fetched w where g: "api_GetEventByTx api (bd_TxHash ev) (nd_client n) = (fetched, w)" by fastforce
  have w: "good w" using event_good [OF a _ g] i by (simp add: node_inv_def)
  consider "nd_repo n' = nd_repo n" "nd_client n' = w"
    | tx where "fetched = Ok tx" "repo_Store (dp_mongo D) (full_event tx (bd_EventData ev) (bd_TxHash ev)) (nd_repo n) = Ok (nd_repo n')"
      "nd_client n' = w" "OffChainHash (em_ScrubbedEvent tx) = hex_EncodeToString (EventData_Hash (dp_lib D) (bd_EventData ev))"
    using s g by (auto simp: backfill_event_def Let_def split: res.split_asm if_split_asm)
  then show ?thesis
  proof cases
    case 2
    have "recorded tx" using event_recorded [OF a _ g [unfolded 2(1)]] i by (simp add: node_inv_def)
    with repo_Store_docs [OF m 2(2)] genuine_full_event [of recorded tx] 2(3,4) i w show ?thesis by (simp add: node_inv_def)
  qed (use i w in \<open>simp add: node_inv_def\<close>)
qed

lemma node_step_inv:
  assumes m: "mongo_laws (dp_mongo D) (dp_lib D) docs" and s: "node_step D A n n'" and i: "node_inv good recorded D docs n"
  shows "node_inv good recorded D docs n'"
  using s
proof cases
  case (submit api sending body r)
  then consider "n' = n" | req err n1 where "StoreEvent D api req n = Ok (err, n1)" "nd_repo n' = nd_repo n1" "nd_client n' = nd_client n1"
    by (auto simp: HandleSubmit_def Let_def split: res.split_asm option.split_asm)
  then show ?thesis using StoreEvent_inv [OF m submit(1) i] i by cases (auto simp: node_inv_def)
next
  case (message api source msg handler)
  from message(2) show ?thesis
  proof (cases rule: HandleMessage_cases)
    case (broadcast r)
    then obtain err where "StoreEvent D api r n = Ok (err, n')" using message(3) by (auto simp: BroadcastHandler_def)
    then show ?thesis by (rule StoreEvent_inv [OF m message(1) i])
  next
    case (request r)
    then show ?thesis using message(3) i by (auto simp: EventRequestHandler_def node_inv_def Let_def split: if_split_asm res.split_asm)
  next
    case (response r)
    then show ?thesis using message(3) i by (auto simp: BackfillResponseHandler_def node_inv_def)
  qed
next
  case (backfill api j ev evs goes_on n1)
  have "node_inv good recorded D docs (n\<lparr>nd_pending := (nd_pending n)[j := evs]\<rparr>)" using i by (simp add: node_inv_def)
  from backfill_event_inv [OF m backfill(2) this backfill(6)] backfill(1) show ?thesis by (simp add: node_inv_def)
next
  case (scan now policy c)
  then show ?thesis using DropExpiredEvents_docs [OF m scan(2)] i by (auto simp: node_inv_def)
qed

lemma node_run_inv:
  assumes "mongo_laws (dp_mongo D) (dp_lib D) docs" "node_run D A n n'" "node_inv good recorded D docs n"
  shows "node_inv good recorded D docs n'"
  using assms(2,3) unfolding node_run_def by (induction) (blast intro: node_step_inv [OF assms(1)])+

end

subsection \<open>Reading the chain through the round-robin client\<close>

definition rr_api :: "'c rpc_client \<Rightarrow> ics23 \<Rightarrow> extlib \<Rightarrow> ('c \<Rightarrow> bool) \<Rightarrow> ('c \<Rightarrow> int) \<Rightarrow> 'c RoundRobinClient chain_api" where
  "rr_api R ics lib test clock = \<lparr>api_GetIdentity = GetIdentity R ics test clock, api_GetEventByTx = GetEventByTx R ics lib test clock\<rparr>"

definition pool_within :: "'c set \<Rightarrow> 'c RoundRobinClient \<Rightarrow> bool" where
  "pool_within K c \<longleftrightarrow> set_mset (pool_mset (cl_pool c)) \<subseteq> K"

text \<open>\<open>V\<close> is the content of the events tree; a node answers from a tree whose content is part of it.\<close>

definition recorded_in :: "extlib \<Rightarrow> (bytes \<rightharpoonup> json) \<Rightarrow> EventWithMetadata \<Rightarrow> bool" where
  "recorded_in lib V e \<longleftrightarrow> (\<exists>k j. V k = Some j \<and> EventWithMetadata_of_json lib j = Ok e)"

definition rr_access :: "('t, 'd) env \<Rightarrow> ('t \<Rightarrow> bytes \<rightharpoonup> json) \<Rightarrow> ('t \<Rightarrow> bytes \<rightharpoonup> json) \<Rightarrow> ('t \<Rightarrow> int) \<Rightarrow> (bytes \<rightharpoonup> json) \<Rightarrow> 'c set
    \<Rightarrow> 'c RoundRobinClient chain_api \<Rightarrow> bool" where
  "rr_access E view saved latest V K api \<longleftrightarrow> iavl_laws (en_T E) view saved latest \<and> uuid_laws (en_lib E)
     \<and> (\<exists>R test clock app. api = rr_api R (en_ics E) (en_lib E) test clock \<and> (\<forall>conn \<in> K. answers_as E app R conn)
       \<and> view (ea_tree (mx_events app)) \<subseteq>\<^sub>m V)"

lemma with_conn_within:
  assumes "with_conn test clock f c = (r, c')" "pool_within K c"
  shows "pool_within K c'" "r = Ok x \<Longrightarrow> \<exists>conn \<in> K. f conn = Ok x"
proof -
  obtain q p' where g: "pool_Get test clock (cl_pool c) = (q, p')" by fastforce
  note props = pool_Get_props [of test clock "cl_pool c", unfolded g]
  have c': "r = bind_res q f" "c' = c\<lparr>cl_pool := p'\<rparr>" using assms(1) g by (simp_all add: with_conn_def)
  have k: "set_mset (pool_mset p') \<subseteq> K" using props assms(2) by (simp add: pool_within_def)
  then show "pool_within K c'" by (simp add: pool_within_def c'(2))
  assume "r = Ok x"
  then obtain conn where "q = Ok conn" "f conn = Ok x" using c'(1) by auto
  moreover have "conn \<in> set (p_conns p')" using calculation(1) props by simp
  then have "conn \<in> K" using k by (auto simp: pool_mset_def)
  ultimately show "\<exists>conn \<in> K. f conn = Ok x" by blast
qed

lemma match_event_path_Some: "match_event_path (''/event-by-id/'' @ t) = Some m \<Longrightarrow> m = t"
  by (auto simp: match_event_path_def Let_def split: if_split_asm)

lemma events_Query_found:
  assumes laws: "iavl_laws T view saved latest" and u: "uuid_laws lib"
    and q: "events_Query T ics lib a \<lparr>rqq_Data = d, rqq_Path = ''/event-by-id/'' @ TxHash_String i, rqq_Height = h, rqq_Prove = b\<rparr> = Ok r"
    and c: "rq_Code r = 0" and e: "json_Unmarshal (EventWithMetadata_of_json lib) (rq_Value r) = Ok e"
  shows "\<exists>j. view (ea_tree a) i = Some j \<and> EventWithMetadata_of_json lib j = Ok e"
proof -
  let ?path = "''/event-by-id/'' @ TxHash_String i"
  have n: "?path \<noteq> ''/count''" by simp
  obtain m where m: "match_event_path ?path = Some m"
    using q n c by (auto simp: events_Query_def q_error_def IntoQueryResponse_def NewErrorResponse_def CodeInvalidQueryPath_def split: option.split_asm)
  have hex: "hex_DecodeString m = Ok i" using match_event_path_Some [OF m] by (simp add: TxHash_String_def)
  obtain ev where ev: "ev_GetWithProof T ics lib (ea_tree a) i = Ok ev"
    using q n m hex c by (auto simp: events_Query_def on_err_def q_error_def IntoQueryResponse_def NewErrorResponse_def CodeEventNotFound_def
        events_CodeTreeUninitialized_def events_CodeUnknownError_def split: res.split_asm if_split_asm)
  obtain e0 where e0: "it_Item ev = Some e0" "rq_Value r = Some (EventWithMetadata_json lib e0)"
    using q n m hex c ev by (auto simp: events_Query_def Let_def CodeEventNotFound_def split: option.split_asm)
  obtain index j where j: "iv_GetWithIndex T (ea_tree a) i = Ok (index, Some j)" "EventWithMetadata_of_json lib j = Ok e0"
    using ev e0(1) by (auto simp: ev_GetWithProof_def split: option.split_asm)
  have "e = e0" using e e0(2) EventWithMetadata_json_roundtrip [OF u EventWithMetadata_of_json_wf [OF u j(2)]] by (simp add: json_Unmarshal_def)
  moreover have "view (ea_tree a) i = Some j" using iavl_lawsD(2) [OF laws j(1)] by simp
  ultimately show ?thesis using j(2) by blast
qed

lemma event_by_id_recorded:
  assumes laws: "iavl_laws (en_T E) view saved latest" and u: "uuid_laws (en_lib E)" and a: "answers_as E app R conn"
    and e: "event_by_id R (en_ics E) (en_lib E) i conn = Ok e"
  shows "recorded_in (en_lib E) (view (ea_tree (mx_events app))) e"
proof -
  let ?req = "MuxedRequest_json \<lparr>mx_App = events_AppName, mx_Data = None\<rparr>"
  obtain res where res: "rc_ABCIQuery R conn (''/event-by-id/'' @ TxHash_String i) (Some ?req) 0 True = Ok res" "rq_Code res = 0"
      "json_Unmarshal (EventWithMetadata_of_json (en_lib E)) (rq_Value res) = Ok e"
    using e by (auto simp: event_by_id_def ABCIQueryOptions_def Let_def split: if_split_asm)
  have "lookup_app events_AppName = Some Events" by (simp add: lookup_app_def events_AppName_def identity_AppName_def)
  then have "events_Query (en_T E) (en_ics E) (en_lib E) (mx_events app)
      \<lparr>rqq_Data = Some ?req, rqq_Path = ''/event-by-id/'' @ TxHash_String i, rqq_Height = 0, rqq_Prove = True\<rparr> = Ok res"
    using res(1) a by (simp add: answers_as_def mux_Query_def events_query_decoded)
  from events_Query_found [OF laws u this res(2,3)] show ?thesis unfolding recorded_in_def by blast
qed

lemma recorded_in_mono: "recorded_in lib V e \<Longrightarrow> V \<subseteq>\<^sub>m W \<Longrightarrow> recorded_in lib W e"
  unfolding recorded_in_def map_le_def by (metis domI)

lemma GetEventByTx_within:
  assumes "GetEventByTx R ics lib test clock t c = (r, c')" "pool_within K c"
  shows "pool_within K c'" "r = Ok e \<Longrightarrow> \<exists>i. \<exists>conn \<in> K. event_by_id R ics lib i conn = Ok e"
proof -
  obtain m c1 where 1: "with_conn test clock (metadata_by_tx R lib t) c = (m, c1)" by fastforce
  have k: "pool_within K c1" using with_conn_within(1) [OF 1 assms(2)] .
  show "pool_within K c'" using assms(1) 1 k with_conn_within(1) [OF _ k]
    by (auto simp: GetEventByTx_def GetEventMetadataByTx_def client_GetEventById_def split: res.split_asm)
  assume "r = Ok e"
  then obtain md where "m = Ok md" "with_conn test clock (event_by_id R ics lib (md_EventId md)) c1 = (Ok e, c')"
    using assms(1) 1 by (auto simp: GetEventByTx_def GetEventMetadataByTx_def client_GetEventById_def split: res.split_asm)
  from with_conn_within(2) [OF this(2) k] show "\<exists>i. \<exists>conn \<in> K. event_by_id R ics lib i conn = Ok e" by blast
qed

lemma rr_accessE:
  assumes "rr_access E view saved latest V K api"
  obtains R test clock app where "api = rr_api R (en_ics E) (en_lib E) test clock" "\<forall>conn \<in> K. answers_as E app R conn"
    "view (ea_tree (mx_events app)) \<subseteq>\<^sub>m V" "iavl_laws (en_T E) view saved latest" "uuid_laws (en_lib E)"
  using assms by (auto simp: rr_access_def)

lemma rr_access_within:
  assumes "rr_access E view saved latest V K api" "pool_within K w"
  shows "api_GetIdentity api p w = (r, w') \<Longrightarrow> pool_within K w'" "api_GetEventByTx api t w = (r', w') \<Longrightarrow> pool_within K w'"
  using assms(1) with_conn_within(1) [OF _ assms(2)] GetEventByTx_within(1) [OF _ assms(2)]
  by (auto elim!: rr_accessE simp: rr_api_def GetIdentity_def)

lemma rr_access_recorded:
  assumes a: "rr_access E view saved latest V K api" and k: "pool_within K w" and g: "api_GetEventByTx api t w = (Ok e, w')"
  shows "recorded_in (en_lib E) V e"
  using a
proof (rule rr_accessE)
  fix R test clock app
  assume api: "api = rr_api R (en_ics E) (en_lib E) test clock" and ans: "\<forall>conn \<in> K. answers_as E app R conn"
    and V: "view (ea_tree (mx_events app)) \<subseteq>\<^sub>m V" and laws: "iavl_laws (en_T E) view saved latest" "uuid_laws (en_lib E)"
  have g': "GetEventByTx R (en_ics E) (en_lib E) test clock t w = (Ok e, w')" using g by (simp add: api rr_api_def)
  obtain i conn where c: "conn \<in> K" "event_by_id R (en_ics E) (en_lib E) i conn = Ok e"
    using GetEventByTx_within(2) [OF g' k refl] by blast
  have "recorded_in (en_lib E) (view (ea_tree (mx_events app))) e" using laws bspec [OF ans c(1)] c(2) by (rule event_by_id_recorded)
  then show "recorded_in (en_lib E) V e" using V by (rule recorded_in_mono)
qed

interpretation rr: chain_reader "rr_access E view saved latest V K" "pool_within K" "recorded_in (en_lib E) V"
  by unfold_locales (erule (2) rr_access_within(1), erule (2) rr_access_within(2), erule (2) rr_access_recorded)

subsection \<open>Properties\<close>

text \<open>The answers of nodes that have executed a beginning of the chain \<open>bs\<close>.\<close>

definition chain_access :: "('t, 'd) env \<Rightarrow> RequestFinalizeBlock list \<Rightarrow> ('t, 'd) MultiplexedApplication \<Rightarrow> 'c set
    \<Rightarrow> 'c RoundRobinClient chain_api \<Rightarrow> bool" where
  "chain_access E bs app0 K api \<longleftrightarrow> (\<exists>R test clock as cs app. bs = as @ cs \<and> run_chain E as app0 = Ok app
     \<and> (\<forall>conn \<in> K. answers_as E app R conn) \<and> api = rr_api R (en_ics E) (en_lib E) test clock)"

lemma run_chain_append: "run_chain E (as @ cs) app = bind_res (run_chain E as app) (run_chain E cs)"
  by (induction as arbitrary: app) (auto simp: bind_res_def split: res.split)

lemma run_chain_grows:
  assumes "iavl_laws (en_T E) view saved latest" "genesis view saved latest app0"
    and "heights_from 0 (as @ cs)" "inj_on (sha256 (en_lib E)) (chain_texts (en_lib E) (as @ cs))"
    and "run_chain E as app0 = Ok app1" "run_chain E cs app1 = Ok app2"
  shows "view (ea_tree (mx_events app1)) \<subseteq>\<^sub>m view (ea_tree (mx_events app2))"
proof -
  let ?S = "chain_texts (en_lib E) (as @ cs)" and ?h = "if as = [] then 0 else fr_Height (last as)"
  note g = genesis_inv [OF assms(1,4,2)]
  have h: "heights_from 0 as" "heights_from ?h cs" using assms(3) by (simp_all add: heights_from_append)
  have t: "chain_texts (en_lib E) as \<subseteq> ?S" "chain_texts (en_lib E) cs \<subseteq> ?S" by (auto simp: chain_texts_def)
  have "chain_inv E view saved latest ?S ?h app1" using run_chain_inv [OF g(1) h(1) t(1) assms(5)] by simp
  from run_chain_inv [OF this h(2) t(2) assms(6)] show ?thesis by (simp add: mux_preserved_def)
qed

lemma chain_access_rr:
  assumes "iavl_laws (en_T E) view saved latest" "genesis view saved latest app0" "uuid_laws (en_lib E)"
    and "heights_from 0 bs" "inj_on (sha256 (en_lib E)) (chain_texts (en_lib E) bs)" "run_chain E bs app0 = Ok app"
    and "chain_access E bs app0 K api"
  shows "rr_access E view saved latest (view (ea_tree (mx_events app))) K api"
proof -
  obtain R test clock as cs app1 where bs: "bs = as @ cs" and r: "run_chain E as app0 = Ok app1"
      and a: "\<forall>conn \<in> K. answers_as E app1 R conn" "api = rr_api R (en_ics E) (en_lib E) test clock"
    using assms(7) by (auto simp: chain_access_def)
  have "run_chain E cs app1 = Ok app" using assms(6) r by (simp add: bs run_chain_append)
  from run_chain_grows [OF assms(1,2) _ _ r this] assms(4,5) have "view (ea_tree (mx_events app1)) \<subseteq>\<^sub>m view (ea_tree (mx_events app))"
    by (simp add: bs)
  with assms(1,3) a show ?thesis unfolding rr_access_def by blast
qed

lemma node_step_mono: "node_step D A n n' \<Longrightarrow> (\<And>api. A api \<Longrightarrow> B api) \<Longrightarrow> node_step D B n n'"
  by (induction rule: node_step.induct) (blast intro: node_step.intros)+

lemma node_run_mono:
  assumes "node_run D A n n'" "\<And>api. A api \<Longrightarrow> B api"
  shows "node_run D B n n'"
  using assms(1) unfolding node_run_def
  by (induction) (auto intro: rtranclp.rtrancl_into_rtrancl node_step_mono [OF _ assms(2)])

text \<open>An entry of the events tree decodes to an event that a transaction of the chain carries, validly signed.\<close>

lemma recorded_authentic:
  assumes "iavl_laws (en_T E) view saved latest" "genesis view saved latest app0" "uuid_laws (en_lib E)"
    and "heights_from 0 bs" "inj_on (sha256 (en_lib E)) (chain_texts (en_lib E) bs)" "run_chain E bs app0 = Ok app"
    and "recorded_in (en_lib E) (view (ea_tree (mx_events app))) e"
  shows "authentic (en_lib E) view (ia_tree (mx_identity app)) (\<Union>b \<in> set bs. set (fr_Txs b)) e"
proof -
  note g = genesis_inv [OF assms(1,5,2)]
  obtain k j where j: "view (ea_tree (mx_events app)) k = Some j" "EventWithMetadata_of_json (en_lib E) j = Ok e"
    using assms(7) by (auto simp: recorded_in_def)
  obtain e0 where e0: "j = EventWithMetadata_json (en_lib E) e0"
      "authentic (en_lib E) view (ia_tree (mx_identity app)) (\<Union>b \<in> set bs. set (fr_Txs b)) e0"
    using run_chain_auth [OF g(1) assms(4) subset_refl assms(6) g(2)] j(1) by (auto simp: auth_inv_def)
  have "Event_wf (sc_Event (em_ScrubbedEvent e0))"
    using e0(2) CreateRequest_of_json_wf [OF assms(3)] by (auto simp: authentic_def json_Unmarshal_def split: option.split_asm)
  with EventWithMetadata_json_roundtrip [OF assms(3)] j(2) e0 show ?thesis by simp
qed

text \<open>
  C1. Every event in an off-chain store is genuine. Take a node that starts with an empty store and
  reads the chain through the round-robin client over connections to nodes that have executed some
  beginning of the chain, a different one at each step. Whatever is submitted to it or sent by other
  nodes, in whatever order, and however the retention scans interleave: each stored event is an event
  that a transaction of the chain carries with a signature valid under the key registered for the
  event's principal, with the metadata recorded on the chain, and its data hashes to the hash
  recorded on the chain.
\<close>

theorem offchain_events_genuine:
  assumes "iavl_laws (en_T E) view saved latest" "genesis view saved latest app0" "uuid_laws (en_lib E)"
    and "heights_from 0 bs" "inj_on (sha256 (en_lib E)) (chain_texts (en_lib E) bs)" "run_chain E bs app0 = Ok app"
    and "dp_lib D = en_lib E" "mongo_laws (dp_mongo D) (dp_lib D) docs"
    and "docs (nd_repo n) = []" "pool_within K (nd_client n)" "node_run D (chain_access E bs app0 K) n n'"
    and "d \<in> set (docs (nd_repo n'))"
  shows "\<exists>e :: EventWithMetadata. authentic (en_lib E) view (ia_tree (mx_identity app)) (\<Union>b \<in> set bs. set (fr_Txs b)) e
    \<and> st_Metadata d = em_Metadata e \<and> ed_Event (st_EventWithData d) = sc_Event (em_ScrubbedEvent e)
    \<and> OffChainHash (em_ScrubbedEvent e) = hex_EncodeToString (EventData_Hash (en_lib E) (ed_EventData (st_EventWithData d)))"
proof -
  let ?V = "view (ea_tree (mx_events app))"
  have "node_run D (rr_access E view saved latest ?V K) n n'"
    using node_run_mono [OF assms(11) chain_access_rr [OF assms(1-6)]] .
  moreover have "node_inv (pool_within K) (recorded_in (en_lib E) ?V) D docs n" using assms(9,10) by (simp add: node_inv_def)
  ultimately have "node_inv (pool_within K) (recorded_in (en_lib E) ?V) D docs n'" by (rule rr.node_run_inv [OF assms(8)])
  then have "genuine (recorded_in (en_lib E) ?V) (dp_lib D) d" using assms(12) by (simp add: node_inv_def)
  then obtain e where e: "recorded_in (en_lib E) ?V e" "d = full_event e (ed_EventData (st_EventWithData d)) (st_TxHash d)"
      "OffChainHash (em_ScrubbedEvent e) = hex_EncodeToString (EventData_Hash (en_lib E) (ed_EventData (st_EventWithData d)))"
    unfolding genuine_def assms(7) by blast
  have "st_Metadata d = em_Metadata e" "ed_Event (st_EventWithData d) = sc_Event (em_ScrubbedEvent e)"
    using e(2) by (metis StoredEvent.select_convs(1,2) EventWithData.select_convs(1) full_event_def)+
  with recorded_authentic [OF assms(1-6) e(1)] e(3) show ?thesis by blast
qed

lemma RemoveMissingEvent_Ok:
  assumes laws: "lv_laws L content" "lv_total L"
  obtains db' where "RemoveMissingEvent L eid db = Ok db'"
proof -
  have "is_ok (remove_tx L eid t)" for t
  proof -
    obtain v where v: "lv_Get L t (keyPrefixMissingEventsIndex @ eid) = Ok v" using lv_totalD(1) [OF laws(2)] by blast
    obtain t1 where t1: "lv_Delete L t (keyPrefixMissingEventsIndex @ eid) = Ok t1" using lv_totalD(3) [OF laws(2)] by blast
    obtain t2 where "lv_Delete L t1 (keyPrefixMissingEvents @ the v) = Ok t2" using lv_totalD(3) [OF laws(2)] by blast
    with v t1 show ?thesis by (cases v) (simp_all add: remove_tx_def)
  qed
  then have "is_ok (withTransaction L (remove_tx L eid) db)" using withTransaction_Ok [OF laws, of db "remove_tx L eid"] by blast
  then show ?thesis using that by (auto simp: RemoveMissingEvent_def is_ok_iff)
qed

lemma backfill_event_stores:
  assumes r: "api_GetEventByTx api (bd_TxHash ev) (nd_client n) = (Ok e, w)" "md_EventId (em_Metadata e) = bd_EventId ev"
      "OffChainHash (em_ScrubbedEvent e) = hex_EncodeToString (EventData_Hash (dp_lib D) (bd_EventData ev))"
    and m: "mongo_laws (dp_mongo D) (dp_lib D) docs" "is_ok (mg_InsertOne (dp_mongo D) (nd_repo n) (full_event e (bd_EventData ev) (bd_TxHash ev)))"
    and l: "lv_laws (dp_leveldb D) content" "lv_total (dp_leveldb D)" "store_inv tlib (content (nd_state n))"
  shows "\<exists>n'. backfill_event D api ev n = Ok (True, n') \<and> bd_EventId ev \<in> doc_id ` set (docs (nd_repo n')) \<and> missing tlib (content (nd_state n')) (bd_EventId ev) = None"
proof -
  let ?f = "full_event e (bd_EventData ev) (bd_TxHash ev)"
  obtain db where db: "RemoveMissingEvent (dp_leveldb D) (bd_EventId ev) (nd_state n) = Ok db" using RemoveMissingEvent_Ok [OF l(1,2)] by blast
  have gone: "missing tlib (content db) (bd_EventId ev) = None" using RemoveMissingEvent_spec [OF l(1,3) db] by simp
  have id: "doc_id ?f = bd_EventId ev" using r(2) by (simp add: full_event_def doc_id_def)
  obtain ins c where c: "mg_InsertOne (dp_mongo D) (nd_repo n) ?f = Ok (ins, c)" using m(2) by (auto simp: is_ok_iff)
  show ?thesis
  proof (cases ins)
    case True
    then have "bd_EventId ev \<in> doc_id ` set (docs c)" using mongo_lawsD(2) [OF m(1)] c id by force
    with True c r db gone show ?thesis by (simp add: backfill_event_def repo_Store_def Let_def)
  next
    case False
    then have "bd_EventId ev \<in> doc_id ` set (docs (nd_repo n))" using mongo_lawsD(1) [OF m(1)] c id by force
    with False c r db gone show ?thesis by (simp add: backfill_event_def repo_Store_def Let_def)
  qed
qed


lemma StoreEvent_frame:
  assumes "StoreEvent D api req n = Ok (err, n')"
  shows "nd_alive n' = nd_alive n" "nd_pending n' = nd_pending n"
  using assms by (auto simp: StoreEvent_def store_fetched_def Let_def split: prod.split_asm res.split_asm if_split_asm)

text \<open>Once the loop has ended, nothing takes what the handlers want to hand over.\<close>

lemma dead_loop_step:
  assumes "node_step D A n n'" "\<not> nd_alive n"
  shows "\<not> nd_alive n' \<and> (\<exists>more. nd_pending n' = nd_pending n @ more)"
  using assms(1)
proof cases
  case (submit api sending body r)
  then consider "n' = n" | req err n1 where "StoreEvent D api req n = Ok (err, n1)" "nd_alive n' = nd_alive n1" "nd_pending n' = nd_pending n1"
    by (auto simp: HandleSubmit_def Let_def split: res.split_asm option.split_asm)
  then show ?thesis using assms(2) StoreEvent_frame by cases force+
next
  case (message api source msg handler)
  from message(2) show ?thesis
  proof (cases rule: HandleMessage_cases)
    case (broadcast r)
    then obtain err where "StoreEvent D api r n = Ok (err, n')" using message(3) by (auto simp: BroadcastHandler_def)
    with StoreEvent_frame [OF this] assms(2) show ?thesis by simp
  qed (use message(3) assms(2) in \<open>auto simp: EventRequestHandler_def BackfillResponseHandler_def Let_def split: if_split_asm res.split_asm\<close>)
qed (use assms(2) in auto)

lemma dead_loop_run:
  assumes "node_run D A n n'" "\<not> nd_alive n"
  shows "\<not> nd_alive n' \<and> (\<exists>more. nd_pending n' = nd_pending n @ more)"
  using assms unfolding node_run_def
proof induction
  case (step y z)
  with dead_loop_step [OF step(2)] show ?case by auto
qed simp

text \<open>
  A single false answer ends the backfill of a node: when the loop takes an event whose data does not
  have the hash recorded on the chain, the loop returns, and from then on no answer of any node is
  processed, whatever happens.
\<close>

lemma false_answer_ends_backfill:
  assumes "api_GetEventByTx api (bd_TxHash ev) (nd_client n) = (Ok e, w)" "A api"
    and "OffChainHash (em_ScrubbedEvent e) \<noteq> hex_EncodeToString (EventData_Hash (dp_lib D) (bd_EventData ev))"
    and "nd_alive n" "j < length (nd_pending n)" "nd_pending n ! j = ev # evs"
  shows "\<exists>n1. node_step D A n n1 \<and> (\<forall>n2. node_run D A n1 n2 \<longrightarrow> \<not> nd_alive n2 \<and> (\<exists>more. nd_pending n2 = nd_pending n1 @ more))"
proof -
  let ?n = "n\<lparr>nd_pending := (nd_pending n)[j := evs]\<rparr>"
  have "backfill_event D api ev ?n = Ok (False, ?n\<lparr>nd_client := w\<rparr>)" using assms(1,3) by (simp add: backfill_event_def Let_def)
  from node_step.backfill [where A = A, OF assms(2,4-6) this] show ?thesis
    using dead_loop_run by (intro exI [of _ "?n\<lparr>nd_client := w, nd_alive := False\<rparr>"]) fastforce
qed

subsection \<open>A node on a small chain\<close>

definition demo_final :: "(mem_tree, (bytes \<times> json) list) MultiplexedApplication" where
  "demo_final = (case run_chain demo_env demo_chain demo_mux of Ok app \<Rightarrow> app | _ \<Rightarrow> demo_mux)"

definition demo_data :: EventData where "demo_data = [\<lparr>dt_Name = Some [CHR 0x00], dt_Value = None\<rparr>]"

definition demo_id :: EventHash where "demo_id = PutUint64 2 @ replicate 24 0"

definition demo_final_rpc :: "string rpc_client" where
  "demo_final_rpc = \<lparr>rc_Tx = \<lambda>_ _. TxFound (Some (JObj [(''metadata'', Metadata_json \<lparr>md_EventId = demo_id, ReceivedTime = 20, md_Principal = ''root''\<rparr>)])),
     rc_ABCIQuery = \<lambda>_ path d h pw. mux_Query demo_env \<lparr>rqq_Data = d, rqq_Path = path, rqq_Height = h, rqq_Prove = pw\<rparr> demo_final,
     rc_TxSearch = \<lambda>_ _ _ _. Ok ([], 0)\<rparr>"

definition demo_api :: "string RoundRobinClient chain_api" where
  "demo_api = rr_api demo_final_rpc (en_ics demo_env) (en_lib demo_env) (\<lambda>_. True) (\<lambda>_. 7)"

definition demo_deps :: "(StoredEvent list, (bytes \<times> bytes) list) deps" where
  "demo_deps = \<lparr>dp_lib = en_lib demo_env, dp_mongo = mem_mongo (en_lib demo_env), dp_leveldb = mem_leveldb, dp_NodeName = ''a'', dp_viewer = True\<rparr>"

definition demo_offchain :: "(string RoundRobinClient, StoredEvent list, (bytes \<times> bytes) list) node" where
  "demo_offchain = \<lparr>nd_client = demo_client 1, nd_repo = [], nd_state = [], nd_viewer = [], nd_sent = [], nd_pending = [], nd_alive = True\<rparr>"

definition demo_submit :: SubmitRequest where
  "demo_submit = \<lparr>sr_EventId = demo_id, sr_TxHash = [9], sr_EventData = demo_data, sr_Principal = ''root'',
     sr_Signature = hex_EncodeToString (replicate 32 3 @ [0])\<rparr>"

lemma demo_submit_eval:
  "(case HandleSubmit demo_deps demo_api (Ok ()) (Some (SubmitRequest_json demo_submit)) demo_offchain of
      Ok (r, n) \<Rightarrow> map (\<lambda>d. ed_EventData (st_EventWithData d)) (nd_repo n) = [demo_data] | _ \<Rightarrow> False)"
  by code_simp

lemma demo_final_run: "run_chain demo_env demo_chain demo_mux = Ok demo_final"
  using demo_chain_run by (auto simp: demo_final_def split: res.split)

lemma demo_access: "chain_access demo_env demo_chain demo_mux {''node1''} demo_api"
proof -
  have "answers_as demo_env demo_final demo_final_rpc conn" for conn by (simp add: answers_as_def demo_final_rpc_def)
  with demo_final_run show ?thesis unfolding chain_access_def demo_api_def by (metis append_Nil2)
qed

lemma demo_deps_laws: "mongo_laws (dp_mongo demo_deps) (dp_lib demo_deps) (\<lambda>c. c)"
  using mem_mongo_laws by (simp add: demo_deps_def)

theorem offchain_events_genuine_witness:
  "\<exists>n' d. node_run demo_deps (chain_access demo_env demo_chain demo_mux {''node1''}) demo_offchain n' \<and> d \<in> set (nd_repo n')
    \<and> (\<exists>e :: EventWithMetadata. authentic (en_lib demo_env) mem_view (ia_tree (mx_identity demo_final)) (\<Union>b \<in> set demo_chain. set (fr_Txs b)) e
      \<and> st_Metadata d = em_Metadata e \<and> ed_Event (st_EventWithData d) = sc_Event (em_ScrubbedEvent e)
      \<and> OffChainHash (em_ScrubbedEvent e) = hex_EncodeToString (EventData_Hash (en_lib demo_env) (ed_EventData (st_EventWithData d))))"
proof -
  obtain r n' d where n': "HandleSubmit demo_deps demo_api (Ok ()) (Some (SubmitRequest_json demo_submit)) demo_offchain = Ok (r, n')" "nd_repo n' = [d]"
    using demo_submit_eval by (auto simp: map_eq_Cons_conv split: res.split_asm)
  have u: "uuid_laws (en_lib demo_env)" using demo_lib_uuid_laws by (simp add: uuid_laws_def demo_env_def)
  have k: "pool_within {''node1''} (nd_client demo_offchain)"
    by (simp add: pool_within_def demo_offchain_def pool_mset_def demo_client_def NewRoundRobinClient_def NewPool_def pool_Add_def)
  let ?A = "chain_access demo_env demo_chain demo_mux {''node1''}"
  have run: "node_run demo_deps ?A demo_offchain n'"
    unfolding node_run_def using node_step.submit [where D = demo_deps and A = ?A, OF demo_access n'(1)] by (rule r_into_rtranclp)
  have "d \<in> set (nd_repo n')" "dp_lib demo_deps = en_lib demo_env" "nd_repo demo_offchain = []"
    by (simp_all add: n'(2) demo_deps_def demo_offchain_def)
  with offchain_events_genuine [OF demo_laws demo_genesis u demo_heights demo_chain_inj demo_final_run _ demo_deps_laws _ k run, of d] run
  show ?thesis by blast
qed

lemma demo_read:
  obtains e w where "api_GetEventByTx demo_api [9] (nd_client demo_offchain) = (Ok e, w)" "md_EventId (em_Metadata e) = demo_id"
    "OffChainHash (em_ScrubbedEvent e) = ''00''"
proof -
  have "(case api_GetEventByTx demo_api [9] (nd_client demo_offchain) of (Ok e, w) \<Rightarrow> md_EventId (em_Metadata e) = demo_id
      \<and> OffChainHash (em_ScrubbedEvent e) = ''00'' | _ \<Rightarrow> False)"
    by code_simp
  then show ?thesis using that by (auto split: prod.split_asm res.split_asm)
qed

lemma demo_data_hash:
  "hex_EncodeToString (EventData_Hash (dp_lib demo_deps) demo_data) = ''00''" "hex_EncodeToString (EventData_Hash (dp_lib demo_deps) []) = []"
  by code_simp+

definition demo_holder :: "EventWithMetadata \<Rightarrow> (string RoundRobinClient, StoredEvent list, (bytes \<times> bytes) list) node" where
  "demo_holder e = demo_offchain\<lparr>nd_repo := [full_event e demo_data [9]]\<rparr>"


end
