(* ===== verification/Search.thy ===== *)
theory Search
  imports OffchainNode
begin

section \<open>Event search (pkg/repository/filter.go, mongodb/event.go, viewer/searchevents.go)\<close>

text \<open>
  The viewer selects events in two ways: a search asks MongoDB with a query built from the filters
  (\<open>buildFilter\<close>), a stream evaluates the filters on each new event (\<open>Filter_Matches\<close>). Both are
  modelled, with the date format they parse, and related: what a stream shows, a search finds. MongoDB
  is a parameter; \<open>query_holds\<close> is the documented meaning of the query, with the case-insensitive
  collation of the code as a relation \<open>eqc\<close>.
\<close>

subsection \<open>time.Parse with the layout 2006-01-02T15:04\<close>

text \<open>\<open>getnum\<close> reads two digits, or one if \<open>fixed\<close> does not hold.\<close>

definition getnum :: "bool \<Rightarrow> string \<Rightarrow> (int \<times> string) option" where
  "getnum fixed s = (case s of
     [] \<Rightarrow> None
   | [a] \<Rightarrow> if is_digit a \<and> \<not> fixed then Some (int (digit_val a), []) else None
   | a # b # rest \<Rightarrow>
       if \<not> is_digit a then None
       else if is_digit b then Some (10 * int (digit_val a) + int (digit_val b), rest)
       else if fixed then None else Some (int (digit_val a), b # rest))"

definition expect :: "char \<Rightarrow> string \<Rightarrow> string option" where
  "expect c s = (case s of [] \<Rightarrow> None | x # rest \<Rightarrow> if x = c then Some rest else None)"

definition isLeap :: "int \<Rightarrow> bool" where
  "isLeap y \<longleftrightarrow> y mod 4 = 0 \<and> (y mod 100 \<noteq> 0 \<or> y mod 400 = 0)"

definition daysIn :: "int \<Rightarrow> int \<Rightarrow> int" where
  "daysIn m y = (if m = 2 then (if isLeap y then 29 else 28) else if m \<in> {4, 6, 9, 11} then 30 else 31)"

text \<open>Days since 1970-01-01 in the proleptic Gregorian calendar.\<close>

definition unix_days :: "int \<Rightarrow> int \<Rightarrow> int \<Rightarrow> int" where
  "unix_days y m d =
     (let y = (if m \<le> 2 then y - 1 else y); era = y div 400; yoe = y mod 400;
          doy = (153 * (if m > 2 then m - 3 else m + 9) + 2) div 5 + d - 1;
          doe = yoe * 365 + yoe div 4 - yoe div 100 + doy
      in era * 146097 + doe - 719468)"

definition parse_date_time :: "string \<Rightarrow> (int \<times> int \<times> int \<times> int \<times> int) option" where
  "parse_date_time s =
     (if length s < 4 \<or> \<not> list_all is_digit (take 4 s) then None
      else Option.bind (expect CHR ''-'' (drop 4 s)) (\<lambda>r. Option.bind (getnum True r) (\<lambda>(month, r).
       Option.bind (expect CHR ''-'' r) (\<lambda>r. Option.bind (getnum True r) (\<lambda>(day, r).
       Option.bind (expect CHR ''T'' r) (\<lambda>r. Option.bind (getnum False r) (\<lambda>(hour, r).
       Option.bind (expect CHR '':'' r) (\<lambda>r. Option.bind (getnum True r) (\<lambda>(minute, r).
         if r = [] then Some (int (digits_val (take 4 s)), month, day, hour, minute) else None)))))))))"

definition time_Parse :: "string \<Rightarrow> int res" where
  "time_Parse s = (case parse_date_time s of
     None \<Rightarrow> Err (OtherError ''cannot parse'')
   | Some (year, month, day, hour, minute) \<Rightarrow>
       if month < 1 \<or> 12 < month \<or> day < 1 \<or> daysIn month year < day \<or> 24 \<le> hour \<or> 60 \<le> minute
       then Err (OtherError ''out of range'')
       else Ok ((unix_days year month day * 1440 + hour * 60 + minute) * 60000000000))"

subsection \<open>filter.go\<close>

record SearchFilter =
  sf_Property :: string
  sf_Operator :: string
  sf_Value :: string

definition PropertyEventId :: string where "PropertyEventId = ''event_id''"
definition PropertyTxHash :: string where "PropertyTxHash = ''tx_hash''"
definition PropertyPrincipal :: string where "PropertyPrincipal = ''principal''"
definition PropertyEventType :: string where "PropertyEventType = ''event_type_id''"
definition PropertyTimestamp :: string where "PropertyTimestamp = ''timestamp''"
definition ProviderName :: string where "ProviderName = ''provider_name''"
definition PropertyProviderGuid :: string where "PropertyProviderGuid = ''provider_guid''"
definition PropertyCorrelation :: string where "PropertyCorrelation = ''correlation''"
definition PropertyChannel :: string where "PropertyChannel = ''channel''"
definition OperatorEqual :: string where "OperatorEqual = ''eq''"
definition OperatorAfter :: string where "OperatorAfter = ''after''"
definition OperatorBefore :: string where "OperatorBefore = ''before''"

lemmas search_names = PropertyEventId_def PropertyTxHash_def PropertyPrincipal_def PropertyEventType_def PropertyTimestamp_def
  ProviderName_def PropertyProviderGuid_def PropertyCorrelation_def PropertyChannel_def OperatorEqual_def OperatorAfter_def OperatorBefore_def

definition SearchFilter_of_json :: "json \<Rightarrow> SearchFilter res" where
  "SearchFilter_of_json j = bind_res (jfields j) (\<lambda>fs.
     bind_res (jstring ''property'' fs) (\<lambda>p.
     bind_res (jstring ''operator'' fs) (\<lambda>oper.
     bind_res (jstring ''value'' fs) (\<lambda>v. Ok \<lparr>sf_Property = p, sf_Operator = oper, sf_Value = v\<rparr>))))"

definition doc_system :: "StoredEvent \<Rightarrow> System" where
  "doc_system d = ev_System (ed_Event (st_EventWithData d))"

definition Filter_Matches :: "extlib \<Rightarrow> SearchFilter \<Rightarrow> StoredEvent \<Rightarrow> bool res" where
  "Filter_Matches lib f event =
     (let equal_only = (\<lambda>r. if sf_Operator f \<noteq> OperatorEqual then Err ErrInvalidFilter else r); sys = doc_system event
      in if sf_Property f = PropertyEventId then equal_only (Ok (sf_Value f = TxHash_String (doc_id event)))
         else if sf_Property f = PropertyTxHash then equal_only (Ok (sf_Value f = TxHash_String (st_TxHash event)))
         else if sf_Property f = PropertyPrincipal then equal_only (Ok (sf_Value f = doc_principal event))
         else if sf_Property f = PropertyEventType then equal_only (bind_res (Atoi (sf_Value f)) (\<lambda>eventType. Ok (eventType = sy_EventId sys)))
         else if sf_Property f = PropertyTimestamp then (case time_Parse (sf_Value f) of
             Ok timestamp \<Rightarrow>
               if sf_Operator f = OperatorAfter then Ok (ReceivedTime (st_Metadata event) > timestamp)
               else if sf_Operator f = OperatorBefore then Ok (ReceivedTime (st_Metadata event) < timestamp)
               else Err ErrInvalidFilter
           | _ \<Rightarrow> Err ErrInvalidFilter)
         else if sf_Property f = ProviderName then equal_only (Ok (case pr_Name (sy_Provider sys) of
             None \<Rightarrow> False | Some name \<Rightarrow> ToLower (sf_Value f) = ToLower name))
         else if sf_Property f = PropertyProviderGuid then equal_only (case uuid_Parse lib (sf_Value f) of
             Ok u \<Rightarrow> Ok (pr_Guid (sy_Provider sys) = Some u) | _ \<Rightarrow> Err ErrInvalidFilter)
         else if sf_Property f = PropertyCorrelation then equal_only (case uuid_Parse lib (sf_Value f) of
             Ok u \<Rightarrow> Ok (ActivityId (sy_Correlation sys) = Some u) | _ \<Rightarrow> Err ErrInvalidFilter)
         else if sf_Property f = PropertyChannel then equal_only (Ok (ToLower (sf_Value f) = ToLower (sy_Channel sys)))
         else Err ErrInvalidFilter)"

text \<open>streambroadcaster.go\<close>

fun filtersMatch :: "extlib \<Rightarrow> StoredEvent \<Rightarrow> SearchFilter list \<Rightarrow> bool res" where
  "filtersMatch lib event [] = Ok True"
| "filtersMatch lib event (f # fs) = bind_res (Filter_Matches lib f event) (\<lambda>matches.
     if \<not> matches then Ok False else filtersMatch lib event fs)"

subsection \<open>buildFilter\<close>

text \<open>
  The query document: a field for each key the code sets, and a later filter on the same key overwrites
  an earlier one. The bounds on the time of receipt are in milliseconds; \<open>qu_first\<close> is an object
  identifier.
\<close>

record 'o query =
  qu_first :: "'o option"
  qu_event_id :: "EventHash option"
  qu_tx_hash :: "TxHash option"
  qu_principal :: "string option"
  qu_event_type :: "int option"
  qu_before :: "int option"
  qu_after :: "int option"
  qu_provider_name :: "string option"
  qu_provider_guid :: "Guid option"
  qu_correlation :: "Guid option"
  qu_channel :: "string option"

definition empty_query :: "'o query" where
  "empty_query = \<lparr>qu_first = None, qu_event_id = None, qu_tx_hash = None, qu_principal = None, qu_event_type = None, qu_before = None,
     qu_after = None, qu_provider_name = None, qu_provider_guid = None, qu_correlation = None, qu_channel = None\<rparr>"

definition parsed :: "'a res \<Rightarrow> ('a \<Rightarrow> 'o query) \<Rightarrow> 'o query res" where
  "parsed r upd = (case r of Ok v \<Rightarrow> Ok (upd v) | Err e \<Rightarrow> Err ErrInvalidFilter | Panic \<Rightarrow> Panic)"

definition add_filter :: "extlib \<Rightarrow> SearchFilter \<Rightarrow> 'o query \<Rightarrow> 'o query res" where
  "add_filter lib f q =
     (let equal_only = (\<lambda>r. if sf_Operator f \<noteq> OperatorEqual then Err ErrInvalidFilter else r); v = sf_Value f
      in if sf_Property f = PropertyEventId then equal_only (parsed (hex_DecodeString v) (\<lambda>i. q\<lparr>qu_event_id := Some i\<rparr>))
         else if sf_Property f = PropertyTxHash then equal_only (parsed (hex_DecodeString v) (\<lambda>t. q\<lparr>qu_tx_hash := Some t\<rparr>))
         else if sf_Property f = PropertyPrincipal then equal_only (Ok (q\<lparr>qu_principal := Some v\<rparr>))
         else if sf_Property f = PropertyEventType then equal_only (parsed (Atoi v) (\<lambda>i. q\<lparr>qu_event_type := Some i\<rparr>))
         else if sf_Property f = PropertyTimestamp then (case time_Parse v of
             Ok timestamp \<Rightarrow>
               if sf_Operator f = OperatorBefore then Ok (q\<lparr>qu_before := Some (DateTime timestamp)\<rparr>)
               else if sf_Operator f = OperatorAfter then Ok (q\<lparr>qu_after := Some (DateTime timestamp)\<rparr>)
               else Err ErrInvalidFilter
           | _ \<Rightarrow> Err ErrInvalidFilter)
         else if sf_Property f = ProviderName then equal_only (Ok (q\<lparr>qu_provider_name := Some v\<rparr>))
         else if sf_Property f = PropertyProviderGuid then equal_only (parsed (uuid_Parse lib v) (\<lambda>u. q\<lparr>qu_provider_guid := Some u\<rparr>))
         else if sf_Property f = PropertyCorrelation then equal_only (parsed (uuid_Parse lib v) (\<lambda>u. q\<lparr>qu_correlation := Some u\<rparr>))
         else if sf_Property f = PropertyChannel then equal_only (Ok (q\<lparr>qu_channel := Some v\<rparr>))
         else Ok q)"

fun add_filters :: "extlib \<Rightarrow> SearchFilter list \<Rightarrow> 'o query \<Rightarrow> 'o query res" where
  "add_filters lib [] q = Ok q"
| "add_filters lib (f # fs) q = bind_res (add_filter lib f q) (add_filters lib fs)"

definition buildFilter :: "extlib \<Rightarrow> SearchFilter list \<Rightarrow> 'o option \<Rightarrow> 'o query res" where
  "buildFilter lib filters first = add_filters lib filters (empty_query\<lparr>qu_first := first\<rparr>)"

subsection \<open>SearchEvents and its handler\<close>

text \<open>\<open>find_id\<close> looks up the object identifier of an event, \<open>find_all\<close> runs a query, sorted, with limit and skip.\<close>

record ('c, 'o) search_db =
  sd_FindId :: "'c \<Rightarrow> EventHash \<Rightarrow> 'o option res"
  sd_Find :: "'c \<Rightarrow> 'o query \<Rightarrow> int \<Rightarrow> int \<Rightarrow> StoredEvent list res"

definition repo_SearchEvents :: "('c, 'o) search_db \<Rightarrow> extlib \<Rightarrow> SearchFilter list \<Rightarrow> int \<Rightarrow> int \<Rightarrow> EventHash option \<Rightarrow> 'c \<Rightarrow> StoredEvent list res" where
  "repo_SearchEvents S lib filters limit page first c =
     bind_res (case first of None \<Rightarrow> Ok None | Some i \<Rightarrow> sd_FindId S c i) (\<lambda>firstObjectId.
     bind_res (buildFilter lib filters firstObjectId) (\<lambda>q. sd_Find S c q limit (wrap64 (page * limit))))"

definition searchRequestBody_of_json :: "json \<Rightarrow> SearchFilter list res" where
  "searchRequestBody_of_json j = bind_res (jfields j) (jarray SearchFilter_of_json ''filters'')"

definition search_page :: "string option \<Rightarrow> int" where
  "search_page pageStr = (case pageStr of None \<Rightarrow> 0 | Some s \<Rightarrow> (case Atoi s of Ok pageNum \<Rightarrow> wrap64 (pageNum - 1) | _ \<Rightarrow> 0))"

definition searchEventsHandler :: "('c, 'o) search_db \<Rightarrow> extlib \<Rightarrow> int \<Rightarrow> json option \<Rightarrow> string option \<Rightarrow> string option \<Rightarrow> 'c
    \<Rightarrow> StoredEvent list reply res" where
  "searchEventsHandler S lib SearchPageLimit body first pageStr c =
     on_err (json_Unmarshal searchRequestBody_of_json body) (\<lambda>_. Ok (ErrorReply 400 ''invalid request body'')) (\<lambda>filters.
     on_err (case first of None \<Rightarrow> Ok None | Some i \<Rightarrow> map_res Some (hex_DecodeString i))
       (\<lambda>_. Ok (ErrorReply 400 (''invalid '' @ [CHR 0x27] @ ''first'' @ [CHR 0x27] @ '' query parameter''))) (\<lambda>firstEventId.
     on_err (repo_SearchEvents S lib filters SearchPageLimit (search_page pageStr) firstEventId c)
       (\<lambda>e. if e = ErrInvalidFilter then Ok (ErrorReply 400 (err_Error e)) else Ok (ErrorReply 500 ''failed to search events''))
       (\<lambda>results. Ok (Reply 200 results))))"

subsection \<open>What a stream shows, a search finds\<close>

text \<open>The documented meaning of a query, on the stored form of an event.\<close>

definition query_holds :: "extlib \<Rightarrow> (string \<Rightarrow> string \<Rightarrow> bool) \<Rightarrow> 'o query \<Rightarrow> StoredEvent \<Rightarrow> bool" where
  "query_holds lib eqc q d \<longleftrightarrow>
     pred_option (\<lambda>i. eqc (hex_EncodeToString i) (hex_EncodeToString (doc_id d))) (qu_event_id q)
     \<and> pred_option (\<lambda>t. eqc (hex_EncodeToString t) (hex_EncodeToString (st_TxHash d))) (qu_tx_hash q)
     \<and> pred_option (\<lambda>p. eqc p (doc_principal d)) (qu_principal q)
     \<and> pred_option (\<lambda>i. i = doc_type d) (qu_event_type q)
     \<and> pred_option (\<lambda>t. doc_time d < t) (qu_before q)
     \<and> pred_option (\<lambda>t. t < doc_time d) (qu_after q)
     \<and> pred_option (\<lambda>v. \<exists>n. pr_Name (sy_Provider (doc_system d)) = Some n \<and> eqc v n) (qu_provider_name q)
     \<and> pred_option (\<lambda>u. \<exists>g. pr_Guid (sy_Provider (doc_system d)) = Some g \<and> eqc (Guid_MarshalXML lib u) (Guid_MarshalXML lib g)) (qu_provider_guid q)
     \<and> pred_option (\<lambda>u. \<exists>g. ActivityId (sy_Correlation (doc_system d)) = Some g \<and> eqc (Guid_MarshalXML lib u) (Guid_MarshalXML lib g)) (qu_correlation q)
     \<and> pred_option (\<lambda>v. eqc v (sy_Channel (doc_system d))) (qu_channel q)"

definition coll_laws :: "(string \<Rightarrow> string \<Rightarrow> bool) \<Rightarrow> bool" where
  "coll_laws eqc \<longleftrightarrow> (\<forall>a b. ToLower a = ToLower b \<longrightarrow> eqc a b)"

lemma coll_refl: "coll_laws eqc \<Longrightarrow> eqc a a"
  by (simp add: coll_laws_def)

lemma time_Parse_minutes: "time_Parse s = Ok t \<Longrightarrow> 60000000000 dvd t"
  by (auto simp: time_Parse_def split: option.split_asm if_split_asm)

lemma DateTime_less_iff:
  assumes "1000000 dvd a" "1000000 dvd b"
  shows "DateTime a < DateTime b \<longleftrightarrow> a < b"
  using assms by (auto simp: DateTime_def elim!: dvdE)

lemma minute_millis: "60000000000 dvd t \<Longrightarrow> 1000000 dvd (t :: int)"
  by (rule dvd_trans [of _ 60000000000]) simp_all

lemma filter_added:
  assumes m: "Filter_Matches lib f d = Ok True" and q: "query_holds lib eqc q d"
    and c: "coll_laws eqc" and t: "1000000 dvd ReceivedTime (st_Metadata d)"
  shows "\<exists>q'. add_filter lib f q = Ok q' \<and> query_holds lib eqc q' d"
proof -
  have time: "ts < ReceivedTime (st_Metadata d) \<longleftrightarrow> DateTime ts < doc_time d" "ReceivedTime (st_Metadata d) < ts \<longleftrightarrow> doc_time d < DateTime ts"
    if "time_Parse (sf_Value f) = Ok ts" for ts
    using DateTime_less_iff [OF _ t] DateTime_less_iff [OF t] minute_millis [OF time_Parse_minutes [OF that]] by (simp_all add: doc_time_def)
  consider "sf_Property f = PropertyEventId" | "sf_Property f = PropertyTxHash" | "sf_Property f = PropertyPrincipal" | "sf_Property f = PropertyEventType"
    | "sf_Property f = PropertyTimestamp" | "sf_Property f = ProviderName" | "sf_Property f = PropertyProviderGuid"
    | "sf_Property f = PropertyCorrelation" | "sf_Property f = PropertyChannel"
    using m by (auto simp: Filter_Matches_def Let_def split: if_split_asm)
  then show ?thesis
  proof cases
    case 5
    then show ?thesis using m q time
      by (auto simp: Filter_Matches_def add_filter_def query_holds_def search_names Let_def split: res.split_asm if_split_asm)
  qed (use m q c in \<open>auto simp: Filter_Matches_def add_filter_def parsed_def query_holds_def search_names coll_laws_def TxHash_String_def doc_type_def
      doc_system_def Let_def split: res.split_asm option.split_asm if_split_asm\<close>)
qed

lemma filters_added:
  assumes "filtersMatch lib d fs = Ok True" "query_holds lib eqc q d" "coll_laws eqc" "1000000 dvd ReceivedTime (st_Metadata d)"
  shows "\<exists>q'. add_filters lib fs q = Ok q' \<and> query_holds lib eqc q' d"
  using assms(1,2)
proof (induction fs arbitrary: q)
  case (Cons f fs)
  from Cons.prems(1) have f: "Filter_Matches lib f d = Ok True" "filtersMatch lib d fs = Ok True" by (auto split: if_split_asm)
  obtain q1 where "add_filter lib f q = Ok q1" "query_holds lib eqc q1 d" using filter_added [OF f(1) Cons.prems(2) assms(3,4)] by blast
  with Cons.IH [OF f(2)] show ?case by auto
qed simp


definition demo_filters :: "SearchFilter list" where
  "demo_filters = [\<lparr>sf_Property = PropertyEventType, sf_Operator = OperatorEqual, sf_Value = ''4624''\<rparr>,
     \<lparr>sf_Property = PropertyTimestamp, sf_Operator = OperatorBefore, sf_Value = ''2024-02-29T12:30''\<rparr>]"


end
