(* ===== verification/Viewer.thy ===== *)
theory Viewer
  imports Search
begin

section \<open>The viewer server (internal/viewer, mongodb/challenge.go)\<close>

text \<open>
  Administrators read the stored events through the viewer. They prove who they are by signing a random
  challenge, get a JSON web token and show it with each request or on the event stream. Modelled are the
  challenge store, the three authentication handlers, the stream clients and the broadcaster, and the
  server as a transition system that records what it does. The challenge collection of MongoDB and the
  JWT library are parameters.
\<close>

subsection \<open>mongodb/challenge.go\<close>

record challengeRecord =
  cr_Principal :: Principal
  cr_Challenge :: bytes
  cr_Timestamp :: int

text \<open>The calls on the collection; \<open>ch_FindOneAndDelete\<close> gives \<open>None\<close> for \<^verbatim>\<open>ErrNoDocuments\<close>, \<open>'i\<close> are object identifiers.\<close>

record ('k, 'i) challenge_db =
  ch_InsertOne :: "challengeRecord \<Rightarrow> 'k \<Rightarrow> 'k res"
  ch_FindOneAndDelete :: "Principal \<Rightarrow> bytes \<Rightarrow> 'k \<Rightarrow> (challengeRecord option \<times> 'k) res"
  ch_FindBefore :: "int \<Rightarrow> 'k \<Rightarrow> ('i \<times> challengeRecord) list res"
  ch_DeleteMany :: "'i list \<Rightarrow> 'k \<Rightarrow> 'k res"

definition AddChallenge :: "('k, 'i) challenge_db \<Rightarrow> int \<Rightarrow> Principal \<Rightarrow> bytes \<Rightarrow> 'k \<Rightarrow> 'k res" where
  "AddChallenge C now who challenge k = ch_InsertOne C \<lparr>cr_Principal = who, cr_Challenge = challenge, cr_Timestamp = now\<rparr> k"

definition GetAndRemoveChallenge :: "('k, 'i) challenge_db \<Rightarrow> int \<Rightarrow> Principal \<Rightarrow> bytes \<Rightarrow> int \<Rightarrow> 'k \<Rightarrow> (bool \<times> 'k) res" where
  "GetAndRemoveChallenge C now who challenge challengeLifetime k =
     bind_res (ch_FindOneAndDelete C who challenge k) (\<lambda>(found, k). case found of
       None \<Rightarrow> Ok (False, k)
     | Some r \<Rightarrow> Ok (cr_Timestamp r > now + wrap64 (- challengeLifetime), k))"

definition DropExpiredChallenges :: "('k, 'i) challenge_db \<Rightarrow> int \<Rightarrow> int \<Rightarrow> 'k \<Rightarrow> 'k res" where
  "DropExpiredChallenges C now challengeLifetime k =
     bind_res (ch_FindBefore C (now + wrap64 (- challengeLifetime)) k) (\<lambda>results.
       let ids = map fst results in if length ids = 0 then Ok k else ch_DeleteMany C ids k)"

text \<open>Documented behaviour: a time is stored in milliseconds, and one document is found and deleted atomically.\<close>

definition challenge_laws :: "('k, 'i) challenge_db \<Rightarrow> ('k \<Rightarrow> challengeRecord multiset) \<Rightarrow> bool" where
  "challenge_laws C content \<longleftrightarrow>
     (\<forall>r k k'. ch_InsertOne C r k = Ok k' \<longrightarrow> content k' = add_mset (r\<lparr>cr_Timestamp := DateTime (cr_Timestamp r) * 1000000\<rparr>) (content k))
     \<and> (\<forall>who ch k r k'. ch_FindOneAndDelete C who ch k = Ok (Some r, k') \<longrightarrow>
          r \<in># content k \<and> cr_Principal r = who \<and> cr_Challenge r = ch \<and> content k' = content k - {#r#})
     \<and> (\<forall>who ch k k'. ch_FindOneAndDelete C who ch k = Ok (None, k') \<longrightarrow> content k' = content k)
     \<and> (\<forall>is k k'. ch_DeleteMany C is k = Ok k' \<longrightarrow> content k' \<subseteq># content k)"

lemma challenge_lawsD:
  assumes "challenge_laws C content"
  shows "ch_InsertOne C r k = Ok k' \<Longrightarrow> content k' = add_mset (r\<lparr>cr_Timestamp := DateTime (cr_Timestamp r) * 1000000\<rparr>) (content k)"
    and "ch_FindOneAndDelete C who ch k = Ok (Some r, k') \<Longrightarrow> r \<in># content k \<and> cr_Principal r = who \<and> cr_Challenge r = ch \<and> content k' = content k - {#r#}"
    and "ch_FindOneAndDelete C who ch k = Ok (None, k') \<Longrightarrow> content k' = content k"
    and "ch_DeleteMany C is k = Ok k' \<Longrightarrow> content k' \<subseteq># content k"
  using assms unfolding challenge_laws_def by blast+

subsection \<open>Tokens\<close>

record jwtlib =
  jw_Sign :: "string \<Rightarrow> string \<Rightarrow> int \<Rightarrow> string res"
  jw_Parse :: "string \<Rightarrow> string \<Rightarrow> string res"

text \<open>
  \<open>jw_Sign secret subject issued\<close> builds and signs a token with HS256, \<open>jw_Parse secret token\<close> verifies it and
  gives the subject.
\<close>

record ViewerServer =
  vs_JWTAlgorithm :: string
  vs_JWTSecret :: string
  vs_ChallengeLifetime :: int
  vs_SearchPageLimit :: int

definition HS256 :: string where "HS256 = ''HS256''"

definition to_upper_char :: "char \<Rightarrow> char" where
  "to_upper_char c = (let n = of_char c :: nat in if 97 \<le> n \<and> n \<le> 122 then char_of (n - 32) else c)"

definition ToUpper :: "string \<Rightarrow> string" where "ToUpper s = map to_upper_char s"

definition validateToken :: "ViewerServer \<Rightarrow> jwtlib \<Rightarrow> string \<Rightarrow> string option" where
  "validateToken cfg J bytes =
     (if ToUpper (vs_JWTAlgorithm cfg) \<noteq> HS256 then None
      else case jw_Parse J (vs_JWTSecret cfg) bytes of Ok subject \<Rightarrow> Some subject | _ \<Rightarrow> None)"

definition authenticate :: "ViewerServer \<Rightarrow> jwtlib \<Rightarrow> string \<Rightarrow> string reply" where
  "authenticate cfg J header =
     (if header = [] then ErrorReply 401 ''missing authorization header''
      else case validateToken cfg J header of
        None \<Rightarrow> ErrorReply 401 ''invalid token''
      | Some subject \<Rightarrow> Reply 200 subject)"

subsection \<open>challenge.go and challengeresponse.go\<close>

text \<open>The state: the blockchain client, the challenge collection and the stream clients. \<open>random\<close> is what \<^verbatim>\<open>rand.Read\<close> delivers.\<close>

record streamClient =
  sc_isAuthenticated :: bool
  sc_filters :: "SearchFilter list"
  sc_written :: "json list"
  sc_open :: bool

record ('w, 'k) viewer =
  vw_client :: 'w
  vw_challenges :: 'k
  vw_streams :: "streamClient list"

definition challengeHandler :: "('k, 'i) challenge_db \<Rightarrow> 'w chain_api \<Rightarrow> int \<Rightarrow> bytes res \<Rightarrow> json option \<Rightarrow> ('w, 'k) viewer
    \<Rightarrow> (bytes reply \<times> ('w, 'k) viewer) res" where
  "challengeHandler C api now random body v =
     on_err (json_Unmarshal (\<lambda>j. bind_res (jfields j) (jstring ''principal'')) body) (\<lambda>_. Ok (ErrorReply 400 ''invalid request body'', v)) (\<lambda>who.
     case api_GetIdentity api who (vw_client v) of (found, w) \<Rightarrow>
     (let v = v\<lparr>vw_client := w\<rparr> in
      on_err found
        (\<lambda>e. Ok (if e = ErrPrincipalNotFound then ErrorReply 404 ''principal not found'' else ErrorReply 500 ''failed to retrieve identity'', v))
        (\<lambda>ident.
          if \<not> IsAdmin ident then Ok (ErrorReply 401 ''principal is not an admin'', v)
          else on_err random (\<lambda>_. Ok (ErrorReply 500 ''failed to generate challenge'', v)) (\<lambda>challenge.
            on_err (AddChallenge C now who challenge (vw_challenges v)) (\<lambda>_. Ok (ErrorReply 500 ''failed to add challenge'', v)) (\<lambda>k.
              Ok (Reply 200 challenge, v\<lparr>vw_challenges := k\<rparr>))))))"

record challengeResponseRequestBody =
  cb_Principal :: Principal
  cb_Challenge :: bytes
  cb_Response :: bytes

definition challengeResponseRequestBody_of_json :: "json \<Rightarrow> challengeResponseRequestBody res" where
  "challengeResponseRequestBody_of_json j = bind_res (jfields j) (\<lambda>fs.
     bind_res (jstring ''principal'' fs) (\<lambda>p.
     bind_res (jbytes ''challenge'' fs) (\<lambda>c.
     bind_res (jbytes ''response'' fs) (\<lambda>r. Ok \<lparr>cb_Principal = p, cb_Challenge = c, cb_Response = r\<rparr>))))"

definition issue_token :: "ViewerServer \<Rightarrow> jwtlib \<Rightarrow> int \<Rightarrow> Principal \<Rightarrow> string reply res" where
  "issue_token cfg J now who =
     (if vs_JWTAlgorithm cfg = HS256
      then on_err (jw_Sign J (vs_JWTSecret cfg) who now) (\<lambda>_. Ok (ErrorReply 500 ''failed to sign token'')) (\<lambda>signed. Ok (Reply 200 signed))
      else Ok (ErrorReply 500 ''unsupported jwt algorithm''))"

definition challengeResponseHandler :: "ViewerServer \<Rightarrow> jwtlib \<Rightarrow> extlib \<Rightarrow> ('k, 'i) challenge_db \<Rightarrow> 'w chain_api \<Rightarrow> int \<Rightarrow> json option
    \<Rightarrow> ('w, 'k) viewer \<Rightarrow> (string reply \<times> ('w, 'k) viewer) res" where
  "challengeResponseHandler cfg J lib C api now body v =
     on_err (json_Unmarshal challengeResponseRequestBody_of_json body) (\<lambda>_. Ok (ErrorReply 400 ''invalid request body'', v)) (\<lambda>b.
     case api_GetIdentity api (cb_Principal b) (vw_client v) of (found, w) \<Rightarrow>
     (let v = v\<lparr>vw_client := w\<rparr> in
      on_err found (\<lambda>e. Ok (ErrorReply 500 ''failed to retrieve identity'', v)) (\<lambda>ident.
        if \<not> IsAdmin ident then Ok (ErrorReply 401 ''principal is not an admin'', v)
        else bind_res (ed25519_Verify lib (id_PublicKey ident) (cb_Challenge b) (cb_Response b)) (\<lambda>verified.
          if \<not> verified then Ok (ErrorReply 401 ''invalid private key'', v)
          else on_err (GetAndRemoveChallenge C now (cb_Principal b) (cb_Challenge b) (vs_ChallengeLifetime cfg) (vw_challenges v))
            (\<lambda>_. Ok (ErrorReply 500 ''failed to get and remove challengeHandler'', v))
            (\<lambda>(valid, k). let v = v\<lparr>vw_challenges := k\<rparr> in
              if \<not> valid then Ok (ErrorReply 401 ''invalid challenge response'', v)
              else map_res (\<lambda>r. (r, v)) (issue_token cfg J now (cb_Principal b)))))))"

subsection \<open>getevent.go\<close>

definition getEventHandler :: "'c mongo \<Rightarrow> string \<Rightarrow> 'c \<Rightarrow> StoredEvent reply res" where
  "getEventHandler G param c =
     on_err (hex_DecodeString param) (\<lambda>_. Ok (ErrorReply 404 ''invalid id'')) (\<lambda>i.
     on_err (repo_GetEventById G i c) (\<lambda>_. Ok (ErrorReply 500 ''failed to get event by id'')) (\<lambda>found. case found of
       None \<Rightarrow> Ok (ErrorReply 404 ''event not found'')
     | Some event \<Rightarrow> Ok (Reply 200 event)))"

subsection \<open>streamclient.go and streambroadcaster.go\<close>

definition newStreamClient :: streamClient where
  "newStreamClient = \<lparr>sc_isAuthenticated = False, sc_filters = [], sc_written = [], sc_open = True\<rparr>"

definition wsMessageTypeAuth :: string where "wsMessageTypeAuth = ''auth''"
definition wsMessageTypeSetFilters :: string where "wsMessageTypeSetFilters = ''subscribe''"
definition wsMessageTypeError :: string where "wsMessageTypeError = ''error''"
definition wsMessageTypeEvent :: string where "wsMessageTypeEvent = ''event''"

definition websocketMessage_json :: "string \<Rightarrow> json \<Rightarrow> json" where
  "websocketMessage_json ty payload = JObj [(''type'', JStr ty), (''data'', payload)]"

definition websocketMessage_of_json :: "json \<Rightarrow> (string \<times> json option) res" where
  "websocketMessage_of_json j = bind_res (jfields j) (\<lambda>fs. bind_res (jstring ''type'' fs) (\<lambda>t. Ok (t, jraw ''data'' fs)))"

definition WriteErrorAndClose :: "string \<Rightarrow> streamClient \<Rightarrow> streamClient" where
  "WriteErrorAndClose message c =
     c\<lparr>sc_written := sc_written c @ [websocketMessage_json wsMessageTypeError (JObj [(''message'', JStr message)])], sc_open := False\<rparr>"

definition handleAuth :: "ViewerServer \<Rightarrow> jwtlib \<Rightarrow> json option \<Rightarrow> streamClient \<Rightarrow> streamClient" where
  "handleAuth cfg J payload c = (case json_Unmarshal (\<lambda>j. bind_res (jfields j) (jstring ''token'')) payload of
     Ok token \<Rightarrow> (case validateToken cfg J token of
         None \<Rightarrow> WriteErrorAndClose ''invalid token'' c
       | Some _ \<Rightarrow> c\<lparr>sc_isAuthenticated := True\<rparr>)
   | _ \<Rightarrow> c)"

definition filter_list_of_json :: "json \<Rightarrow> SearchFilter list res" where
  "filter_list_of_json j = (case j of JNull \<Rightarrow> Ok [] | JArr js \<Rightarrow> map_res_list SearchFilter_of_json js
     | _ \<Rightarrow> Err (OtherError ''cannot unmarshal into slice''))"

definition handleSetFilters :: "json option \<Rightarrow> streamClient \<Rightarrow> streamClient" where
  "handleSetFilters payload c = (case json_Unmarshal filter_list_of_json payload of
     Ok filters \<Rightarrow> c\<lparr>sc_filters := filters\<rparr>
   | _ \<Rightarrow> c)"

definition stream_handleMessage :: "ViewerServer \<Rightarrow> jwtlib \<Rightarrow> json option \<Rightarrow> streamClient \<Rightarrow> streamClient" where
  "stream_handleMessage cfg J bytes c = (case json_Unmarshal websocketMessage_of_json bytes of
     Ok (ty, payload) \<Rightarrow>
       if ty = wsMessageTypeAuth then handleAuth cfg J payload c
       else if ty = wsMessageTypeSetFilters then handleSetFilters payload c
       else c
   | _ \<Rightarrow> c)"

text \<open>The broadcaster writes an event to a client that is authenticated and whose filters accept it; \<open>text\<close> is the marshalled event.\<close>

definition receives :: "extlib \<Rightarrow> StoredEvent \<Rightarrow> streamClient \<Rightarrow> bool" where
  "receives lib event c \<longleftrightarrow> sc_isAuthenticated c \<and> filtersMatch lib event (sc_filters c) = Ok True"

definition broadcast_event :: "extlib \<Rightarrow> StoredEvent \<Rightarrow> json \<Rightarrow> streamClient list \<Rightarrow> streamClient list" where
  "broadcast_event lib event text clients =
     (let payloadMarshalled = websocketMessage_json wsMessageTypeEvent text
      in map (\<lambda>c. if receives lib event c then c\<lparr>sc_written := sc_written c @ [payloadMarshalled]\<rparr> else c) clients)"

subsection \<open>The server as a transition system\<close>

text \<open>
  The trace records, newest first, the challenges handed out (with the time), the tokens issued, the
  authenticated requests with the principal the server takes for their sender, and the stream clients
  that get an event. \<open>A\<close> are the answers the chain may give. A token that a client shows and that the
  server accepts was issued by the server: nobody else knows the secret.
\<close>

datatype vevent =
    Challenged Principal bytes int
  | Issued Principal bytes string int
  | Shown Principal string
  | Streamed nat

definition issued :: "vevent list \<Rightarrow> string \<Rightarrow> bool" where
  "issued tr token \<longleftrightarrow> (\<exists>who ch t. Issued who ch token t \<in> set tr)"

definition message_token :: "json option \<Rightarrow> string option" where
  "message_token msg = (case json_Unmarshal websocketMessage_of_json msg of
     Ok (ty, payload) \<Rightarrow> (case json_Unmarshal (\<lambda>j. bind_res (jfields j) (jstring ''token'')) payload of Ok token \<Rightarrow> Some token | _ \<Rightarrow> None)
   | _ \<Rightarrow> None)"

inductive viewer_run :: "ViewerServer \<Rightarrow> jwtlib \<Rightarrow> extlib \<Rightarrow> ('k, 'i) challenge_db \<Rightarrow> ('w chain_api \<Rightarrow> bool) \<Rightarrow> ('w, 'k) viewer
    \<Rightarrow> vevent list \<Rightarrow> ('w, 'k) viewer \<Rightarrow> bool"
  for cfg :: ViewerServer and J :: jwtlib and lib :: extlib and C :: "('k, 'i) challenge_db" and A :: "'w chain_api \<Rightarrow> bool" and v0 :: "('w, 'k) viewer" where
  start: "viewer_run cfg J lib C A v0 [] v0"
| challenge: "viewer_run cfg J lib C A v0 tr v \<Longrightarrow> A api \<Longrightarrow> json_Unmarshal (\<lambda>j. bind_res (jfields j) (jstring ''principal'')) body = Ok who
    \<Longrightarrow> challengeHandler C api now random body v = Ok (Reply code ch, v') \<Longrightarrow> viewer_run cfg J lib C A v0 (Challenged who ch now # tr) v'"
| challenge_refused: "viewer_run cfg J lib C A v0 tr v \<Longrightarrow> A api \<Longrightarrow> challengeHandler C api now random body v = Ok (ErrorReply code msg, v')
    \<Longrightarrow> viewer_run cfg J lib C A v0 tr v'"
| response: "viewer_run cfg J lib C A v0 tr v \<Longrightarrow> A api \<Longrightarrow> json_Unmarshal challengeResponseRequestBody_of_json body = Ok b
    \<Longrightarrow> challengeResponseHandler cfg J lib C api now body v = Ok (Reply code token, v')
    \<Longrightarrow> viewer_run cfg J lib C A v0 (Issued (cb_Principal b) (cb_Challenge b) token now # tr) v'"
| response_refused: "viewer_run cfg J lib C A v0 tr v \<Longrightarrow> A api \<Longrightarrow> challengeResponseHandler cfg J lib C api now body v = Ok (ErrorReply code msg, v')
    \<Longrightarrow> viewer_run cfg J lib C A v0 tr v'"
| request: "viewer_run cfg J lib C A v0 tr v \<Longrightarrow> issued tr header \<Longrightarrow> authenticate cfg J header = Reply code subject
    \<Longrightarrow> viewer_run cfg J lib C A v0 (Shown subject header # tr) v"
| drop_expired: "viewer_run cfg J lib C A v0 tr v \<Longrightarrow> DropExpiredChallenges C now (vs_ChallengeLifetime cfg) (vw_challenges v) = Ok k
    \<Longrightarrow> viewer_run cfg J lib C A v0 tr (v\<lparr>vw_challenges := k\<rparr>)"
| connect: "viewer_run cfg J lib C A v0 tr v \<Longrightarrow> viewer_run cfg J lib C A v0 tr (v\<lparr>vw_streams := vw_streams v @ [newStreamClient]\<rparr>)"
| stream_message: "viewer_run cfg J lib C A v0 tr v \<Longrightarrow> i < length (vw_streams v)
    \<Longrightarrow> (\<And>token. message_token msg = Some token \<Longrightarrow> validateToken cfg J token \<noteq> None \<Longrightarrow> issued tr token)
    \<Longrightarrow> viewer_run cfg J lib C A v0 tr (v\<lparr>vw_streams := (vw_streams v)[i := stream_handleMessage cfg J msg (vw_streams v ! i)]\<rparr>)"
| event: "viewer_run cfg J lib C A v0 tr v
    \<Longrightarrow> viewer_run cfg J lib C A v0 (map Streamed (filter (\<lambda>i. receives lib d (vw_streams v ! i)) [0..<length (vw_streams v)]) @ tr)
          (v\<lparr>vw_streams := broadcast_event lib d text (vw_streams v)\<rparr>)"

text \<open>What the handlers do to the state.\<close>

lemma challengeHandler_Reply:
  assumes "challengeHandler C api now random body v = Ok (Reply code ch, v')" "json_Unmarshal (\<lambda>j. bind_res (jfields j) (jstring ''principal'')) body = Ok who"
  shows "AddChallenge C now who ch (vw_challenges v) = Ok (vw_challenges v')" "vw_streams v' = vw_streams v"
  using assms by (auto simp: challengeHandler_def Let_def on_err_eq_Ok split_beta split: if_split_asm)

lemma challengeHandler_ErrorReply:
  assumes "challengeHandler C api now random body v = Ok (ErrorReply code msg, v')"
  shows "vw_challenges v' = vw_challenges v" "vw_streams v' = vw_streams v"
  using assms by (auto simp: challengeHandler_def Let_def on_err_eq_Ok split_beta split: if_split_asm)

lemma challengeResponseHandler_Reply:
  assumes "challengeResponseHandler cfg J lib C api now body v = Ok (Reply code token, v')" "json_Unmarshal challengeResponseRequestBody_of_json body = Ok b"
  shows "GetAndRemoveChallenge C now (cb_Principal b) (cb_Challenge b) (vs_ChallengeLifetime cfg) (vw_challenges v) = Ok (True, vw_challenges v')"
    "vw_streams v' = vw_streams v" "jw_Sign J (vs_JWTSecret cfg) (cb_Principal b) now = Ok token"
    "\<exists>ident w. api_GetIdentity api (cb_Principal b) (vw_client v) = (Ok ident, w) \<and> IsAdmin ident
       \<and> ed25519_Verify lib (id_PublicKey ident) (cb_Challenge b) (cb_Response b) = Ok True"
proof -
  obtain found w where g: "api_GetIdentity api (cb_Principal b) (vw_client v) = (found, w)" by fastforce
  obtain ident where i: "found = Ok ident" "IsAdmin ident" "ed25519_Verify lib (id_PublicKey ident) (cb_Challenge b) (cb_Response b) = Ok True"
    using assms g by (auto simp: challengeResponseHandler_def Let_def on_err_eq_Ok split: if_split_asm)
  then show "\<exists>ident w. api_GetIdentity api (cb_Principal b) (vw_client v) = (Ok ident, w) \<and> IsAdmin ident
       \<and> ed25519_Verify lib (id_PublicKey ident) (cb_Challenge b) (cb_Response b) = Ok True"
    using g by blast
  show "GetAndRemoveChallenge C now (cb_Principal b) (cb_Challenge b) (vs_ChallengeLifetime cfg) (vw_challenges v) = Ok (True, vw_challenges v')"
      "vw_streams v' = vw_streams v" "jw_Sign J (vs_JWTSecret cfg) (cb_Principal b) now = Ok token"
    using assms g i by (auto simp: challengeResponseHandler_def issue_token_def Let_def on_err_eq_Ok split: if_split_asm)
qed

lemma challengeResponseHandler_ErrorReply:
  assumes "challengeResponseHandler cfg J lib C api now body v = Ok (ErrorReply code msg, v')"
  shows "vw_streams v' = vw_streams v" "vw_challenges v' = vw_challenges v
    \<or> (\<exists>who ch valid. GetAndRemoveChallenge C now who ch (vs_ChallengeLifetime cfg) (vw_challenges v) = Ok (valid, vw_challenges v'))"
  using assms by (auto simp: challengeResponseHandler_def Let_def on_err_eq_Ok split_beta split: if_split_asm)

subsection \<open>The invariant\<close>

text \<open>An administrator, as the chain says, has signed the challenge.\<close>

definition admin_answer :: "('w chain_api \<Rightarrow> bool) \<Rightarrow> extlib \<Rightarrow> Principal \<Rightarrow> bytes \<Rightarrow> bool" where
  "admin_answer A lib who ch \<longleftrightarrow> (\<exists>api w ident w' sig. A api \<and> api_GetIdentity api who w = (Ok ident, w') \<and> IsAdmin ident
     \<and> ed25519_Verify lib (id_PublicKey ident) ch sig = Ok True)"

definition stored_for :: "Principal \<Rightarrow> bytes \<Rightarrow> challengeRecord multiset \<Rightarrow> nat" where
  "stored_for who ch M = size {#r \<in># M. cr_Principal r = who \<and> cr_Challenge r = ch#}"

fun is_issued :: "Principal \<Rightarrow> bytes \<Rightarrow> vevent \<Rightarrow> bool" where
  "is_issued who ch (Issued p c _ _) = (p = who \<and> c = ch)"
| "is_issued who ch _ = False"

fun is_challenged :: "Principal \<Rightarrow> bytes \<Rightarrow> vevent \<Rightarrow> bool" where
  "is_challenged who ch (Challenged p c _) = (p = who \<and> c = ch)"
| "is_challenged who ch _ = False"

definition single_use :: "vevent list \<Rightarrow> challengeRecord multiset \<Rightarrow> bool" where
  "single_use tr M \<longleftrightarrow> (\<forall>who ch. length (filter (is_issued who ch) tr) + stored_for who ch M \<le> length (filter (is_challenged who ch) tr))"

definition fresh_in :: "int \<Rightarrow> vevent list \<Rightarrow> Principal \<Rightarrow> bytes \<Rightarrow> int \<Rightarrow> bool" where
  "fresh_in lifetime tr who ch t \<longleftrightarrow> (\<exists>t0. Challenged who ch t0 \<in> set tr \<and> t + wrap64 (- lifetime) < DateTime t0 * 1000000)"

definition viewer_inv :: "ViewerServer \<Rightarrow> jwtlib \<Rightarrow> extlib \<Rightarrow> ('w chain_api \<Rightarrow> bool) \<Rightarrow> ('k \<Rightarrow> challengeRecord multiset) \<Rightarrow> vevent list \<Rightarrow> ('w, 'k) viewer \<Rightarrow> bool" where
  "viewer_inv cfg J lib A content tr v \<longleftrightarrow>
     single_use tr (content (vw_challenges v))
     \<and> (\<forall>r \<in># content (vw_challenges v). \<exists>t0. Challenged (cr_Principal r) (cr_Challenge r) t0 \<in> set tr \<and> cr_Timestamp r = DateTime t0 * 1000000)
     \<and> (\<forall>who ch token t. Issued who ch token t \<in> set tr \<longrightarrow> jw_Sign J (vs_JWTSecret cfg) who t = Ok token \<and> admin_answer A lib who ch
          \<and> fresh_in (vs_ChallengeLifetime cfg) tr who ch t)
     \<and> (\<forall>who token. Shown who token \<in> set tr \<longrightarrow> (\<exists>ch t. Issued who ch token t \<in> set tr))
     \<and> ((\<exists>i. Streamed i \<in> set tr) \<or> list_ex sc_isAuthenticated (vw_streams v) \<longrightarrow> (\<exists>token. issued tr token))"

lemma fresh_in_mono:
  assumes "fresh_in l tr who ch t"
  shows "fresh_in l (e # tr) who ch t" "fresh_in l (es @ tr) who ch t"
  using assms by (auto simp: fresh_in_def)

lemma fresh_in_Shown [simp]: "fresh_in l (Shown a b # tr) who ch t = fresh_in l tr who ch t"
  by (simp add: fresh_in_def)

lemma single_use_remove:
  assumes "single_use tr M" "r \<in># M"
  shows "single_use (Issued (cr_Principal r) (cr_Challenge r) token t # tr) (M - {#r#})"
  unfolding single_use_def
proof (intro allI)
  fix who ch
  obtain N where M: "M = add_mset r N" using multi_member_split [OF assms(2)] by blast
  show "length (filter (is_issued who ch) (Issued (cr_Principal r) (cr_Challenge r) token t # tr)) + stored_for who ch (M - {#r#})
      \<le> length (filter (is_challenged who ch) (Issued (cr_Principal r) (cr_Challenge r) token t # tr))"
    using assms(1) by (auto simp: single_use_def stored_for_def M dest!: spec [of _ who] spec [of _ ch])
qed

lemma single_use_mono: "single_use tr M \<Longrightarrow> N \<subseteq># M \<Longrightarrow> single_use tr N"
  unfolding single_use_def stored_for_def by (meson add_left_mono le_trans multiset_filter_mono size_mset_mono)

lemma single_use_add:
  assumes "single_use tr M" "cr_Principal r = who" "cr_Challenge r = ch"
  shows "single_use (Challenged who ch t # tr) (add_mset r M)"
  using assms by (auto simp: single_use_def stored_for_def)

lemma single_use_other:
  assumes "single_use tr M" "\<And>who ch. filter (is_issued who ch) es = []"
  shows "single_use (es @ tr) M"
  using assms by (simp add: single_use_def trans_le_add2)

lemma GetAndRemove_content:
  assumes "challenge_laws C content" "GetAndRemoveChallenge C now who ch l k = Ok (valid, k')"
  shows "content k' \<subseteq># content k"
    and "valid \<Longrightarrow> \<exists>r. r \<in># content k \<and> cr_Principal r = who \<and> cr_Challenge r = ch \<and> content k' = content k - {#r#} \<and> cr_Timestamp r > now + wrap64 (- l)"
  using assms(2) challenge_lawsD(2,3) [OF assms(1)] by (fastforce simp: GetAndRemoveChallenge_def split: option.split_asm)+

lemma viewer_inv_shrink:
  assumes "viewer_inv cfg J lib A content tr v" "content (vw_challenges v') \<subseteq># content (vw_challenges v)" "vw_streams v' = vw_streams v"
  shows "viewer_inv cfg J lib A content tr v'"
  using assms single_use_mono [OF _ assms(2)] mset_subset_eqD [OF assms(2)] unfolding viewer_inv_def by metis

lemma inv_challenge:
  assumes l: "challenge_laws C content" and i: "viewer_inv cfg J lib A content tr v"
    and h: "AddChallenge C now who ch (vw_challenges v) = Ok (vw_challenges v')" "vw_streams v' = vw_streams v"
  shows "viewer_inv cfg J lib A content (Challenged who ch now # tr) v'"
proof -
  let ?r = "\<lparr>cr_Principal = who, cr_Challenge = ch, cr_Timestamp = DateTime now * 1000000\<rparr>"
  have c: "content (vw_challenges v') = add_mset ?r (content (vw_challenges v))"
    using challenge_lawsD(1) [OF l h(1) [unfolded AddChallenge_def]] by simp
  have "single_use (Challenged who ch now # tr) (add_mset ?r (content (vw_challenges v)))"
    using i by (intro single_use_add) (simp_all add: viewer_inv_def)
  then show ?thesis using i h(2) unfolding viewer_inv_def c
    by (auto simp: issued_def intro: fresh_in_mono)
qed

lemma inv_response:
  assumes l: "challenge_laws C content" and i: "viewer_inv cfg J lib A content tr v" and a: "A api"
    and b: "json_Unmarshal challengeResponseRequestBody_of_json body = Ok b"
    and h: "challengeResponseHandler cfg J lib C api now body v = Ok (Reply code token, v')"
  shows "viewer_inv cfg J lib A content (Issued (cb_Principal b) (cb_Challenge b) token now # tr) v'"
proof -
  note h = challengeResponseHandler_Reply [OF h b]
  obtain r where r: "r \<in># content (vw_challenges v)" "cr_Principal r = cb_Principal b" "cr_Challenge r = cb_Challenge b"
      "content (vw_challenges v') = content (vw_challenges v) - {#r#}" "cr_Timestamp r > now + wrap64 (- vs_ChallengeLifetime cfg)"
    using GetAndRemove_content(2) [OF l h(1)] by blast
  let ?tr = "Issued (cb_Principal b) (cb_Challenge b) token now # tr"
  have "single_use ?tr (content (vw_challenges v'))"
    using single_use_remove [of tr "content (vw_challenges v)" r token now] i r by (simp add: viewer_inv_def)
  moreover have "fresh_in (vs_ChallengeLifetime cfg) ?tr (cb_Principal b) (cb_Challenge b) now"
    using i r unfolding viewer_inv_def fresh_in_def by fastforce
  moreover have "admin_answer A lib (cb_Principal b) (cb_Challenge b)" using h(4) a unfolding admin_answer_def by blast
  moreover have "\<forall>x \<in># content (vw_challenges v'). x \<in># content (vw_challenges v)" using r(4) by (auto dest: in_diffD)
  moreover have "\<exists>ch t. Issued who ch shown t \<in> set ?tr" if "Shown who shown \<in> set ?tr" for who shown
    using i that unfolding viewer_inv_def by fastforce
  moreover have "issued ?tr token" by (auto simp: issued_def)
  ultimately show ?thesis using i h(2,3) unfolding viewer_inv_def
    by (intro conjI) (auto intro: fresh_in_mono)
qed

lemma stream_handleMessage_auth:
  assumes "sc_isAuthenticated (stream_handleMessage cfg J msg c)" "\<not> sc_isAuthenticated c"
  shows "\<exists>token. message_token msg = Some token \<and> validateToken cfg J token \<noteq> None"
  using assms by (auto simp: stream_handleMessage_def handleAuth_def handleSetFilters_def message_token_def WriteErrorAndClose_def
      split: res.split_asm if_split_asm option.split_asm)

lemma list_ex_update: "list_ex P (xs[i := x]) \<Longrightarrow> list_ex P xs \<or> P x"
  using set_update_subset_insert [of xs i x] unfolding list_ex_iff by blast

lemma inv_stream_message:
  assumes i: "viewer_inv cfg J lib A content tr v" and j: "j < length (vw_streams v)"
    and t: "\<And>token. message_token msg = Some token \<Longrightarrow> validateToken cfg J token \<noteq> None \<Longrightarrow> issued tr token"
  shows "viewer_inv cfg J lib A content tr (v\<lparr>vw_streams := (vw_streams v)[j := stream_handleMessage cfg J msg (vw_streams v ! j)]\<rparr>)"
proof -
  have "\<exists>token. issued tr token" if "list_ex sc_isAuthenticated ((vw_streams v)[j := stream_handleMessage cfg J msg (vw_streams v ! j)])"
  proof (cases "list_ex sc_isAuthenticated (vw_streams v)")
    case True
    then show ?thesis using i by (simp add: viewer_inv_def)
  next
    case False
    then have "sc_isAuthenticated (stream_handleMessage cfg J msg (vw_streams v ! j))" "\<not> sc_isAuthenticated (vw_streams v ! j)"
      using list_ex_update [OF that] j by (auto simp: list_ex_iff)
    from stream_handleMessage_auth [OF this] t show ?thesis by blast
  qed
  then show ?thesis using i by (auto simp: viewer_inv_def)
qed

lemma broadcast_auth: "list_ex sc_isAuthenticated (broadcast_event lib d text cs) = list_ex sc_isAuthenticated cs"
  unfolding broadcast_event_def Let_def by (induction cs) simp_all

lemma inv_event:
  assumes i: "viewer_inv cfg J lib A content tr v"
  shows "viewer_inv cfg J lib A content (map Streamed (filter (\<lambda>i. receives lib d (vw_streams v ! i)) [0..<length (vw_streams v)]) @ tr)
    (v\<lparr>vw_streams := broadcast_event lib d text (vw_streams v)\<rparr>)"
proof -
  let ?es = "map Streamed (filter (\<lambda>i. receives lib d (vw_streams v ! i)) [0..<length (vw_streams v)])"
  have "filter (is_issued who ch) ?es = []" for who ch by (auto simp: filter_empty_conv)
  then have s: "single_use (?es @ tr) (content (vw_challenges v))" using i by (intro single_use_other) (simp_all add: viewer_inv_def)
  have "list_ex sc_isAuthenticated (vw_streams v)" if "?es \<noteq> []"
    using that by (auto simp: filter_empty_conv receives_def list_ex_iff)
  moreover have "list_ex sc_isAuthenticated (broadcast_event lib d text (vw_streams v)) = list_ex sc_isAuthenticated (vw_streams v)"
    by (rule broadcast_auth)
  ultimately have "(\<exists>i. Streamed i \<in> set (?es @ tr)) \<or> list_ex sc_isAuthenticated (broadcast_event lib d text (vw_streams v)) \<longrightarrow> (\<exists>token. issued tr token)"
    using i unfolding viewer_inv_def by fastforce
  moreover have mem: "Issued w c k t \<in> set (?es @ tr) \<longleftrightarrow> Issued w c k t \<in> set tr" "Shown w k \<in> set (?es @ tr) \<longleftrightarrow> Shown w k \<in> set tr"
      "Challenged w c t \<in> set (?es @ tr) \<longleftrightarrow> Challenged w c t \<in> set tr" for w c k t by auto
  moreover have upd: "vw_challenges (v\<lparr>vw_streams := cs\<rparr>) = vw_challenges v" "vw_streams (v\<lparr>vw_streams := cs\<rparr>) = cs" for cs by simp_all
  ultimately show ?thesis using i s unfolding viewer_inv_def issued_def mem upd by (blast intro: fresh_in_mono(2))
qed

definition jwt_laws :: "jwtlib \<Rightarrow> bool" where
  "jwt_laws J \<longleftrightarrow> (\<forall>secret who t token. jw_Sign J secret who t = Ok token \<longrightarrow> jw_Parse J secret token = Ok who)"

lemma inv_request:
  assumes j: "jwt_laws J" and i: "viewer_inv cfg J lib A content tr v" and t: "issued tr header" and r: "authenticate cfg J header = Reply code subject"
  shows "viewer_inv cfg J lib A content (Shown subject header # tr) v"
proof -
  obtain who ch t0 where w: "Issued who ch header t0 \<in> set tr" using t by (auto simp: issued_def)
  then have "jw_Sign J (vs_JWTSecret cfg) who t0 = Ok header" using i unfolding viewer_inv_def by blast
  then have "jw_Parse J (vs_JWTSecret cfg) header = Ok who" using j unfolding jwt_laws_def by blast
  then have "who = subject" using r by (auto simp: authenticate_def validateToken_def split: if_split_asm)
  moreover have "single_use ([Shown subject header] @ tr) (content (vw_challenges v))" using i by (intro single_use_other) (simp_all add: viewer_inv_def)
  ultimately show ?thesis using i w unfolding viewer_inv_def issued_def by auto
qed

lemma viewer_run_inv:
  assumes "viewer_run cfg J lib C A v0 tr v" and l: "challenge_laws C content" "jwt_laws J"
    and z: "content (vw_challenges v0) = {#}" "vw_streams v0 = []"
  shows "viewer_inv cfg J lib A content tr v"
  using assms(1)
proof induction
  case start
  show ?case using z by (simp add: viewer_inv_def single_use_def stored_for_def)
next
  case (challenge tr v api body who now random code ch v')
  show ?case using inv_challenge [OF l(1) challenge(5) challengeHandler_Reply [OF challenge(4,3)]] .
next
  case (challenge_refused tr v api now random body code msg v')
  then show ?case using challengeHandler_ErrorReply [OF challenge_refused(3)] by (intro viewer_inv_shrink [OF challenge_refused(4)]) simp_all
next
  case (response tr v api body b now code token v')
  show ?case using inv_response [OF l(1) response(5,2,3,4)] .
next
  case (response_refused tr v api now body code msg v')
  have "content (vw_challenges v') \<subseteq># content (vw_challenges v)"
    using challengeResponseHandler_ErrorReply(2) [OF response_refused(3)] GetAndRemove_content(1) [OF l(1)] by auto
  then show ?case using challengeResponseHandler_ErrorReply(1) [OF response_refused(3)] by (rule viewer_inv_shrink [OF response_refused(4)])
next
  case (drop_expired tr v now k)
  have "content k \<subseteq># content (vw_challenges v)"
    using drop_expired(2) challenge_lawsD(4) [OF l(1)] by (auto simp: DropExpiredChallenges_def Let_def split: if_split_asm)
  then show ?case by (intro viewer_inv_shrink [OF drop_expired(3)]) simp_all
next
  case (connect tr v)
  then show ?case by (simp add: viewer_inv_def newStreamClient_def)
qed (blast intro: inv_request [OF l(2)] inv_stream_message inv_event)+


text \<open>
  C15. A challenge is good for one token: in every run, no more tokens are issued for a principal and a
  challenge than times that challenge was handed out to that principal.
\<close>

theorem challenge_single_use:
  assumes "viewer_run cfg J lib C A v0 tr v" "challenge_laws C content" "jwt_laws J" "content (vw_challenges v0) = {#}" "vw_streams v0 = []"
  shows "length (filter (is_issued who ch) tr) \<le> length (filter (is_challenged who ch) tr)"
  using viewer_run_inv [OF assms] unfolding viewer_inv_def single_use_def by (meson add_leD1)

subsection \<open>A small session\<close>

definition mem_challenges :: "(challengeRecord list, nat) challenge_db" where
  "mem_challenges = \<lparr>ch_InsertOne = \<lambda>r k. Ok (r\<lparr>cr_Timestamp := DateTime (cr_Timestamp r) * 1000000\<rparr> # k),
     ch_FindOneAndDelete = \<lambda>who ch k. Ok (case List.find (\<lambda>r. cr_Principal r = who \<and> cr_Challenge r = ch) k of
       None \<Rightarrow> (None, k) | Some r \<Rightarrow> (Some r, remove1 r k)),
     ch_FindBefore = \<lambda>t k. Ok (filter (\<lambda>(i, r). cr_Timestamp r < t) (zip [0..<length k] k)),
     ch_DeleteMany = \<lambda>is k. Ok (map snd (filter (\<lambda>(i, r). i \<notin> set is) (zip [0..<length k] k)))\<rparr>"

lemma mem_challenges_laws: "challenge_laws mem_challenges mset"
proof -
  have "mset (map snd (filter P (zip xs k))) \<subseteq># mset k" if "length xs = length k" for P and xs :: "nat list" and k :: "challengeRecord list"
  proof -
    have "image_mset snd (filter_mset P (mset (zip xs k))) \<subseteq># image_mset snd (mset (zip xs k))"
      by (intro image_mset_subseteq_mono multiset_filter_subset)
    also have "\<dots> = mset k" using that by (simp flip: mset_map)
    finally show ?thesis by (simp only: mset_map mset_filter)
  qed
  then show ?thesis
    by (auto simp: challenge_laws_def mem_challenges_def find_Some_iff split: option.split_asm)
qed

definition demo_jwt :: jwtlib where
  "demo_jwt = \<lparr>jw_Sign = \<lambda>secret who t. Ok (CHR ''t'' # who), jw_Parse = \<lambda>secret token. (case token of [] \<Rightarrow> Err EOF | _ # who \<Rightarrow> Ok who)\<rparr>"

definition demo_viewer_cfg :: ViewerServer where
  "demo_viewer_cfg = \<lparr>vs_JWTAlgorithm = HS256, vs_JWTSecret = ''s'', vs_ChallengeLifetime = 300000000000, vs_SearchPageLimit = 15\<rparr>"

definition demo_admin_api :: "unit chain_api" where
  "demo_admin_api = \<lparr>api_GetIdentity = \<lambda>p w. (Ok \<lparr>id_PublicKey = replicate 32 3, id_Role = RoleAdmin\<rparr>, w), api_GetEventByTx = \<lambda>t w. (Err EOF, w)\<rparr>"

definition demo_viewer :: "(unit, challengeRecord list) viewer" where
  "demo_viewer = \<lparr>vw_client = (), vw_challenges = [], vw_streams = []\<rparr>"

definition demo_trace :: "vevent list" where
  "demo_trace = [Shown ''root'' ''troot'', Issued ''root'' [7, 8] ''troot'' 9000000, Challenged ''root'' [7, 8] 5000000]"

lemma demo_session: "\<exists>v. viewer_run demo_viewer_cfg demo_jwt demo_lib mem_challenges ((=) demo_admin_api) demo_viewer demo_trace v"
proof -
  let ?who = "JObj [(''principal'', JStr ''root'')]"
  let ?answer = "JObj [(''principal'', JStr ''root''), (''challenge'', JBytes [7, 8]), (''response'', JBytes (replicate 32 3 @ [7, 8]))]"
  let ?run = "viewer_run demo_viewer_cfg demo_jwt demo_lib mem_challenges ((=) demo_admin_api) demo_viewer"
  obtain v1 where 1: "challengeHandler mem_challenges demo_admin_api 5000000 (Ok [7, 8]) (Some ?who) demo_viewer = Ok (Reply 200 [7, 8], v1)"
      "vw_challenges v1 = [\<lparr>cr_Principal = ''root'', cr_Challenge = [7, 8], cr_Timestamp = 5000000\<rparr>]"
    by (simp add: challengeHandler_def json_Unmarshal_def jstring_def demo_admin_api_def IsAdmin_def AddChallenge_def mem_challenges_def
        demo_viewer_def DateTime_def Let_def)
  have a: "json_Unmarshal challengeResponseRequestBody_of_json (Some ?answer)
      = Ok \<lparr>cb_Principal = ''root'', cb_Challenge = [7, 8], cb_Response = replicate 32 3 @ [7, 8]\<rparr>"
    by (simp add: json_Unmarshal_def challengeResponseRequestBody_of_json_def jstring_def jbytes_def ToLower_def to_lower_char_def)
  obtain v2 where 2: "challengeResponseHandler demo_viewer_cfg demo_jwt demo_lib mem_challenges demo_admin_api 9000000 (Some ?answer) v1 = Ok (Reply 200 ''troot'', v2)"
    using 1(2) by (simp add: challengeResponseHandler_def a demo_admin_api_def IsAdmin_def ed25519_Verify_def demo_lib_def GetAndRemoveChallenge_def
        mem_challenges_def demo_viewer_cfg_def issue_token_def demo_jwt_def wrap64_def Let_def)
  have "?run [Challenged ''root'' [7, 8] 5000000] v1"
    by (rule viewer_run.challenge [OF viewer_run.start refl _ 1(1)]) (simp add: json_Unmarshal_def jstring_def)
  from viewer_run.response [OF this refl a 2] have "?run (tl demo_trace) v2" by (simp add: demo_trace_def)
  then have "?run (Shown ''root'' ''troot'' # tl demo_trace) v2"
    by (rule viewer_run.request [where code = 200]) (auto simp: issued_def demo_trace_def authenticate_def validateToken_def demo_viewer_cfg_def
        demo_jwt_def HS256_def ToUpper_def to_upper_char_def)
  then show ?thesis by (auto simp: demo_trace_def)
qed


theorem challenge_single_use_witness:
  "length (filter (is_issued ''root'' [7, 8]) demo_trace) \<le> length (filter (is_challenged ''root'' [7, 8]) demo_trace)"
proof -
  obtain v where v: "viewer_run demo_viewer_cfg demo_jwt demo_lib mem_challenges ((=) demo_admin_api) demo_viewer demo_trace v" using demo_session ..
  have j: "jwt_laws demo_jwt" by (simp add: jwt_laws_def demo_jwt_def)
  show ?thesis by (rule challenge_single_use [OF v mem_challenges_laws j]) (simp_all add: demo_viewer_def)
qed

end
