(* ===== verification/Stream.thy ===== *)
theory Stream
  imports Viewer "HOL-Library.Sublist"
begin

section \<open>The event stream with its goroutines (internal/viewer)\<close>

text \<open>
  \<^verbatim>\<open>Viewer\<close> takes a broadcast as one step. Here the goroutines are modelled: the broadcaster, and a read
  loop and a write loop for each websocket. The broadcaster holds the lock of the client table for the
  whole round, and it hands a message to the write loop of a client over a channel without a buffer.
  Shown are the order of what a client receives, that a round with working clients does what \<^verbatim>\<open>Viewer\<close>
  says, and that a client whose write loop has ended stops the stream for everybody.
\<close>

subsection \<open>The state\<close>

text \<open>
  The read loop reads, waits until the write loop takes an error message, waits for the lock to
  unregister its client, or has ended. \<open>cn_writing\<close>: the write loop has not ended.
\<close>

datatype reader = Reading | Answering json | Leaving | Left

record connection =
  cn_client :: streamClient
  cn_reader :: reader
  cn_writing :: bool
  cn_registered :: bool

text \<open>
  The broadcaster waits for an event, goes through the clients of the table, waits until the write loop of
  a client takes the event, or has ended. \<open>sm_log\<close> are the messages of the events it took.
\<close>

datatype broadcaster = Waiting | Checking StoredEvent json "nat list" | Sending StoredEvent json nat "nat list" | Stopped

record stream_state =
  sm_conns :: "connection list"
  sm_broadcaster :: broadcaster
  sm_log :: "json list"

definition newStreamBroadcaster :: stream_state where
  "newStreamBroadcaster = \<lparr>sm_conns = [], sm_broadcaster = Waiting, sm_log = []\<rparr>"

definition locked :: "stream_state \<Rightarrow> bool" where
  "locked s = (case sm_broadcaster s of Checking _ _ _ \<Rightarrow> True | Sending _ _ _ _ \<Rightarrow> True | _ \<Rightarrow> False)"

definition on_conn :: "nat \<Rightarrow> (connection \<Rightarrow> connection) \<Rightarrow> stream_state \<Rightarrow> stream_state" where
  "on_conn i f s = s\<lparr>sm_conns := (sm_conns s)[i := f (sm_conns s ! i)]\<rparr>"

subsection \<open>What the goroutines do\<close>

definition eventWebsocketHandler :: "stream_state \<Rightarrow> stream_state" where
  "eventWebsocketHandler s = s\<lparr>sm_conns := sm_conns s @
     [\<lparr>cn_client = newStreamClient, cn_reader = Reading, cn_writing = True, cn_registered = True\<rparr>]\<rparr>"

text \<open>A message that is refused with an error: the reader waits with the error in its hands.\<close>

definition read_message :: "ViewerServer \<Rightarrow> jwtlib \<Rightarrow> json option \<Rightarrow> connection \<Rightarrow> connection" where
  "read_message cfg J msg c =
     (let c' = stream_handleMessage cfg J msg (cn_client c)
      in if sc_open (cn_client c) \<and> \<not> sc_open c' then c\<lparr>cn_reader := Answering (last (sc_written c'))\<rparr>
         else c\<lparr>cn_client := c'\<rparr>)"

text \<open>The write loop takes a message; when the socket does not accept it, the loop ends.\<close>

definition write_message :: "bool \<Rightarrow> json \<Rightarrow> connection \<Rightarrow> connection" where
  "write_message accepted m c =
     (if accepted then c\<lparr>cn_client := (cn_client c)\<lparr>sc_written := sc_written (cn_client c) @ [m]\<rparr>\<rparr>
      else c\<lparr>cn_writing := False\<rparr>)"

definition close_socket :: "connection \<Rightarrow> connection" where
  "close_socket c = c\<lparr>cn_client := (cn_client c)\<lparr>sc_open := False\<rparr>\<rparr>"

definition Unregister :: "connection \<Rightarrow> connection" where
  "Unregister c = c\<lparr>cn_registered := False, cn_reader := Left\<rparr>"

definition event_message :: "json \<Rightarrow> json" where
  "event_message body = websocketMessage_json wsMessageTypeEvent body"

text \<open>
  One step of one goroutine. The order in which the table is traversed is any order of the registered
  clients. A socket that was closed accepts nothing; one whose peer is gone may not accept either.
\<close>

inductive stream_step :: "ViewerServer \<Rightarrow> jwtlib \<Rightarrow> extlib \<Rightarrow> stream_state \<Rightarrow> stream_state \<Rightarrow> bool"
  for cfg :: ViewerServer and J :: jwtlib and lib :: extlib where
  connect: "\<not> locked s \<Longrightarrow> stream_step cfg J lib s (eventWebsocketHandler s)"
| read: "i < length (sm_conns s) \<Longrightarrow> cn_reader (sm_conns s ! i) = Reading \<Longrightarrow> sc_open (cn_client (sm_conns s ! i))
    \<Longrightarrow> stream_step cfg J lib s (on_conn i (read_message cfg J msg) s)"
| answer: "i < length (sm_conns s) \<Longrightarrow> cn_reader (sm_conns s ! i) = Answering m \<Longrightarrow> cn_writing (sm_conns s ! i)
    \<Longrightarrow> (accepted \<Longrightarrow> sc_open (cn_client (sm_conns s ! i)))
    \<Longrightarrow> stream_step cfg J lib s (on_conn i (\<lambda>c. (close_socket (write_message accepted m c))\<lparr>cn_reader := Reading\<rparr>) s)"
| read_fails: "i < length (sm_conns s) \<Longrightarrow> cn_reader (sm_conns s ! i) = Reading
    \<Longrightarrow> stream_step cfg J lib s (on_conn i (\<lambda>c. (close_socket c)\<lparr>cn_reader := Leaving\<rparr>) s)"
| unregister: "i < length (sm_conns s) \<Longrightarrow> cn_reader (sm_conns s ! i) = Leaving \<Longrightarrow> \<not> locked s
    \<Longrightarrow> stream_step cfg J lib s (on_conn i Unregister s)"
| write_loop_ends: "i < length (sm_conns s) \<Longrightarrow> stream_step cfg J lib s (on_conn i (\<lambda>c. c\<lparr>cn_writing := False\<rparr>) s)"
| event: "sm_broadcaster s = Waiting \<Longrightarrow> mset order = mset (filter (\<lambda>i. cn_registered (sm_conns s ! i)) [0..<length (sm_conns s)])
    \<Longrightarrow> stream_step cfg J lib s (s\<lparr>sm_broadcaster := Checking d body order, sm_log := sm_log s @ [event_message body]\<rparr>)"
| pass_over: "sm_broadcaster s = Checking d body (i # ks) \<Longrightarrow> \<not> receives lib d (cn_client (sm_conns s ! i))
    \<Longrightarrow> stream_step cfg J lib s (s\<lparr>sm_broadcaster := Checking d body ks\<rparr>)"
| match: "sm_broadcaster s = Checking d body (i # ks) \<Longrightarrow> receives lib d (cn_client (sm_conns s ! i))
    \<Longrightarrow> stream_step cfg J lib s (s\<lparr>sm_broadcaster := Sending d body i ks\<rparr>)"
| send: "sm_broadcaster s = Sending d body i ks \<Longrightarrow> cn_writing (sm_conns s ! i) \<Longrightarrow> (accepted \<Longrightarrow> sc_open (cn_client (sm_conns s ! i)))
    \<Longrightarrow> stream_step cfg J lib s ((on_conn i (write_message accepted (event_message body)) s)\<lparr>sm_broadcaster := Checking d body ks\<rparr>)"
| finish: "sm_broadcaster s = Checking d body [] \<Longrightarrow> stream_step cfg J lib s (s\<lparr>sm_broadcaster := Waiting\<rparr>)"
| shutdown: "sm_broadcaster s = Waiting \<Longrightarrow> stream_step cfg J lib s (s\<lparr>sm_broadcaster := Stopped\<rparr>)"

inductive_cases stream_stepE: "stream_step cfg J lib s s'"

abbreviation stream_run :: "ViewerServer \<Rightarrow> jwtlib \<Rightarrow> extlib \<Rightarrow> stream_state \<Rightarrow> stream_state \<Rightarrow> bool" where
  "stream_run cfg J lib \<equiv> (stream_step cfg J lib)\<^sup>*\<^sup>*"

subsection \<open>Connections\<close>

lemma on_conn_simps [simp]:
  "length (sm_conns (on_conn i f s)) = length (sm_conns s)" "sm_broadcaster (on_conn i f s) = sm_broadcaster s"
  "sm_log (on_conn i f s) = sm_log s"
  "i < length (sm_conns s) \<Longrightarrow> sm_conns (on_conn i f s) ! j = (if i = j then f (sm_conns s ! i) else sm_conns s ! j)"
  by (simp_all add: on_conn_def)

lemma write_message_simps [simp]:
  "cn_writing (write_message accepted m c) = (accepted \<and> cn_writing c)" "cn_registered (write_message accepted m c) = cn_registered c"
  "cn_reader (write_message accepted m c) = cn_reader c"
  "sc_isAuthenticated (cn_client (write_message accepted m c)) = sc_isAuthenticated (cn_client c)"
  "sc_written (cn_client (write_message accepted m c)) = sc_written (cn_client c) @ (if accepted then [m] else [])"
  by (simp_all add: write_message_def)

lemma close_socket_simps [simp]:
  "cn_writing (close_socket c) = cn_writing c" "cn_registered (close_socket c) = cn_registered c" "cn_reader (close_socket c) = cn_reader c"
  "sc_isAuthenticated (cn_client (close_socket c)) = sc_isAuthenticated (cn_client c)"
  "sc_written (cn_client (close_socket c)) = sc_written (cn_client c)"
  by (simp_all add: close_socket_def)

lemma Unregister_simps [simp]:
  "cn_client (Unregister c) = cn_client c" "cn_writing (Unregister c) = cn_writing c" "cn_reader (Unregister c) = Left"
  by (simp_all add: Unregister_def)

text \<open>A message of a client either leaves what was written to it, or is refused with one error message.\<close>

lemma stream_handleMessage_written:
  "sc_isAuthenticated c \<Longrightarrow> sc_isAuthenticated (stream_handleMessage cfg J msg c)"
  "sc_written (stream_handleMessage cfg J msg c) = sc_written c
   \<or> (\<exists>d. sc_written (stream_handleMessage cfg J msg c) = sc_written c @ [websocketMessage_json wsMessageTypeError d]
        \<and> \<not> sc_open (stream_handleMessage cfg J msg c))"
  "sc_written (stream_handleMessage cfg J msg c) = sc_written c \<Longrightarrow> sc_open (stream_handleMessage cfg J msg c) = sc_open c"
  by (auto simp: stream_handleMessage_def handleAuth_def handleSetFilters_def WriteErrorAndClose_def
      split: res.split option.split)

definition is_event :: "json \<Rightarrow> bool" where
  "is_event m = (case m of JObj ((k, JStr t) # _) \<Rightarrow> t = wsMessageTypeEvent | _ \<Rightarrow> False)"

lemma is_event_message [simp]: "is_event (event_message body)" "\<not> is_event (websocketMessage_json wsMessageTypeError d)"
  by (simp_all add: is_event_def event_message_def websocketMessage_json_def wsMessageTypeEvent_def wsMessageTypeError_def)

lemma read_message_simps [simp]:
  "cn_writing (read_message cfg J msg c) = cn_writing c" "cn_registered (read_message cfg J msg c) = cn_registered c"
  by (simp_all add: read_message_def Let_def)

lemma read_message_written:
  assumes "sc_open (cn_client c)"
  shows "sc_written (cn_client (read_message cfg J msg c)) = sc_written (cn_client c)"
    "sc_isAuthenticated (cn_client c) \<Longrightarrow> sc_isAuthenticated (cn_client (read_message cfg J msg c))"
    "cn_reader (read_message cfg J msg c) = Answering m \<Longrightarrow> cn_reader c = Answering m \<or> \<not> is_event m"
  using assms stream_handleMessage_written [where c = "cn_client c" and cfg = cfg and J = J and msg = msg]
  by (auto simp: read_message_def Let_def split: if_split_asm)

subsection \<open>Order of the stream\<close>

fun pending :: "broadcaster \<Rightarrow> nat list" where
  "pending (Checking d body ks) = ks"
| "pending (Sending d body i ks) = i # ks"
| "pending _ = []"

fun current :: "broadcaster \<Rightarrow> json list" where
  "current (Checking d body ks) = [event_message body]"
| "current (Sending d body i ks) = [event_message body]"
| "current _ = []"

text \<open>
  The events written to a client are events the broadcaster took, in their order; those of a client that
  the round has not reached do not include the current one. Only authenticated clients get any, and
  what a reader has in its hands is no event.
\<close>

definition conn_inv :: "json list \<Rightarrow> connection \<Rightarrow> bool" where
  "conn_inv log c \<longleftrightarrow> subseq (filter is_event (sc_written (cn_client c))) log
     \<and> (filter is_event (sc_written (cn_client c)) \<noteq> [] \<longrightarrow> sc_isAuthenticated (cn_client c))
     \<and> (\<forall>m. cn_reader c = Answering m \<longrightarrow> \<not> is_event m)"

definition stream_inv :: "stream_state \<Rightarrow> bool" where
  "stream_inv s \<longleftrightarrow> (\<exists>past. sm_log s = past @ current (sm_broadcaster s)
     \<and> (\<forall>i < length (sm_conns s). conn_inv (if i \<in> set (pending (sm_broadcaster s)) then past else sm_log s) (sm_conns s ! i)))
     \<and> distinct (pending (sm_broadcaster s)) \<and> set (pending (sm_broadcaster s)) \<subseteq> {..<length (sm_conns s)}
     \<and> (\<forall>d body i ks. sm_broadcaster s = Sending d body i ks \<longrightarrow> sc_isAuthenticated (cn_client (sm_conns s ! i)))"

lemma conn_inv_append: "conn_inv log c \<Longrightarrow> conn_inv (log @ ms) c"
  unfolding conn_inv_def by (auto intro: subseq_rev_drop_many)

lemma conn_inv_write: "conn_inv log c \<Longrightarrow> sc_isAuthenticated (cn_client c) \<Longrightarrow> conn_inv (log @ [event_message body]) (write_message accepted (event_message body) c)"
  unfolding conn_inv_def by (auto intro: subseq_rev_drop_many)

lemma stream_inv_on_conn:
  assumes "stream_inv s" "i < length (sm_conns s)" "\<And>log. conn_inv log (sm_conns s ! i) \<Longrightarrow> conn_inv log (f (sm_conns s ! i))"
    "sc_isAuthenticated (cn_client (sm_conns s ! i)) \<Longrightarrow> sc_isAuthenticated (cn_client (f (sm_conns s ! i)))"
  shows "stream_inv (on_conn i f s)"
proof -
  let ?expected = "\<lambda>past j. if j \<in> set (pending (sm_broadcaster s)) then past else sm_log s"
  obtain past where p: "sm_log s = past @ current (sm_broadcaster s)" "\<forall>j < length (sm_conns s). conn_inv (?expected past j) (sm_conns s ! j)"
    using assms(1) unfolding stream_inv_def by blast
  have "conn_inv (?expected past j) (sm_conns (on_conn i f s) ! j)" if "j < length (sm_conns s)" for j
  proof -
    have "conn_inv (?expected past j) (sm_conns s ! j)" using p(2) that by blast
    then show ?thesis using assms(2) assms(3) [of "?expected past j"] by (cases "i = j") simp_all
  qed
  then have "\<exists>past. sm_log s = past @ current (sm_broadcaster s) \<and> (\<forall>j < length (sm_conns s). conn_inv (?expected past j) (sm_conns (on_conn i f s) ! j))"
    using p(1) by blast
  moreover have "sc_isAuthenticated (cn_client (sm_conns (on_conn i f s) ! j))" if "sm_broadcaster s = Sending d body j ks" for d body j ks
    using that assms(1,2,4) by (auto simp: stream_inv_def)
  ultimately show ?thesis using assms(1) unfolding stream_inv_def on_conn_simps by blast
qed

lemma stream_inv_unlocked:
  "\<not> locked s \<Longrightarrow> stream_inv s \<longleftrightarrow> (\<forall>i < length (sm_conns s). conn_inv (sm_log s) (sm_conns s ! i))"
  by (cases "sm_broadcaster s") (auto simp: locked_def stream_inv_def)

lemma stream_inv_checking:
  "sm_broadcaster s = Checking d body ks \<Longrightarrow> stream_inv s \<longleftrightarrow> (\<exists>past. sm_log s = past @ [event_message body]
     \<and> (\<forall>i < length (sm_conns s). conn_inv (if i \<in> set ks then past else past @ [event_message body]) (sm_conns s ! i)))
     \<and> distinct ks \<and> set ks \<subseteq> {..<length (sm_conns s)}"
  by (auto simp: stream_inv_def)

lemma stream_inv_sending:
  "sm_broadcaster s = Sending d body i ks \<Longrightarrow> stream_inv s \<longleftrightarrow> (\<exists>past. sm_log s = past @ [event_message body]
     \<and> (\<forall>j < length (sm_conns s). conn_inv (if j \<in> set (i # ks) then past else past @ [event_message body]) (sm_conns s ! j)))
     \<and> distinct (i # ks) \<and> set (i # ks) \<subseteq> {..<length (sm_conns s)} \<and> sc_isAuthenticated (cn_client (sm_conns s ! i))"
  by (auto simp: stream_inv_def)

lemma conns_passed:
  assumes "\<forall>j < n. conn_inv (if j \<in> set (i # ks) then past else past @ ms) (cs ! j)" "j < n"
  shows "conn_inv (if j \<in> set ks then past else past @ ms) (cs ! j)"
proof -
  have "conn_inv (if j \<in> set (i # ks) then past else past @ ms) (cs ! j)" using assms by blast
  then show ?thesis using conn_inv_append by (auto split: if_split_asm)
qed

lemma stream_step_inv:
  assumes "stream_step cfg J lib s s'" "stream_inv s"
  shows "stream_inv s'"
  using assms
proof cases
  case connect
  have "conn_inv (sm_log s) \<lparr>cn_client = newStreamClient, cn_reader = Reading, cn_writing = True, cn_registered = True\<rparr>"
    by (simp add: conn_inv_def newStreamClient_def)
  moreover have "\<not> locked s'" using connect by (simp add: locked_def eventWebsocketHandler_def)
  ultimately show ?thesis using assms(2) connect
    by (auto simp: stream_inv_unlocked eventWebsocketHandler_def nth_append less_Suc_eq)
next
  case (read i msg)
  note r = read_message_written [OF read(4), of cfg J msg]
  have "conn_inv log (read_message cfg J msg (sm_conns s ! i))" if "conn_inv log (sm_conns s ! i)" for log
    using that r(1,2) r(3) unfolding conn_inv_def by metis
  then show ?thesis using stream_inv_on_conn [OF assms(2) read(2), of "read_message cfg J msg"] r(2) read(1) by blast
next
  case (answer i m accepted)
  then show ?thesis by (auto intro!: stream_inv_on_conn [OF assms(2)] simp: conn_inv_def)
next
  case (read_fails i)
  then show ?thesis by (auto intro!: stream_inv_on_conn [OF assms(2)] simp: conn_inv_def)
next
  case (unregister i)
  then show ?thesis by (auto intro!: stream_inv_on_conn [OF assms(2)] simp: conn_inv_def)
next
  case (write_loop_ends i)
  then show ?thesis by (auto intro!: stream_inv_on_conn [OF assms(2)] simp: conn_inv_def)
next
  case (event order body d)
  have "distinct order" "set order \<subseteq> {..<length (sm_conns s)}"
    using mset_eq_imp_distinct_iff [OF event(3)] mset_eq_setD [OF event(3)] by auto
  moreover have "\<not> locked s" using event(2) by (simp add: locked_def)
  ultimately show ?thesis using assms(2) event(1)
    by (subst stream_inv_checking [where d = d and body = body and ks = order]) (auto simp: stream_inv_unlocked intro: conn_inv_append)
next
  case (pass_over d body i ks)
  from assms(2) obtain past where p: "sm_log s = past @ [event_message body]" "distinct (i # ks)" "set (i # ks) \<subseteq> {..<length (sm_conns s)}"
    "\<forall>j < length (sm_conns s). conn_inv (if j \<in> set (i # ks) then past else past @ [event_message body]) (sm_conns s ! j)"
    unfolding stream_inv_checking [OF pass_over(2)] by blast
  have "sm_broadcaster s' = Checking d body ks" by (simp add: pass_over(1))
  from stream_inv_checking [OF this] conns_passed [OF p(4)] p(1-3) show ?thesis
    unfolding pass_over(1) by simp
next
  case (match d body i ks)
  then show ?thesis using assms(2)
    by (subst stream_inv_sending [where d = d and body = body and i = i and ks = ks])
      (auto simp: stream_inv_checking [OF match(2)] receives_def)
next
  case (send d body i ks accepted)
  from assms(2) obtain past where p: "sm_log s = past @ [event_message body]" "distinct (i # ks)" "set (i # ks) \<subseteq> {..<length (sm_conns s)}"
    "\<forall>j < length (sm_conns s). conn_inv (if j \<in> set (i # ks) then past else past @ [event_message body]) (sm_conns s ! j)"
    "sc_isAuthenticated (cn_client (sm_conns s ! i))"
    unfolding stream_inv_sending [OF send(2)] by blast
  have "conn_inv past (sm_conns s ! i)" using p(3,4) by auto
  from conn_inv_write [OF this p(5), of body accepted] p show ?thesis
    by (subst stream_inv_checking [where d = d and body = body and ks = ks]) (auto simp: send(1))
next
  case (finish d body)
  then show ?thesis using assms(2) by (auto simp: stream_inv_checking [OF finish(2)] stream_inv_unlocked locked_def)
next
  case shutdown
  then show ?thesis using assms(2) by (auto simp: stream_inv_unlocked locked_def)
qed

lemma stream_run_inv: "stream_run cfg J lib s s' \<Longrightarrow> stream_inv s \<Longrightarrow> stream_inv s'"
  by (induction rule: rtranclp_induct) (auto intro: stream_step_inv)

text \<open>
  C16. However the goroutines of the stream interleave, the events written to a client are events that the
  broadcaster was given, in the same order and each at most once, and a client that was sent any event has
  authenticated itself.
\<close>

theorem stream_in_order:
  assumes "stream_run cfg J lib newStreamBroadcaster s" "c \<in> set (sm_conns s)"
  shows "subseq (filter is_event (sc_written (cn_client c))) (sm_log s)
    \<and> (list_ex is_event (sc_written (cn_client c)) \<longrightarrow> sc_isAuthenticated (cn_client c))"
proof -
  have "stream_inv newStreamBroadcaster" by (simp add: stream_inv_def newStreamBroadcaster_def)
  from stream_run_inv [OF assms(1) this] obtain past i where "sm_log s = past @ current (sm_broadcaster s)"
    "c = sm_conns s ! i" "conn_inv (if i \<in> set (pending (sm_broadcaster s)) then past else sm_log s) c"
    using assms(2) unfolding stream_inv_def in_set_conv_nth by metis
  then have "conn_inv (sm_log s) c" using conn_inv_append by (metis (full_types))
  then show ?thesis by (auto simp: conn_inv_def list_ex_iff filter_empty_conv)
qed

subsection \<open>A round with working clients\<close>

definition deliver :: "extlib \<Rightarrow> StoredEvent \<Rightarrow> json \<Rightarrow> connection \<Rightarrow> connection" where
  "deliver lib d body c = (if receives lib d (cn_client c) then write_message True (event_message body) c else c)"

lemma deliver_simps [simp]:
  "cn_writing (deliver lib d body c) = cn_writing c" "cn_registered (deliver lib d body c) = cn_registered c"
  by (simp_all add: deliver_def)

lemma round_run:
  assumes "sm_broadcaster s = Checking d body ks" "distinct ks"
    and "\<forall>i \<in> set ks. i < length (sm_conns s) \<and> cn_writing (sm_conns s ! i) \<and> sc_open (cn_client (sm_conns s ! i))"
  shows "\<exists>s'. stream_run cfg J lib s s' \<and> sm_broadcaster s' = Waiting \<and> length (sm_conns s') = length (sm_conns s)
    \<and> (\<forall>i < length (sm_conns s). sm_conns s' ! i = (if i \<in> set ks then deliver lib d body (sm_conns s ! i) else sm_conns s ! i))"
  using assms
proof (induction ks arbitrary: s)
  case Nil
  have "stream_step cfg J lib s (s\<lparr>sm_broadcaster := Waiting\<rparr>)" using Nil(1) by (rule stream_step.finish)
  then show ?case by (intro exI [of _ "s\<lparr>sm_broadcaster := Waiting\<rparr>"]) auto
next
  case (Cons i ks)
  have i: "i < length (sm_conns s)" "cn_writing (sm_conns s ! i)" "sc_open (cn_client (sm_conns s ! i))" "i \<notin> set ks"
    using Cons.prems by simp_all
  define s1 where "s1 = (on_conn i (deliver lib d body) s)\<lparr>sm_broadcaster := Checking d body ks\<rparr>"
  have run: "stream_run cfg J lib s s1"
  proof (cases "receives lib d (cn_client (sm_conns s ! i))")
    case True
    define s0 where "s0 = s\<lparr>sm_broadcaster := Sending d body i ks\<rparr>"
    have "stream_step cfg J lib s s0" unfolding s0_def by (rule stream_step.match [OF Cons.prems(1) True])
    moreover have "stream_step cfg J lib s0 ((on_conn i (write_message True (event_message body)) s0)\<lparr>sm_broadcaster := Checking d body ks\<rparr>)"
      by (rule stream_step.send) (use i in \<open>simp_all add: s0_def\<close>)
    moreover have "(on_conn i (write_message True (event_message body)) s0)\<lparr>sm_broadcaster := Checking d body ks\<rparr> = s1"
      using True by (simp add: s1_def s0_def on_conn_def deliver_def)
    ultimately show ?thesis by (metis converse_rtranclp_into_rtranclp rtranclp.rtrancl_refl)
  next
    case False
    have "on_conn i (deliver lib d body) s = s" using False i(1) by (simp add: on_conn_def deliver_def)
    then have "stream_step cfg J lib s s1"
      unfolding s1_def using stream_step.pass_over [OF Cons.prems(1) False] by simp
    then show ?thesis by blast
  qed
  have c: "sm_conns s1 ! j = (if i = j then deliver lib d body (sm_conns s ! i) else sm_conns s ! j)" "length (sm_conns s1) = length (sm_conns s)" for j
    using i(1) by (simp_all add: s1_def)
  have "\<forall>j \<in> set ks. j < length (sm_conns s1) \<and> cn_writing (sm_conns s1 ! j) \<and> sc_open (cn_client (sm_conns s1 ! j))"
    using Cons.prems(3) i(4) unfolding c by (auto split: if_split_asm)
  then obtain s' where s': "stream_run cfg J lib s1 s'" "sm_broadcaster s' = Waiting" "length (sm_conns s') = length (sm_conns s1)"
    "\<forall>j < length (sm_conns s1). sm_conns s' ! j = (if j \<in> set ks then deliver lib d body (sm_conns s1 ! j) else sm_conns s1 ! j)"
    using Cons.IH [of s1] Cons.prems(2) by (auto simp: s1_def)
  have "\<forall>j < length (sm_conns s). sm_conns s' ! j = (if j \<in> set (i # ks) then deliver lib d body (sm_conns s ! j) else sm_conns s ! j)"
    using s'(4) i(4) unfolding c by auto
  with s'(1-3) run c(2) show ?case by (intro exI [of _ s']) auto
qed


subsection \<open>A client that is gone\<close>

text \<open>The broadcaster waits for a write loop that has ended; this never changes.\<close>

definition blocked :: "stream_state \<Rightarrow> bool" where
  "blocked s \<longleftrightarrow> (\<exists>d body i ks. sm_broadcaster s = Sending d body i ks \<and> i < length (sm_conns s) \<and> \<not> cn_writing (sm_conns s ! i))"

lemma blocked_step:
  assumes "stream_step cfg J lib s s'" "blocked s"
  shows "blocked s' \<and> sm_broadcaster s' = sm_broadcaster s \<and> sm_log s' = sm_log s \<and> map cn_registered (sm_conns s') = map cn_registered (sm_conns s)"
proof -
  obtain d body i ks where b: "sm_broadcaster s = Sending d body i ks" "i < length (sm_conns s)" "\<not> cn_writing (sm_conns s ! i)"
    using assms(2) unfolding blocked_def by blast
  then have l: "locked s" by (simp add: locked_def)
  have *: "blocked (on_conn j f s) \<and> map cn_registered (sm_conns (on_conn j f s)) = map cn_registered (sm_conns s)"
    if "j < length (sm_conns s)" "cn_writing (f (sm_conns s ! j)) \<Longrightarrow> cn_writing (sm_conns s ! j)"
      "cn_registered (f (sm_conns s ! j)) = cn_registered (sm_conns s ! j)" for j f
    using b that by (auto simp: blocked_def intro!: nth_equalityI split: if_split_asm)
  from assms(1) show ?thesis
  proof cases
    case (read j msg)
    then show ?thesis using * [OF read(2), of "read_message cfg J msg"] by simp
  next
    case (answer j m accepted)
    then show ?thesis using * [OF answer(2), of "\<lambda>c. (close_socket (write_message accepted m c))\<lparr>cn_reader := Reading\<rparr>"] by simp
  next
    case (read_fails j)
    then show ?thesis using * [OF read_fails(2), of "\<lambda>c. (close_socket c)\<lparr>cn_reader := Leaving\<rparr>"] by simp
  next
    case (write_loop_ends j)
    then show ?thesis using * [OF write_loop_ends(2), of "\<lambda>c. c\<lparr>cn_writing := False\<rparr>"] by simp
  qed (use b l in simp_all)
qed

lemma blocked_run:
  assumes "stream_run cfg J lib s s'" "blocked s"
  shows "blocked s' \<and> sm_broadcaster s' = sm_broadcaster s \<and> sm_log s' = sm_log s \<and> map cn_registered (sm_conns s') = map cn_registered (sm_conns s)"
  using assms
proof (induction rule: rtranclp_induct)
  case (step s1 s2)
  then show ?case using blocked_step [OF step(2)] by metis
qed simp

text \<open>The stream with one client that has shown a valid token.\<close>

definition one_client :: "bool \<Rightarrow> broadcaster \<Rightarrow> json list \<Rightarrow> stream_state" where
  "one_client w b log = \<lparr>sm_conns = [\<lparr>cn_client = newStreamClient\<lparr>sc_isAuthenticated := True\<rparr>, cn_reader = Reading,
     cn_writing = w, cn_registered = True\<rparr>], sm_broadcaster = b, sm_log = log\<rparr>"

lemma one_client_run:
  assumes "validateToken cfg J token = Some who"
  shows "stream_run cfg J lib newStreamBroadcaster (one_client True Waiting [])"
proof -
  let ?auth = "websocketMessage_json wsMessageTypeAuth (JObj [(''token'', JStr token)])"
  have a: "stream_handleMessage cfg J (Some ?auth) newStreamClient = newStreamClient\<lparr>sc_isAuthenticated := True\<rparr>"
    using assms by (simp add: stream_handleMessage_def handleAuth_def websocketMessage_json_def websocketMessage_of_json_def
        json_Unmarshal_def jstring_def jraw_def ToLower_def to_lower_char_def)
  define s1 where "s1 = eventWebsocketHandler newStreamBroadcaster"
  have "stream_step cfg J lib newStreamBroadcaster s1"
    unfolding s1_def by (rule stream_step.connect) (simp add: locked_def newStreamBroadcaster_def)
  moreover have "stream_step cfg J lib s1 (on_conn 0 (read_message cfg J (Some ?auth)) s1)"
    by (rule stream_step.read) (simp_all add: s1_def eventWebsocketHandler_def newStreamBroadcaster_def newStreamClient_def)
  moreover have "on_conn 0 (read_message cfg J (Some ?auth)) s1 = one_client True Waiting []"
    by (simp add: s1_def on_conn_def eventWebsocketHandler_def newStreamBroadcaster_def read_message_def a one_client_def)
  ultimately show ?thesis by (metis converse_rtranclp_into_rtranclp r_into_rtranclp)
qed

lemma one_client_steps:
  "stream_step cfg J lib (one_client w Waiting log) (one_client w (Checking d body [0]) (log @ [event_message body]))"
  "stream_step cfg J lib (one_client w (Checking d body [0]) log) (one_client w (Sending d body 0 []) log)"
  "stream_step cfg J lib (one_client True (Sending d body 0 []) log) (one_client False (Checking d body []) log)"
  "stream_step cfg J lib (one_client w (Checking d body []) log) (one_client w Waiting log)"
proof -
  have r: "receives lib d (newStreamClient\<lparr>sc_isAuthenticated := True\<rparr>)" by (simp add: receives_def newStreamClient_def)
  show "stream_step cfg J lib (one_client w Waiting log) (one_client w (Checking d body [0]) (log @ [event_message body]))"
    using stream_step.event [of "one_client w Waiting log" "[0]"] by (simp add: one_client_def)
  show "stream_step cfg J lib (one_client w (Checking d body [0]) log) (one_client w (Sending d body 0 []) log)"
    using stream_step.match [of "one_client w (Checking d body [0]) log"] r by (simp add: one_client_def)
  show "stream_step cfg J lib (one_client True (Sending d body 0 []) log) (one_client False (Checking d body []) log)"
    using stream_step.send [of "one_client True (Sending d body 0 []) log" d body 0 "[]" False]
    by (simp add: one_client_def on_conn_def write_message_def)
  show "stream_step cfg J lib (one_client w (Checking d body []) log) (one_client w Waiting log)"
    using stream_step.finish [of "one_client w (Checking d body []) log"] by (simp add: one_client_def)
qed

text \<open>
  C6. One client can stop the stream for good. From the start, with any valid token, the goroutines can
  reach a state in which the broadcaster waits for a write loop that has ended, while it holds the lock of
  the client table. Whatever happens afterwards, it takes no further event, and no client is registered or
  unregistered, the client that is gone included.
\<close>

theorem stream_deadlock:
  assumes "validateToken cfg J token = Some who"
  shows "\<exists>s. stream_run cfg J lib newStreamBroadcaster s \<and> (\<forall>s'. stream_run cfg J lib s s' \<longrightarrow>
    (\<exists>d body i ks. sm_broadcaster s' = Sending d body i ks \<and> \<not> cn_writing (sm_conns s' ! i))
    \<and> sm_log s' = sm_log s \<and> map cn_registered (sm_conns s') = map cn_registered (sm_conns s))"
proof -
  let ?m = "event_message JNull" and ?log = "[event_message JNull, event_message JNull]"
  note st = one_client_steps [of cfg J lib] and go = converse_rtranclp_into_rtranclp [of "stream_step cfg J lib"]
  have "stream_run cfg J lib (one_client True Waiting []) (one_client False (Sending d JNull 0 []) ?log)" for d
    by (rule go [OF st(1) [of _ "[]" d JNull]], simp, rule go [OF st(2)], rule go [OF st(3)], rule go [OF st(4)],
        rule go [OF st(1) [of _ "[?m]" d JNull]], simp, rule r_into_rtranclp [of "stream_step cfg J lib", OF st(2)])
  then have run: "stream_run cfg J lib newStreamBroadcaster (one_client False (Sending d JNull 0 []) ?log)" for d
    using one_client_run [OF assms, of lib] by (simp add: rtranclp_trans)
  have "blocked (one_client False (Sending d JNull 0 []) ?log)" for d by (simp add: blocked_def one_client_def)
  from blocked_run [OF _ this] run show ?thesis unfolding blocked_def by metis
qed

subsection \<open>A small stream\<close>

lemma demo_token: "validateToken demo_viewer_cfg demo_jwt ''troot'' = Some ''root''"
  by (simp add: validateToken_def demo_viewer_cfg_def demo_jwt_def HS256_def ToUpper_def to_upper_char_def)

theorem stream_in_order_witness:
  "\<exists>s c. stream_run demo_viewer_cfg demo_jwt demo_lib newStreamBroadcaster s \<and> c \<in> set (sm_conns s)
    \<and> list_ex is_event (sc_written (cn_client c)) \<and> sc_isAuthenticated (cn_client c)
    \<and> subseq (filter is_event (sc_written (cn_client c))) (sm_log s)"
proof -
  let ?run = "stream_run demo_viewer_cfg demo_jwt demo_lib" and ?d = "undefined :: StoredEvent"
  define s1 where "s1 = one_client True (Checking ?d JNull [0]) ([] @ [event_message JNull])"
  have 1: "?run newStreamBroadcaster s1"
    unfolding s1_def using one_client_run [OF demo_token] one_client_steps(1) by (rule rtranclp.rtrancl_into_rtrancl)
  obtain s where s: "?run s1 s" "length (sm_conns s) = 1" "sm_conns s ! 0 = deliver demo_lib ?d JNull (sm_conns s1 ! 0)"
    using round_run [of s1 ?d JNull "[0]" demo_viewer_cfg demo_jwt demo_lib] by (auto simp: s1_def one_client_def newStreamClient_def)
  have "list_ex is_event (sc_written (cn_client (sm_conns s ! 0)))"
    unfolding s(3) by (simp add: s1_def one_client_def deliver_def receives_def newStreamClient_def)
  moreover have "?run newStreamBroadcaster s" using 1 s(1) by (rule rtranclp_trans)
  moreover have "sm_conns s ! 0 \<in> set (sm_conns s)" using s(2) by simp
  ultimately show ?thesis using stream_in_order by blast
qed


theorem stream_deadlock_witness:
  "\<exists>s. stream_run demo_viewer_cfg demo_jwt demo_lib newStreamBroadcaster s \<and> (\<forall>s'. stream_run demo_viewer_cfg demo_jwt demo_lib s s' \<longrightarrow>
    sm_log s' = sm_log s)"
  using stream_deadlock [OF demo_token, of demo_lib] by blast

end
