(* ===== verification/Wiring.thy ===== *)
theory Wiring
  imports Stream
begin

section \<open>How the parts of an off-chain node are put together\<close>

text \<open>
  The routes of the two HTTP servers (internal/server/server.go, internal/viewer/server.go) with the
  middleware in front of their handlers, and the client of the blockchain that main builds. A request is
  dispatched by its method and path; redirects of the router are left out. Every request to the viewer is a step
  of \<open>viewer_run\<close>, and every request to the submission server a step of \<open>node_step\<close> or no change, so that
  the invariants of \<^verbatim>\<open>Viewer\<close> and \<^verbatim>\<open>OffchainNode\<close> hold for the servers as they answer.
\<close>

record http_request =
  hr_Method :: string
  hr_Path :: string
  hr_Authorization :: string
  hr_Body :: "json option"
  hr_Query :: "string \<rightharpoonup> string"

text \<open>The parameter of a route that ends in one: a segment that is not empty.\<close>

definition path_param :: "string \<Rightarrow> string \<Rightarrow> string option" where
  "path_param p path = (let rest = drop (length p) path in
     if HasPrefix path p \<and> rest \<noteq> [] \<and> CHR ''/'' \<notin> set rest then Some rest else None)"

subsection \<open>server.go of the submission server\<close>

datatype server_body =
    FoundStored "StoredEvent option" | StatusText string | Submitted | Stats "int \<times> int \<times> int option \<times> BlockRange list"

definition reply_res :: "('a \<Rightarrow> 'b) \<Rightarrow> 'a reply res \<Rightarrow> 's \<Rightarrow> ('b reply \<times> 's) res" where
  "reply_res f r s = map_res (\<lambda>r. (map_reply f r, s)) r"

definition server_Run :: "bool \<Rightarrow> ('c, 'd) deps \<Rightarrow> 'w chain_api \<Rightarrow> unit res \<Rightarrow> unit res \<Rightarrow> http_request \<Rightarrow> ('w, 'c, 'd) node
    \<Rightarrow> (server_body reply \<times> ('w, 'c, 'd) node) res" where
  "server_Run production D api sending connection req n =
     (if hr_Method req = ''GET'' \<and> path_param ''/event/'' (hr_Path req) \<noteq> None
      then reply_res FoundStored (HandleGetEvent D (the (path_param ''/event/'' (hr_Path req))) n) n
      else if hr_Method req = ''GET'' \<and> hr_Path req = ''/status'' then reply_res StatusText (HandleStatus connection) n
      else if hr_Method req = ''POST'' \<and> hr_Path req = ''/event''
      then map_res (\<lambda>(r, n). (map_reply (\<lambda>_. Submitted) r, n)) (HandleSubmit D api sending (hr_Body req) n)
      else if \<not> production \<and> hr_Method req = ''GET'' \<and> hr_Path req = ''/debug/stats'' then reply_res Stats (HandleStats D n) n
      else Ok (ErrorReply 404 ''404 page not found'', n))"

lemma reply_res_state: "reply_res f r s = Ok (x, s') \<Longrightarrow> s' = s"
  by (auto simp: reply_res_def)

text \<open>A request changes the node only as a step of the node does.\<close>

lemma server_Run_step:
  assumes "server_Run production D api sending connection req n = Ok (r, n')" "A api"
  shows "n' = n \<or> node_step D A n n'"
  using assms by (auto simp: server_Run_def split: if_split_asm intro: node_step.submit dest: reply_res_state)

subsection \<open>server.go and checktoken.go of the viewer\<close>

datatype viewer_body =
    TokenChecked string | ChallengeIssued bytes | TokenIssued string | FoundEvents "StoredEvent list" | FoundEvent StoredEvent | Upgraded

definition checkTokenHandler :: "string \<Rightarrow> viewer_body reply" where
  "checkTokenHandler who = Reply 200 (TokenChecked who)"

text \<open>The middleware in front of a handler: the handler runs only when it calls \<^verbatim>\<open>Next\<close>.\<close>

definition with_authentication :: "ViewerServer \<Rightarrow> jwtlib \<Rightarrow> http_request \<Rightarrow> 's \<Rightarrow> (string \<Rightarrow> ('b reply \<times> 's) res) \<Rightarrow> ('b reply \<times> 's) res" where
  "with_authentication cfg J req s k = (case authenticate cfg J (hr_Authorization req) of
     ErrorReply code msg \<Rightarrow> Ok (ErrorReply code msg, s)
   | Reply _ who \<Rightarrow> k who)"

definition viewer_Run :: "ViewerServer \<Rightarrow> jwtlib \<Rightarrow> extlib \<Rightarrow> ('k, 'i) challenge_db \<Rightarrow> ('c, 'o) search_db \<Rightarrow> 'c mongo \<Rightarrow> 'w chain_api \<Rightarrow> int
    \<Rightarrow> bytes res \<Rightarrow> unit res \<Rightarrow> 'c \<Rightarrow> http_request \<Rightarrow> ('w, 'k) viewer \<Rightarrow> (viewer_body reply \<times> ('w, 'k) viewer) res" where
  "viewer_Run cfg J lib C S G api now random upgrade c req v =
     (if hr_Method req = ''GET'' \<and> hr_Path req = ''/auth/check-token''
      then with_authentication cfg J req v (\<lambda>who. Ok (checkTokenHandler who, v))
      else if hr_Method req = ''POST'' \<and> hr_Path req = ''/auth/challenge''
      then map_res (\<lambda>(r, v). (map_reply ChallengeIssued r, v)) (challengeHandler C api now random (hr_Body req) v)
      else if hr_Method req = ''POST'' \<and> hr_Path req = ''/auth/challenge-response''
      then map_res (\<lambda>(r, v). (map_reply TokenIssued r, v)) (challengeResponseHandler cfg J lib C api now (hr_Body req) v)
      else if hr_Method req = ''POST'' \<and> hr_Path req = ''/events''
      then with_authentication cfg J req v (\<lambda>_. reply_res FoundEvents (searchEventsHandler S lib (vs_SearchPageLimit cfg) (hr_Body req)
             (hr_Query req ''first'') (hr_Query req ''page'') c) v)
      else if hr_Method req = ''GET'' \<and> path_param ''/events/by-id/'' (hr_Path req) \<noteq> None
      then with_authentication cfg J req v (\<lambda>_. reply_res FoundEvent (getEventHandler G (the (path_param ''/events/by-id/'' (hr_Path req))) c) v)
      else if hr_Method req = ''GET'' \<and> hr_Path req = ''/events/stream''
      then (case upgrade of
          Ok _ \<Rightarrow> Ok (Reply 101 Upgraded, v\<lparr>vw_streams := vw_streams v @ [newStreamClient]\<rparr>)
        | Err e \<Rightarrow> Ok (ErrorReply 400 (err_Error e), v)
        | Panic \<Rightarrow> Panic)
      else Ok (ErrorReply 404 ''404 page not found'', v))"

fun shows_events :: "viewer_body reply \<Rightarrow> bool" where
  "shows_events (Reply _ (FoundEvents _)) = True"
| "shows_events (Reply _ (FoundEvent _)) = True"
| "shows_events (Reply _ (TokenChecked _)) = True"
| "shows_events _ = False"

lemma authenticated_step:
  assumes "viewer_run cfg J lib C A v0 tr v"
    and t: "validateToken cfg J (hr_Authorization req) \<noteq> None \<Longrightarrow> issued tr (hr_Authorization req)"
    and r: "with_authentication cfg J req v k = Ok (r, v')" and k: "\<And>who r v'. k who = Ok (r, v') \<Longrightarrow> v' = v"
  shows "\<exists>tr'. viewer_run cfg J lib C A v0 (tr' @ tr) v' \<and> (shows_events r \<longrightarrow> (\<exists>who. Shown who (hr_Authorization req) \<in> set tr'))"
proof (cases "authenticate cfg J (hr_Authorization req)")
  case (Reply code who)
  then have v: "v' = v" "validateToken cfg J (hr_Authorization req) \<noteq> None"
    using r k by (auto simp: with_authentication_def authenticate_def split: if_split_asm option.split_asm)
  have "viewer_run cfg J lib C A v0 ([Shown who (hr_Authorization req)] @ tr) v'"
    using viewer_run.request [OF assms(1) t [OF v(2)] Reply] v(1) by simp
  then show ?thesis by (intro exI [of _ "[Shown who (hr_Authorization req)]"]) auto
next
  case (ErrorReply code msg)
  then show ?thesis using r assms(1) by (intro exI [of _ "[]"]) (auto simp: with_authentication_def)
qed

lemma challenge_step:
  assumes "viewer_run cfg J lib C A v0 tr v" "A api" "challengeHandler C api now random body v = Ok (r, v')"
  shows "\<exists>tr'. viewer_run cfg J lib C A v0 (tr' @ tr) v'"
proof (cases r)
  case (Reply code ch)
  obtain who where "json_Unmarshal (\<lambda>j. bind_res (jfields j) (jstring ''principal'')) body = Ok who"
    using assms(3) Reply by (cases "json_Unmarshal (\<lambda>j. bind_res (jfields j) (jstring ''principal'')) body") (auto simp: challengeHandler_def)
  from viewer_run.challenge [OF assms(1,2) this assms(3) [unfolded Reply]] show ?thesis by (metis append_Cons append_Nil)
next
  case (ErrorReply code msg)
  from viewer_run.challenge_refused [OF assms(1,2) assms(3) [unfolded ErrorReply]] show ?thesis by (metis append_Nil)
qed

lemma response_step:
  assumes "viewer_run cfg J lib C A v0 tr v" "A api" "challengeResponseHandler cfg J lib C api now body v = Ok (r, v')"
  shows "\<exists>tr'. viewer_run cfg J lib C A v0 (tr' @ tr) v'"
proof (cases r)
  case (Reply code token)
  obtain b where "json_Unmarshal challengeResponseRequestBody_of_json body = Ok b"
    using assms(3) Reply by (cases "json_Unmarshal challengeResponseRequestBody_of_json body") (auto simp: challengeResponseHandler_def)
  from viewer_run.response [OF assms(1,2) this assms(3) [unfolded Reply]] show ?thesis by (metis append_Cons append_Nil)
next
  case (ErrorReply code msg)
  from viewer_run.response_refused [OF assms(1,2) assms(3) [unfolded ErrorReply]] show ?thesis by (metis append_Nil)
qed


subsection \<open>main.go\<close>

text \<open>\<open>created\<close> are the results of \<^verbatim>\<open>http.New\<close> for the configured addresses; too few of them are fatal.\<close>

definition buildBlockchainClient :: "int \<Rightarrow> ('c \<times> int) res list \<Rightarrow> ('c \<Rightarrow> bool) \<Rightarrow> 'c RoundRobinClient res" where
  "buildBlockchainClient minimumNodes created ABCIInfo_ok =
     (let clients = [c. Ok c \<leftarrow> created]
      in if int (length clients) < minimumNodes then Panic else Ok (NewRoundRobinClient minimumNodes clients ABCIInfo_ok))"

subsection \<open>A request\<close>


end
