(* ===== verification/Websocket.thy ===== *)
theory Websocket
  imports Harmoniser
begin

section \<open>Notifications of the chain (pkg/blockchain/websocket.go, jsonrpc.go)\<close>

text \<open>
  The loop that keeps a websocket to a blockchain node, subscribes to new blocks and to event
  transactions, and puts what arrives on the two channels that the subscription loop of
  \<^verbatim>\<open>BlockchainClient\<close> reads. A state is where the loop is, with the connection it holds; an input is the
  outcome of the library call the loop waits for. Proved are that a notification of a block or an event
  reaches the harmoniser, and that a connection on which subscribing fails is never replaced.
\<close>

subsection \<open>jsonrpc.go\<close>

definition queryIdEvents :: int where "queryIdEvents = 0"
definition queryIdBlocks :: int where "queryIdBlocks = 1"

definition newSubscribeRequest :: "int \<Rightarrow> string \<Rightarrow> json" where
  "newSubscribeRequest i q = JObj [(''jsonrpc'', JStr ''2.0''), (''method'', JStr ''subscribe''),
     (''id'', jnum i), (''Params'', JObj [(''query'', JStr q)])]"

text \<open>The result of a notification; \<^verbatim>\<open>Events\<close> is a map, nil when it is absent.\<close>

record ResultEvent =
  re_Query :: string
  re_Data :: json
  re_Events :: "(string \<times> string list) list option"

record EventRpcResponse =
  er_Id :: int
  er_Result :: ResultEvent

definition string_of_json :: "json \<Rightarrow> string res" where
  "string_of_json j = (case j of JStr s \<Rightarrow> Ok s | JNull \<Rightarrow> Ok [] | _ \<Rightarrow> Err (OtherError ''cannot unmarshal into string''))"

definition strings_of_json :: "json \<Rightarrow> string list res" where
  "strings_of_json j = (case j of JNull \<Rightarrow> Ok [] | JArr js \<Rightarrow> map_res_list string_of_json js
     | _ \<Rightarrow> Err (OtherError ''cannot unmarshal into slice''))"

definition event_map_of_json :: "json \<Rightarrow> (string \<times> string list) list option res" where
  "event_map_of_json j = (case j of
     JNull \<Rightarrow> Ok None
   | JObj fs \<Rightarrow> map_res (\<lambda>m. Some (rev m)) (map_res_list (\<lambda>(k, v). map_res (Pair k) (strings_of_json v)) fs)
   | _ \<Rightarrow> Err (OtherError ''cannot unmarshal into map''))"

definition ResultEvent_of_json :: "json \<Rightarrow> ResultEvent res" where
  "ResultEvent_of_json j = bind_res (jfields j) (\<lambda>fs.
     bind_res (jstring ''query'' fs) (\<lambda>q.
     bind_res (jstruct event_map_of_json ''events'' fs) (\<lambda>evs.
       Ok \<lparr>re_Query = q, re_Data = (case jlookup ''data'' fs of None \<Rightarrow> JNull | Some d \<Rightarrow> d), re_Events = evs\<rparr>)))"

definition EventRpcResponse_of_json :: "json \<Rightarrow> EventRpcResponse res" where
  "EventRpcResponse_of_json j = bind_res (jfields j) (\<lambda>fs.
     bind_res (jstring ''jsonrpc'' fs) (\<lambda>_.
     bind_res (jint ''Id'' fs) (\<lambda>i.
     bind_res (jstruct ResultEvent_of_json ''Result'' fs) (\<lambda>r.
       Ok \<lparr>er_Id = i, er_Result = r\<rparr>))))"

subsection \<open>websocket.go\<close>

record url =
  url_Scheme :: string
  url_Host :: string
  url_Path :: string

definition websocketUrl :: "url res \<Rightarrow> url res" where
  "websocketUrl parsed = map_res (\<lambda>u. u\<lparr>url_Scheme := (if url_Scheme u = ''https'' then ''wss'' else ''ws''),
     url_Path := ''/websocket''\<rparr>) parsed"

text \<open>A text message: the channel it is put on, if any.\<close>

definition on_ws_message :: "json option \<Rightarrow> ws_input option" where
  "on_ws_message msg = (case json_Unmarshal EventRpcResponse_of_json msg of
     Ok data \<Rightarrow> (case re_Events (er_Result data) of
         None \<Rightarrow> None
       | Some evs \<Rightarrow>
           if re_Query (er_Result data) = [] then None
           else if er_Id data = queryIdEvents then Some (ChainEvent (Received evs))
           else if er_Id data = queryIdBlocks then Some (NewBlock (Received (re_Data (er_Result data))))
           else None)
   | _ \<Rightarrow> None)"

text \<open>
  The queries, the places of the loop and what it waits for: the shutdown channel, a dial, the write of
  a subscription, a read. A failed read of a connection that was not closed by the peer ends the loop
  when the application is shutting down.
\<close>

definition eventQuery :: string where
  "eventQuery = EventCreate @ ''.'' @ AttributeType @ [CHR 0x3D, CHR 0x27] @ AttributeValueCreate @ [CHR 0x27]"

definition blockQuery :: string where
  "blockQuery = ''tm.event='' @ [CHR 0x27] @ ''NewBlock'' @ [CHR 0x27]"

datatype 'c ws_state = Connecting | SubscribingEvents 'c | SubscribingBlocks 'c | Listening 'c | Stopped

datatype 'c ws_outcome =
    ShutdownSignal
  | Dial "'c res"
  | Write "unit res"
  | ReadClosed
  | ReadFailed bool
  | ReadBinary
  | ReadText "json option"

fun ws_step :: "'c ws_outcome \<Rightarrow> 'c ws_state \<Rightarrow> (ws_input list \<times> 'c ws_state) option" where
  "ws_step ShutdownSignal Connecting = Some ([], Stopped)"
| "ws_step (Dial d) Connecting = (case d of
     Ok conn \<Rightarrow> Some ([], SubscribingEvents conn) | _ \<Rightarrow> Some ([], Connecting))"
| "ws_step (Write w) (SubscribingEvents conn) = (case w of
     Ok _ \<Rightarrow> Some ([], SubscribingBlocks conn) | _ \<Rightarrow> Some ([], SubscribingEvents conn))"
| "ws_step ShutdownSignal (SubscribingEvents conn) = Some ([], Stopped)"
| "ws_step (Write w) (SubscribingBlocks conn) = (case w of
     Ok _ \<Rightarrow> Some ([], Listening conn) | _ \<Rightarrow> Some ([], SubscribingEvents conn))"
| "ws_step ShutdownSignal (SubscribingBlocks conn) = Some ([], Stopped)"
| "ws_step ReadClosed (Listening conn) = Some ([], Connecting)"
| "ws_step (ReadFailed isShutdown) (Listening conn) = Some ([], if isShutdown then Stopped else Connecting)"
| "ws_step ReadBinary (Listening conn) = Some ([], Listening conn)"
| "ws_step (ReadText msg) (Listening conn) = Some (case on_ws_message msg of None \<Rightarrow> [] | Some i \<Rightarrow> [i], Listening conn)"
| "ws_step _ _ = None"

text \<open>The requests the loop writes in a state.\<close>

fun ws_request :: "'c ws_state \<Rightarrow> json option" where
  "ws_request (SubscribingEvents conn) = Some (newSubscribeRequest queryIdEvents eventQuery)"
| "ws_request (SubscribingBlocks conn) = Some (newSubscribeRequest queryIdBlocks blockQuery)"
| "ws_request _ = None"

fun ws_run :: "'c ws_outcome list \<Rightarrow> 'c ws_state \<Rightarrow> (ws_input list \<times> 'c ws_state) option" where
  "ws_run [] s = Some ([], s)"
| "ws_run (i # is') s = (case ws_step i s of
     None \<Rightarrow> None
   | Some (out, s) \<Rightarrow> map_option (\<lambda>(out', s). (out @ out', s)) (ws_run is' s))"

subsection \<open>Notifications\<close>

text \<open>The message of a node for a subscription.\<close>

definition notification :: "int \<Rightarrow> string \<Rightarrow> json \<Rightarrow> (string \<times> string list) list \<Rightarrow> json" where
  "notification i q d evs = JObj [(''jsonrpc'', JStr ''2.0''), (''id'', jnum i), (''result'', JObj [(''query'', JStr q), (''data'', d),
     (''events'', JObj (map (\<lambda>(k, vs). (k, JArr (map JStr vs))) evs))])]"

lemma strings_of_json_strings [simp]: "strings_of_json (JArr (map JStr vs)) = Ok vs"
  by (induction vs) (simp_all add: strings_of_json_def string_of_json_def)

lemma event_map_of_json_map [simp]:
  "event_map_of_json (JObj (map (\<lambda>(k, vs). (k, JArr (map JStr vs))) evs)) = Ok (Some (rev evs))"
proof -
  have "map_res_list (\<lambda>(k, v). map_res (Pair k) (strings_of_json v)) (map (\<lambda>(k, vs). (k, JArr (map JStr vs))) evs) = Ok evs"
    by (induction evs) (auto split: prod.split)
  then show ?thesis by (simp add: event_map_of_json_def)
qed

lemma ToLower_keys [simp]:
  "ToLower ''Id'' = ''id''" "ToLower ''id'' = ''id''" "ToLower ''Result'' = ''result''" "ToLower ''result'' = ''result''"
  "ToLower ''jsonrpc'' = ''jsonrpc''" "ToLower ''query'' = ''query''" "ToLower ''data'' = ''data''" "ToLower ''events'' = ''events''"
  by code_simp+

lemma on_ws_message_notification:
  "on_ws_message (Some (notification i q d evs)) =
     (if q = [] then None
      else if i = queryIdEvents then Some (ChainEvent (Received (rev evs)))
      else if i = queryIdBlocks then Some (NewBlock (Received d)) else None)"
  if "int64 i"
  using that
  by (simp add: on_ws_message_def notification_def EventRpcResponse_of_json_def ResultEvent_of_json_def jstruct_def jstring_def jint_def
      jnum_def json_Unmarshal_def)

text \<open>The data of a block notification, among other fields.\<close>

definition block_data :: "(string \<times> json) list \<Rightarrow> (string \<times> json) list \<Rightarrow> (string \<times> json) list \<Rightarrow> (string \<times> json) list \<Rightarrow> int \<Rightarrow> json" where
  "block_data f1 f2 f3 f4 h = JObj (f1 @ [(''value'', JObj (f2 @ [(''block'', JObj (f3 @ [(''header'', JObj (f4 @ [(''height'', JStr (int_dec h))]))]))]))])"

lemma new_block_height_block_data: "int64 h \<Longrightarrow> new_block_height (block_data f1 f2 f3 f4 h) = Ok h"
  by (simp add: new_block_height_def block_data_def)

lemma chain_event_fields:
  assumes "int64 h"
  shows "chain_event now (rev (fs @ [(EventCreate @ ''.'' @ AttributeEventId, hex_EncodeToString i # ids), (''tx.height'', int_dec h # hs)]))
    = Ok (NewMissingEvent i now h)"
  using assms by (simp add: chain_event_def EventCreate_def AttributeEventId_def Let_def codec_simps)


text \<open>
  A connection on which a subscription cannot be written is kept for ever: after the pause the loop
  goes on with the connection it has, so that, while writing to it fails, it is never replaced, nothing is
  received, and the loop ends only with the application.
\<close>

lemma failed_subscription_never_reconnects:
  assumes "ws_run is' (SubscribingEvents conn) = Some (out, s)" "\<forall>r. Write r \<in> set is' \<longrightarrow> \<not> is_ok r"
  shows "out = [] \<and> (s = SubscribingEvents conn \<or> s = Stopped)"
proof -
  have "out = [] \<and> (s = SubscribingEvents conn \<or> s = Stopped)"
    if "ws_run is' s0 = Some (out, s)" "s0 = SubscribingEvents conn \<or> s0 = Stopped" "\<forall>r. Write r \<in> set is' \<longrightarrow> \<not> is_ok r" for s0
    using that
  proof (induction is' arbitrary: s0 out)
    case (Cons i is')
    then obtain out1 s1 out2 where st: "ws_step i s0 = Some (out1, s1)" "ws_run is' s1 = Some (out2, s)" "out = out1 @ out2"
      by (auto split: option.split_asm)
    have "out1 = [] \<and> (s1 = SubscribingEvents conn \<or> s1 = Stopped)"
      using st(1) Cons.prems(2,3) by (cases i) (auto split: res.split_asm)
    with Cons.IH [OF st(2)] Cons.prems(3) st(3) show ?case by simp
  qed simp
  with assms show ?thesis by blast
qed


end
