(* ===== verification/Shutdown.thy ===== *)
theory Shutdown
  imports Prelude "HOL-Library.Multiset"
begin

section \<open>Shutdown channels (common/pkg/broadcast)\<close>

text \<open>
  The channels over which main asks all parts of a node to shut down and waits for their answers. The
  channels are unbuffered: a send and the receive it meets are one step. \<open>publish_wait\<close> is the
  interleaving of the goroutine that hands the answer channel to the listeners, of the listeners, which
  answer when they like, of the loop that collects, and of the timer.
\<close>

subsection \<open>channel.go\<close>

text \<open>A channel is a number that was not used before; \<open>bc_closed\<close> are the channels that were closed.\<close>

record BroadcastChannel =
  bc_listeners :: "nat list"
  bc_next :: nat
  bc_closed :: "nat list"

definition NewBroadcastChannel :: BroadcastChannel where
  "NewBroadcastChannel = \<lparr>bc_listeners = [], bc_next = 0, bc_closed = []\<rparr>"

definition Subscribe :: "BroadcastChannel \<Rightarrow> nat \<times> BroadcastChannel" where
  "Subscribe b = (bc_next b, b\<lparr>bc_listeners := bc_listeners b @ [bc_next b], bc_next := bc_next b + 1\<rparr>)"

text \<open>The sends of the goroutine of \<^verbatim>\<open>Publish\<close>, in order. Sending on a closed channel and closing it again panic.\<close>

definition Publish :: "'v \<Rightarrow> BroadcastChannel \<Rightarrow> (nat \<times> 'v) list res" where
  "Publish v b = (if \<exists>l \<in> set (bc_listeners b). l \<in> set (bc_closed b) then Panic else Ok (map (\<lambda>l. (l, v)) (bc_listeners b)))"

definition CloseAll :: "BroadcastChannel \<Rightarrow> BroadcastChannel res" where
  "CloseAll b = (if \<exists>l \<in> set (bc_listeners b). l \<in> set (bc_closed b) then Panic
     else Ok (b\<lparr>bc_listeners := [], bc_closed := bc_closed b @ bc_listeners b\<rparr>))"

subsection \<open>wait.go\<close>

text \<open>
  The state of \<^verbatim>\<open>PublishAndWait\<close> for \<open>n\<close> listeners: how many have been handed the answer channel, which of
  them have not answered yet, the results so far, and what was returned.
\<close>

record 'v waiting =
  pw_handed :: nat
  pw_pending :: "nat list"
  pw_results :: "'v list"
  pw_returned :: "('v list \<times> bool) option"

definition start_wait :: "nat \<Rightarrow> 'v waiting" where
  "start_wait n = \<lparr>pw_handed = 0, pw_pending = [], pw_results = [], pw_returned = (if n = 0 then Some ([], False) else None)\<rparr>"

text \<open>
  \<open>alive i\<close> says whether listener \<open>i\<close> still reads its channel, \<open>answer i\<close> is what it sends; it sends once.
\<close>

definition collect :: "nat \<Rightarrow> 'v \<Rightarrow> 'v waiting \<Rightarrow> 'v waiting" where
  "collect n v w = (let results = pw_results w @ [v] in
     w\<lparr>pw_results := results, pw_returned := (if length results = n then Some (results, False) else None)\<rparr>)"

inductive publish_wait :: "nat \<Rightarrow> (nat \<Rightarrow> bool) \<Rightarrow> (nat \<Rightarrow> 'v) \<Rightarrow> 'v waiting \<Rightarrow> bool"
  for n :: nat and alive :: "nat \<Rightarrow> bool" and answer :: "nat \<Rightarrow> 'v" where
  start: "publish_wait n alive answer (start_wait n)"
| hand: "publish_wait n alive answer w \<Longrightarrow> pw_handed w < n \<Longrightarrow> alive (pw_handed w) \<Longrightarrow>
    publish_wait n alive answer (w\<lparr>pw_handed := pw_handed w + 1, pw_pending := pw_pending w @ [pw_handed w]\<rparr>)"
| answer: "publish_wait n alive answer w \<Longrightarrow> pw_returned w = None \<Longrightarrow> i \<in> set (pw_pending w) \<Longrightarrow>
    publish_wait n alive answer (collect n (answer i) (w\<lparr>pw_pending := remove1 i (pw_pending w)\<rparr>))"
| timeout: "publish_wait n alive answer w \<Longrightarrow> pw_returned w = None \<Longrightarrow>
    publish_wait n alive answer (w\<lparr>pw_returned := Some (pw_results w, True)\<rparr>)"

inductive_cases publish_waitE: "publish_wait n alive answer w"

subsection \<open>errorwait.go\<close>

text \<open>\<^verbatim>\<open>errors.Join\<close> drops nil errors and is nil when nothing is left; the errors are kept as a list.\<close>

definition errors_Join :: "go_error option list \<Rightarrow> go_error list option" where
  "errors_Join errs = (let es = [e. Some e \<leftarrow> errs] in if es = [] then None else Some es)"

definition Await :: "go_error option list \<times> bool \<Rightarrow> go_error list option" where
  "Await r = (case r of (errs, timedOut) \<Rightarrow> if timedOut then None else errors_Join errs)"

subsection \<open>What is collected\<close>

text \<open>Every listener that was handed the channel is pending or has been collected, and the call ends with a full set.\<close>

definition wait_inv :: "nat \<Rightarrow> (nat \<Rightarrow> bool) \<Rightarrow> (nat \<Rightarrow> 'v) \<Rightarrow> 'v waiting \<Rightarrow> bool" where
  "wait_inv n alive answer w \<longleftrightarrow> pw_handed w \<le> n \<and> (\<forall>i < pw_handed w. alive i)
     \<and> mset (map answer (pw_pending w)) + mset (pw_results w) = mset (map answer [0..<pw_handed w])
     \<and> length (pw_pending w) + length (pw_results w) = pw_handed w
     \<and> (pw_returned w = None \<longrightarrow> length (pw_results w) < n)
     \<and> (\<forall>vs b. pw_returned w = Some (vs, b) \<longrightarrow> vs = pw_results w \<and> (\<not> b \<longleftrightarrow> length vs = n))"

lemma mset_map_remove1: "i \<in> set xs \<Longrightarrow> mset (map f xs) = add_mset (f i) (mset (map f (remove1 i xs)))"
  by (induction xs) auto

lemma publish_wait_inv: "publish_wait n alive answer w \<Longrightarrow> wait_inv n alive answer w"
proof (induction rule: publish_wait.induct)
  case start
  show ?case by (auto simp: wait_inv_def start_wait_def)
next
  case (hand w)
  then show ?case by (auto simp: wait_inv_def less_Suc_eq)
next
  case (answer w i)
  then have l: "length (pw_results w) < n" "i \<in> set (pw_pending w)" by (auto simp: wait_inv_def)
  have "mset (map answer (pw_pending w)) = add_mset (answer i) (mset (map answer (remove1 i (pw_pending w))))"
    by (rule mset_map_remove1 [OF l(2)])
  moreover from arg_cong [OF this, of size] have "length (pw_pending w) = Suc (length (remove1 i (pw_pending w)))"
    by (simp only: size_add_mset size_mset length_map)
  ultimately show ?case
    using answer.IH l(1) by (simp add: wait_inv_def collect_def Let_def del: mset_map)
next
  case (timeout w)
  then show ?case by (auto simp: wait_inv_def)
qed


text \<open>The collection of all answers is reached when every listener reads its channel.\<close>

lemma await_can_finish:
  assumes "\<forall>i < n. alive i"
  shows "\<exists>w. publish_wait n alive answer w \<and> pw_returned w = Some (map answer [0..<n], False)"
proof -
  have "\<exists>w. publish_wait n alive answer w \<and> pw_handed w = k \<and> pw_pending w = [] \<and> pw_results w = map answer [0..<k]
      \<and> pw_returned w = (if k = n then Some (map answer [0..<n], False) else None)" if "k \<le> n" for k
    using that
  proof (induction k)
    case 0
    show ?case using publish_wait.start [of n alive answer] by (intro exI [of _ "start_wait n"]) (simp add: start_wait_def)
  next
    case (Suc k)
    then obtain w where w: "publish_wait n alive answer w" "pw_handed w = k" "pw_pending w = []" "pw_results w = map answer [0..<k]" "pw_returned w = None"
      by auto
    have "publish_wait n alive answer (w\<lparr>pw_handed := Suc k, pw_pending := [k]\<rparr>)"
      using publish_wait.hand [OF w(1)] w(2,3) Suc.prems assms by simp
    from publish_wait.answer [OF this, of k] w show ?case
      by (intro exI [of _ "collect n (answer k) (w\<lparr>pw_handed := Suc k, pw_pending := []\<rparr>)"]) (auto simp: collect_def Let_def)
  qed
  from this [of n] show ?thesis by auto
qed

definition demo_answers :: "nat \<Rightarrow> go_error option" where
  "demo_answers i = (if i = 0 then None else Some EOF)"


end
