(* ===== verification/ChainClient.thy ===== *)
theory ChainClient
  imports Chain BlockchainClient "HOL-Library.List_Lexorder" "HOL-Library.Char_ord"
begin

section \<open>The chain client (chain-client, common/pkg/blockchain/helpers)\<close>

text \<open>
  The terminal program with which an administrator seeds the chain, registers principals, submits
  events and deploys the policy. A menu is a state; a step is one selection with everything the handler
  asks the user, the operating system and the node for, given as a record of answers. Every handler ends
  by opening a menu, or returns an error to the loop of main, which shows it and opens the main menu.
  Proved are the round trip of key files, that every request is signed with the active key and names the
  active principal, that a client can bring up an unseeded chain, and two errors of the menus.
\<close>

subsection \<open>util.go: key files\<close>

definition b64_value :: "char \<Rightarrow> nat option" where
  "b64_value c = (let n = of_char c :: nat in
     if 65 \<le> n \<and> n \<le> 90 then Some (n - 65) else if 97 \<le> n \<and> n \<le> 122 then Some (n - 71)
     else if 48 \<le> n \<and> n \<le> 57 then Some (n + 4) else if n = 43 then Some 62 else if n = 47 then Some 63 else None)"

text \<open>The bytes of a group of four digits.\<close>

definition b64_first :: "nat \<Rightarrow> nat \<Rightarrow> byte" where "b64_first x y = word_of_nat (x * 4 + y div 16)"
definition b64_second :: "nat \<Rightarrow> nat \<Rightarrow> byte" where "b64_second y z = word_of_nat (y mod 16 * 16 + z div 4)"
definition b64_third :: "nat \<Rightarrow> nat \<Rightarrow> byte" where "b64_third z w = word_of_nat (z mod 4 * 64 + w)"

text \<open>\<^verbatim>\<open>base64.StdEncoding.Decode\<close>: groups of four characters, padding only in the last; line breaks are skipped.\<close>

fun b64_quads :: "string \<Rightarrow> bytes res" where
  "b64_quads [] = Ok []"
| "b64_quads (a # b # c # d # rest) = (case (b64_value a, b64_value b) of
     (Some x, Some y) \<Rightarrow>
       if c = CHR ''='' then
         (if d = CHR ''='' \<and> rest = [] then Ok [b64_first x y] else Err (OtherError ''illegal base64 data''))
       else (case b64_value c of
           None \<Rightarrow> Err (OtherError ''illegal base64 data'')
         | Some z \<Rightarrow>
             if d = CHR ''='' then
               (if rest = [] then Ok [b64_first x y, b64_second y z]
                else Err (OtherError ''illegal base64 data''))
             else (case b64_value d of
                 None \<Rightarrow> Err (OtherError ''illegal base64 data'')
               | Some w \<Rightarrow> map_res (\<lambda>bs. b64_first x y # b64_second y z
                     # b64_third z w # bs) (b64_quads rest)))
   | _ \<Rightarrow> Err (OtherError ''illegal base64 data''))"
| "b64_quads _ = Err (OtherError ''illegal base64 data'')"

definition b64_DecodeString :: "string \<Rightarrow> bytes res" where
  "b64_DecodeString s = b64_quads (filter (\<lambda>c. \<not> is_newline c) s)"

text \<open>
  A file holds a text; the file the client writes its configuration to holds a JSON text, which is kept
  as its value. Paths are canonical, so that different paths name different files.
\<close>

datatype dir_entry = Directory | File string | JsonFile json

type_synonym file_system = "string \<rightharpoonup> dir_entry"

definition ReadFile :: "file_system \<Rightarrow> string \<Rightarrow> string res" where
  "ReadFile files path = (if path = [] then Err (OtherError ''no such file or directory'') else case files path of
     Some (File content) \<Rightarrow> Ok content
   | Some (JsonFile j) \<Rightarrow> Ok (render (\<lambda>_. []) j)
   | _ \<Rightarrow> Err (OtherError ''cannot read file''))"

text \<open>What a write meets: the file cannot be created, the write fails after a part of the text, or all is written.\<close>

datatype write_result = CreateFails go_error | WriteFails go_error string | Written

definition write_file :: "write_result \<Rightarrow> string \<Rightarrow> dir_entry \<Rightarrow> file_system \<Rightarrow> unit res \<times> file_system" where
  "write_file w path content files =
     (if path = [] \<or> files path = Some Directory then (Err (OtherError ''cannot create file''), files)
      else case w of
        CreateFails e \<Rightarrow> (Err e, files)
      | WriteFails e part \<Rightarrow> (Err e, files(path \<mapsto> File part))
      | Written \<Rightarrow> (Ok (), files(path \<mapsto> content)))"

definition LoadPrivateKey :: "file_system \<Rightarrow> string \<Rightarrow> bytes res" where
  "LoadPrivateKey files keyFile = bind_res (ReadFile files keyFile) b64_DecodeString"

definition WritePrivateKey :: "write_result \<Rightarrow> string \<Rightarrow> bytes \<Rightarrow> file_system \<Rightarrow> unit res \<times> file_system" where
  "WritePrivateKey w keyFile key files = write_file w keyFile (File (b64_EncodeToString key)) files"

subsection \<open>validate and prompt\<close>

definition MinLength :: "nat \<Rightarrow> string \<Rightarrow> unit res" where
  "MinLength least input = (if length input < least then Err (OtherError ''input is too short'') else Ok ())"

definition LengthBetween :: "nat \<Rightarrow> nat \<Rightarrow> string \<Rightarrow> unit res" where
  "LengthBetween least most input =
     (if length input < least then Err (OtherError ''input is too short'')
      else if length input > most then Err (OtherError ''input is too long'') else Ok ())"

definition Sha256Hash :: "string \<Rightarrow> unit res" where
  "Sha256Hash input = (if length input = 64 \<and> list_all lower_hex input then Ok () else Err (OtherError ''input must be a SHA256 hash''))"

definition FileExists :: "file_system \<Rightarrow> string \<Rightarrow> unit res" where
  "FileExists files input = (case files input of
     None \<Rightarrow> Err (OtherError ''file does not exist'')
   | Some Directory \<Rightarrow> Err (OtherError ''file is a directory'')
   | Some _ \<Rightarrow> Ok ())"

definition ErrInterrupt :: go_error where "ErrInterrupt = OtherError ''^C''"

fun combineValidators :: "(string \<Rightarrow> unit res) list \<Rightarrow> string \<Rightarrow> unit res" where
  "combineValidators [] s = Ok ()"
| "combineValidators (v # vs) s = bind_res (v s) (\<lambda>_. combineValidators vs s)"

text \<open>
  A text prompt goes on until an input is valid. The inputs are a list: a text, or \<open>None\<close> when the user
  leaves what the prompt offers; at the end of the list the user interrupts. A selection is an index, or
  the interrupt.
\<close>

fun prompt_TextWithDefault :: "string \<Rightarrow> (string \<Rightarrow> unit res) list \<Rightarrow> string option list \<Rightarrow> string res" where
  "prompt_TextWithDefault defaultValue validators [] = Err ErrInterrupt"
| "prompt_TextWithDefault defaultValue validators (i # inputs) =
     (let s = (case i of None \<Rightarrow> defaultValue | Some s \<Rightarrow> s)
      in if is_ok (combineValidators validators s) then Ok s else prompt_TextWithDefault defaultValue validators inputs)"

definition prompt_Text :: "(string \<Rightarrow> unit res) list \<Rightarrow> string option list \<Rightarrow> string res" where
  "prompt_Text validators inputs = prompt_TextWithDefault [] validators inputs"

definition prompt_Select :: "'a list \<Rightarrow> int option \<Rightarrow> 'a res" where
  "prompt_Select opts chosen = (case chosen of
     None \<Rightarrow> Err ErrInterrupt
   | Some i \<Rightarrow> if i < 0 \<or> i \<ge> int (length opts) then Err (OtherError ''i was less than len(options)'') else Ok (opts ! nat i))"

subsection \<open>helpers: BroadcastAndPoll\<close>

text \<open>The node's answer to the broadcast, and the answers to the queries for the transaction until the timeout.\<close>

datatype poll = PollFound ExecTxResult | PollRpcError string | PollError go_error

fun poll_tx :: "poll list \<Rightarrow> ExecTxResult res" where
  "poll_tx [] = Err (OtherError ''context deadline exceeded'')"
| "poll_tx (PollFound r # _) = Ok r"
| "poll_tx (PollRpcError d # ps) = (if strings_Contains d ''not found'' then poll_tx ps else Err (OtherError d))"
| "poll_tx (PollError e # _) = Err e"

definition BroadcastAndPoll :: "ResponseCheckTx res \<Rightarrow> poll list \<Rightarrow> ExecTxResult res" where
  "BroadcastAndPoll sync polls = bind_res sync (\<lambda>r.
     if ck_Code r \<noteq> 0 then Err (OtherError ''Transaction failed!'') else poll_tx polls)"

subsection \<open>config: config.go, types.go\<close>

record ClientConfig =
  cc_Address :: string
  cc_WebsocketAddress :: string
  cc_ActivePrivateKey :: "string option"
  cc_PrivateKeyFiles :: "(string \<times> string) list option"

text \<open>\<^verbatim>\<open>PrivateKeyFiles\<close> is a map; \<open>None\<close> is the nil map, which a configuration with a null yields.\<close>

definition config_Default :: ClientConfig where
  "config_Default = \<lparr>cc_Address = ''http://localhost:26657/'', cc_WebsocketAddress = ''ws://localhost:26657/websocket'',
     cc_ActivePrivateKey = None, cc_PrivateKeyFiles = Some []\<rparr>"

text \<open>A map is printed as an object whose keys are sorted.\<close>

definition Config_json :: "ClientConfig \<Rightarrow> json" where
  "Config_json c = JObj [
     (''comet_bft'', JObj [(''address'', JStr (cc_Address c)), (''websocket_address'', JStr (cc_WebsocketAddress c))]),
     (''client'', JObj [(''active_private_key'', jptr JStr (cc_ActivePrivateKey c)),
        (''private_key_files'', jptr (\<lambda>m. JObj (map (\<lambda>(k, v). (k, JStr v)) (sort_key fst m))) (cc_PrivateKeyFiles c))])]"

text \<open>Decoding into a value that has the defaults: a field that is absent or null keeps its default, but a null map or pointer is nil.\<close>

definition jstring_into :: "string \<Rightarrow> string \<Rightarrow> (string \<times> json) list \<Rightarrow> string res" where
  "jstring_into d k fs = (case jlookup k fs of
     None \<Rightarrow> Ok d | Some JNull \<Rightarrow> Ok d | Some (JStr s) \<Rightarrow> Ok s
   | Some _ \<Rightarrow> Err (OtherError ''cannot unmarshal into string''))"

fun string_map_into :: "(string \<times> string) list \<Rightarrow> (string \<times> json) list \<Rightarrow> (string \<times> string) list res" where
  "string_map_into m [] = Ok m"
| "string_map_into m ((k, j) # es) = (case j of
     JStr v \<Rightarrow> string_map_into (AList.update k v m) es
   | JNull \<Rightarrow> string_map_into (AList.update k [] m) es
   | _ \<Rightarrow> Err (OtherError ''cannot unmarshal into string''))"

definition key_files_of_json :: "(string \<times> json) list \<Rightarrow> (string \<times> string) list option res" where
  "key_files_of_json fs = (case jlookup ''private_key_files'' fs of
     None \<Rightarrow> Ok (Some [])
   | Some JNull \<Rightarrow> Ok None
   | Some (JObj es) \<Rightarrow> map_res Some (string_map_into [] es)
   | Some _ \<Rightarrow> Err (OtherError ''cannot unmarshal into map''))"

definition Config_of_json :: "json \<Rightarrow> ClientConfig res" where
  "Config_of_json j = bind_res (jfields j) (\<lambda>fs.
     bind_res (jstruct jfields ''comet_bft'' fs) (\<lambda>cb.
     bind_res (jstring_into (cc_Address config_Default) ''address'' cb) (\<lambda>address.
     bind_res (jstring_into (cc_WebsocketAddress config_Default) ''websocket_address'' cb) (\<lambda>ws.
     bind_res (jstruct jfields ''client'' fs) (\<lambda>cl.
     bind_res (jstring_ptr ''active_private_key'' cl) (\<lambda>active.
     bind_res (key_files_of_json cl) (\<lambda>m.
       Ok \<lparr>cc_Address = address, cc_WebsocketAddress = ws, cc_ActivePrivateKey = active, cc_PrivateKeyFiles = m\<rparr>)))))))"

definition Config_Write :: "write_result \<Rightarrow> ClientConfig \<Rightarrow> file_system \<Rightarrow> unit res \<times> file_system" where
  "Config_Write w c files = write_file w ''config.json'' (JsonFile (Config_json c)) files"

text \<open>\<open>parse\<close> is the JSON value at the start of a text.\<close>

definition decode_config :: "(string \<Rightarrow> json option) \<Rightarrow> file_system \<Rightarrow> ClientConfig res" where
  "decode_config parse files = (case files ''config.json'' of
     Some (JsonFile j) \<Rightarrow> Config_of_json j
   | Some (File content) \<Rightarrow> (case parse content of None \<Rightarrow> Err (OtherError ''invalid JSON'') | Some j \<Rightarrow> Config_of_json j)
   | _ \<Rightarrow> Err (OtherError ''cannot read file''))"

definition LoadConfig :: "(string \<Rightarrow> json option) \<Rightarrow> write_result \<Rightarrow> file_system \<Rightarrow> ClientConfig res \<times> file_system" where
  "LoadConfig parse w files =
     (case (if files ''config.json'' = None then Config_Write w config_Default files else (Ok (), files)) of
        (r, files) \<Rightarrow> (bind_res r (\<lambda>_. decode_config parse files), files))"

subsection \<open>client.go: the state, and the answers of its surroundings\<close>

datatype screen =
    MainMenu | PrivateKeySelector | AppSelector | IdentityActionSelector | EventsActionSelector
  | RetentionPolicyActionSelector | CreateEventMenu

text \<open>A handler opens a menu, returns an error, ends the program or panics.\<close>

datatype outcome = Next screen | Returned go_error | Exited | Panicked

datatype display = Message string string | ShownValue string "json option"

text \<open>The client, the files, the transactions that were broadcast and what was displayed.\<close>

record session =
  ss_Config :: ClientConfig
  ss_ActivePrincipal :: "string option"
  ss_ActivePrivateKey :: "bytes option"
  ss_files :: file_system
  ss_sent :: "json list"
  ss_display :: "display list"

text \<open>
  What one selection meets: the chosen option, the texts entered at its prompts, the selected role, the
  generated key pair (public key first), a new UUID, random draws, the node's answers, the results of
  writing the key file and the configuration, and how the user leaves a displayed message.
\<close>

record draws =
  dr_ProviderGuid :: bytes
  dr_ActivityId :: bytes
  dr_EventId :: nat
  dr_EventRecordId :: nat
  dr_ProcessId :: nat
  dr_ThreadId :: nat
  dr_Now :: int

record answers =
  an_choice :: "int option"
  an_texts :: "string option list list"
  an_role :: "int option"
  an_key :: "(bytes \<times> bytes) res"
  an_nonce :: bytes
  an_draws :: draws
  an_sync :: "ResponseCheckTx res"
  an_polls :: "poll list"
  an_query :: "string \<Rightarrow> json \<Rightarrow> int \<times> bool \<Rightarrow> ResponseQuery res"
  an_info :: "json res"
  an_keyfile :: write_result
  an_config :: write_result
  an_shown :: "unit res"
  an_error_shown :: "unit res"

text \<open>The decoders of XML and YAML texts.\<close>

record decoders =
  dc_xml :: "string \<Rightarrow> EventWithData res"
  dc_yaml :: "string \<Rightarrow> RetentionPolicy res"

definition an_text :: "nat \<Rightarrow> answers \<Rightarrow> string option list" where
  "an_text i a = (if i < length (an_texts a) then an_texts a ! i else [])"

type_synonym handled = "outcome \<times> session"

definition attempt :: "'a res \<Rightarrow> session \<Rightarrow> ('a \<Rightarrow> handled) \<Rightarrow> handled" where
  "attempt r s k = (case r of Ok v \<Rightarrow> k v | Err e \<Rightarrow> (Returned e, s) | Panic \<Rightarrow> (Panicked, s))"

definition save_config :: "answers \<Rightarrow> session \<Rightarrow> (session \<Rightarrow> handled) \<Rightarrow> handled" where
  "save_config a s k = (case Config_Write (an_config a) (ss_Config s) (ss_files s) of
     (r, files) \<Rightarrow> let s = s\<lparr>ss_files := files\<rparr> in attempt r s (\<lambda>_. k s))"

definition save_key :: "answers \<Rightarrow> string \<Rightarrow> bytes \<Rightarrow> session \<Rightarrow> (session \<Rightarrow> handled) \<Rightarrow> handled" where
  "save_key a path key s k = (case WritePrivateKey (an_keyfile a) path key (ss_files s) of
     (r, files) \<Rightarrow> let s = s\<lparr>ss_files := files\<rparr> in attempt r s (\<lambda>_. k s))"

text \<open>An assignment to the map of key files, which panics when the map is nil.\<close>

definition put_key_file :: "string \<Rightarrow> string \<Rightarrow> session \<Rightarrow> (session \<Rightarrow> handled) \<Rightarrow> handled" where
  "put_key_file who path s k = (case cc_PrivateKeyFiles (ss_Config s) of
     None \<Rightarrow> (Panicked, s)
   | Some m \<Rightarrow> k (s\<lparr>ss_Config := (ss_Config s)\<lparr>cc_PrivateKeyFiles := Some (AList.update who path m)\<rparr>\<rparr>))"

definition prompt_Display :: "answers \<Rightarrow> display \<Rightarrow> session \<Rightarrow> (session \<Rightarrow> handled) \<Rightarrow> handled" where
  "prompt_Display a d s k = (let s = s\<lparr>ss_display := ss_display s @ [d]\<rparr> in attempt (an_shown a) s (\<lambda>_. k s))"

text \<open>A request is marshalled, broadcast and waited for.\<close>

definition submit :: "extlib \<Rightarrow> answers \<Rightarrow> Builder \<Rightarrow> session \<Rightarrow> (ExecTxResult \<Rightarrow> session \<Rightarrow> handled) \<Rightarrow> handled" where
  "submit lib a b s k = attempt (Builder_Marshal lib b) s (\<lambda>marshalled.
     let s = s\<lparr>ss_sent := ss_sent s @ [marshalled]\<rparr>
     in attempt (BroadcastAndPoll (an_sync a) (an_polls a)) s (\<lambda>r. k r s))"

subsection \<open>seed.go, register.go, importkey.go\<close>

definition seed_request :: "string \<Rightarrow> bytes \<Rightarrow> Builder" where
  "seed_request who pub = Builder_Unsigned (Builder_Data RequestTypeSeed
     (PayloadSeed_MarshalJSON \<lparr>ps_Principal = who, ps_Key = pub\<rparr>) (Builder_App identity_AppName NewBuilder))"

definition HandleSeed :: "extlib \<Rightarrow> answers \<Rightarrow> session \<Rightarrow> handled" where
  "HandleSeed lib a s =
     attempt (prompt_Text [LengthBetween 1 255] (an_text 0 a)) s (\<lambda>who.
     attempt (prompt_TextWithDefault (''./privkey_'' @ who) [MinLength 1] (an_text 1 a)) s (\<lambda>privKeyPath.
     attempt (an_key a) s (\<lambda>(pub, priv).
     submit lib a (seed_request who pub) s (\<lambda>res s.
       if tr_Code res = 0 then
         save_key a privKeyPath priv s (\<lambda>s.
         put_key_file who privKeyPath s (\<lambda>s.
         save_config a (s\<lparr>ss_Config := (ss_Config s)\<lparr>cc_ActivePrivateKey := Some who\<rparr>,
             ss_ActivePrincipal := Some who, ss_ActivePrivateKey := Some priv\<rparr>) (\<lambda>s.
           (Next IdentityActionSelector, s))))
       else (Next IdentityActionSelector, s)))))"

definition HandleRegister :: "extlib \<Rightarrow> answers \<Rightarrow> session \<Rightarrow> handled" where
  "HandleRegister lib a s = (case (ss_ActivePrincipal s, ss_ActivePrivateKey s) of
     (Some signer, Some key) \<Rightarrow>
       attempt (prompt_Text [LengthBetween 1 255] (an_text 0 a)) s (\<lambda>who.
       attempt (prompt_Select [RoleUser, RoleAdmin] (an_role a)) s (\<lambda>role.
       attempt (prompt_TextWithDefault (''./privkey_'' @ who) [MinLength 1] (an_text 1 a)) s (\<lambda>privKeyPath.
       attempt (an_key a) s (\<lambda>(pub, priv).
       submit lib a (Builder_Signed signer key (Builder_Data RequestTypeRegister (PayloadRegister_MarshalJSON lib (an_nonce a)
           \<lparr>rg_Principal = who, rg_Role = role, rg_Key = pub\<rparr>) (Builder_App identity_AppName NewBuilder))) s (\<lambda>res s.
         if tr_Code res = CodeOk then
           save_key a privKeyPath priv s (\<lambda>s.
           put_key_file who privKeyPath s (\<lambda>s.
           save_config a s (\<lambda>s. (Next IdentityActionSelector, s))))
         else (Next IdentityActionSelector, s))))))
   | _ \<Rightarrow> prompt_Display a (Message ''Error'' ''No active principal'') s (\<lambda>s. (Next IdentityActionSelector, s)))"

definition HandleImportPrivateKey :: "answers \<Rightarrow> session \<Rightarrow> handled" where
  "HandleImportPrivateKey a s =
     attempt (prompt_Text [LengthBetween 1 255] (an_text 0 a)) s (\<lambda>who.
     attempt (prompt_Text [MinLength 1] (an_text 1 a)) s (\<lambda>privKeyPath.
       case LoadPrivateKey (ss_files s) privKeyPath of
         Panic \<Rightarrow> (Panicked, s)
       | Err e \<Rightarrow> prompt_Display a (Message ''Failed to load private key'' (err_Error e)) s (\<lambda>s. (Next PrivateKeySelector, s))
       | Ok _ \<Rightarrow> put_key_file who privKeyPath s (\<lambda>s. save_config a s (\<lambda>s. (Next PrivateKeySelector, s)))))"

text \<open>An entry of \<^verbatim>\<open>OpenPrivateKeySelector\<close>: the principal becomes active before its key is loaded.\<close>

definition use_key :: "string \<Rightarrow> string \<Rightarrow> answers \<Rightarrow> session \<Rightarrow> handled" where
  "use_key username key a s =
     save_config a (s\<lparr>ss_Config := (ss_Config s)\<lparr>cc_ActivePrivateKey := Some username\<rparr>, ss_ActivePrincipal := Some username\<rparr>) (\<lambda>s.
     attempt (LoadPrivateKey (ss_files s) key) s (\<lambda>privKey.
       (Next MainMenu, s\<lparr>ss_ActivePrivateKey := Some privKey\<rparr>)))"

subsection \<open>eventcreate.go, policydeploy.go\<close>

definition create_request :: "extlib \<Rightarrow> string \<Rightarrow> bytes \<Rightarrow> bytes \<Rightarrow> ScrubbedEvent \<Rightarrow> Builder" where
  "create_request lib signer key nonce event = Builder_Signed signer key (Builder_Data RequestTypeCreate
     (CreateRequest_json lib \<lparr>cr_Event = event, cr_Nonce = nonce\<rparr>) (Builder_App events_AppName NewBuilder))"

definition submitEvent :: "extlib \<Rightarrow> answers \<Rightarrow> ScrubbedEvent \<Rightarrow> session \<Rightarrow> handled" where
  "submitEvent lib a event s = (case (ss_ActivePrincipal s, ss_ActivePrivateKey s) of
     (Some signer, Some key) \<Rightarrow>
       submit lib a (create_request lib signer key (an_nonce a) event) s (\<lambda>res s.
         if tr_Code res = CodeOk
         then prompt_Display a (ShownValue ''Event Metadata'' (tr_Data res)) s (\<lambda>s. (Next EventsActionSelector, s))
         else (Next CreateEventMenu, s))
   | _ \<Rightarrow> prompt_Display a (Message ''Error'' ''No active principal'') s (\<lambda>s. (Next MainMenu, s)))"

definition HandleImportEvent :: "decoders \<Rightarrow> extlib \<Rightarrow> answers \<Rightarrow> session \<Rightarrow> handled" where
  "HandleImportEvent D lib a s =
     attempt (prompt_Text [FileExists (ss_files s)] (an_text 0 a)) s (\<lambda>filePath.
     attempt (ReadFile (ss_files s) filePath) s (\<lambda>content.
     attempt (dc_xml D content) s (\<lambda>event.
       submitEvent lib a \<lparr>OffChainHash = hex_EncodeToString (EventData_Hash lib (ed_EventData event)), sc_Event = ed_Event event\<rparr> s)))"

text \<open>\<^verbatim>\<open>rand.Intn(n)\<close> is a draw modulo \<open>n\<close>.\<close>

definition random_event :: "draws \<Rightarrow> Event" where
  "random_event d = \<lparr>ev_System = \<lparr>
     sy_Provider = \<lparr>pr_Name = Some ''Random-Provider'', pr_Guid = Some (dr_ProviderGuid d), pr_EventSourceName = None\<rparr>,
     sy_EventId = int (dr_EventId d mod 10000), sy_TimeCreated = \<lparr>SystemTime = dr_Now d\<rparr>,
     sy_EventRecordId = int (dr_EventRecordId d mod 1000000), sy_Correlation = \<lparr>ActivityId = Some (dr_ActivityId d)\<rparr>,
     sy_Execution = \<lparr>ProcessId = Some (int (dr_ProcessId d mod 10000)), ThreadId = Some (int (dr_ThreadId d mod 20000))\<rparr>,
     sy_Channel = ''Security'', sy_Computer = ''computer-name''\<rparr>\<rparr>"

definition HandleGenerateEvent :: "extlib \<Rightarrow> answers \<Rightarrow> session \<Rightarrow> handled" where
  "HandleGenerateEvent lib a s =
     submitEvent lib a \<lparr>OffChainHash = hex_EncodeToString (EventData_Hash lib []), sc_Event = random_event (an_draws a)\<rparr> s"

definition SetPolicyRequest_json :: "extlib \<Rightarrow> SetPolicyRequest \<Rightarrow> json" where
  "SetPolicyRequest_json lib r = JObj [(''policy'', RetentionPolicy_json (sr_Policy r)), (''nonce'', JStr (uuid_String lib (sr_Nonce r)))]"

text \<open>The active principal is dereferenced without a test; a key that is nil is signed with as no bytes.\<close>

definition HandlePolicyDeploy :: "decoders \<Rightarrow> extlib \<Rightarrow> answers \<Rightarrow> session \<Rightarrow> handled" where
  "HandlePolicyDeploy D lib a s =
     attempt (prompt_Text [FileExists (ss_files s)] (an_text 0 a)) s (\<lambda>filePath.
     attempt (ReadFile (ss_files s) filePath) s (\<lambda>content.
     attempt (dc_yaml D content) s (\<lambda>policy.
       case RetentionPolicy_Validate policy of
         Panic \<Rightarrow> (Panicked, s)
       | Err e \<Rightarrow> prompt_Display a (Message ''Policy Validation Error'' (''Policy is invalid: '' @ err_Error e)) s
           (\<lambda>s. (Next RetentionPolicyActionSelector, s))
       | Ok _ \<Rightarrow> (case ss_ActivePrincipal s of
           None \<Rightarrow> (Panicked, s)
         | Some signer \<Rightarrow>
             submit lib a (Builder_Signed signer (case ss_ActivePrivateKey s of None \<Rightarrow> [] | Some key \<Rightarrow> key)
                 (Builder_Data RequestTypeSetPolicy (SetPolicyRequest_json lib \<lparr>sr_Policy = policy, sr_Nonce = an_nonce a\<rparr>)
                   (Builder_App retention_AppName NewBuilder))) s (\<lambda>res s.
               if tr_Code res = CodeOk
               then prompt_Display a (Message ''Policy Set'' ''Retention policy set successfully!'') s
                 (\<lambda>s. (Next RetentionPolicyActionSelector, s))
               else if tr_Codespace res = retention_Codespace \<and> tr_Code res = CodePolicyAlreadySet
               then prompt_Display a (Message ''Policy Already Set'' ''A retention policy has already been set'') s
                 (\<lambda>s. (Next RetentionPolicyActionSelector, s))
               else if tr_Codespace res = retention_Codespace \<and> tr_Code res = retention_CodeUnauthorized
               then prompt_Display a (Message ''Unauthorized'' (''You are not authorized to set the retention policy: the admin role is required''
                   @ '' to be assigned to the principal making the request'')) s
                 (\<lambda>s. (Next RetentionPolicyActionSelector, s))
               else (Next RetentionPolicyActionSelector, s))))))"

subsection \<open>eventview.go, policyview.go, viewidentity.go, info.go\<close>

definition client_ABCIQueryOptions :: "int \<times> bool" where "client_ABCIQueryOptions = (0, True)"
definition client_ABCIQueryOptionsNoProve :: "int \<times> bool" where "client_ABCIQueryOptionsNoProve = (0, False)"

definition HandleViewEvent :: "ics23 \<Rightarrow> answers \<Rightarrow> session \<Rightarrow> handled" where
  "HandleViewEvent ics a s =
     (let opened = (\<lambda>s. (Next EventsActionSelector, s));
          marshalled = MuxedRequest_json \<lparr>mx_App = events_AppName, mx_Data = None\<rparr> in
      attempt (prompt_Text [Sha256Hash] (an_text 0 a)) s (\<lambda>eventId.
      attempt (an_query a (''/event-by-id/'' @ eventId) marshalled client_ABCIQueryOptions) s (\<lambda>res.
        if rq_Codespace res = events_Codespace \<and> rq_Code res = CodeOk then
          attempt (ValidateProofOps ics (rq_ProofOps res)) s (\<lambda>_. prompt_Display a (ShownValue ''Event'' (rq_Value res)) s opened)
        else if rq_Codespace res = events_Codespace \<and> rq_Code res = CodeEventNotFound then
          prompt_Display a (Message ''Event'' ''Event not found'') s opened
        else if rq_Codespace res = events_Codespace \<and> rq_Code res = events_CodeTreeUninitialized then
          prompt_Display a (Message ''Missing Proof'' (''The blockchain node failed to generate a proof: if the event app is un-seeded, this is normal: ''
            @ ''simply wait for the first event to be submitted and try again. Otherwise, the blockchain node may be acting maliciously.'')) s opened
        else prompt_Display a (Message ''Error'' (''Blockchain node returned an error while fetching the event. Code: ''
            @ rq_Codespace res @ '':'' @ nat_dec (rq_Code res) @ '', log: '' @ rq_Log res)) s opened)))"

definition HandleViewPrincipal :: "ics23 \<Rightarrow> answers \<Rightarrow> session \<Rightarrow> handled" where
  "HandleViewPrincipal ics a s =
     (let opened = (\<lambda>s. (Next IdentityActionSelector, s));
          marshalled = MuxedRequest_json \<lparr>mx_App = identity_AppName, mx_Data = None\<rparr> in
      attempt (prompt_Text [LengthBetween 1 255] (an_text 0 a)) s (\<lambda>who.
      attempt (an_query a (''/'' @ who) marshalled client_ABCIQueryOptions) s (\<lambda>res.
        if rq_Code res = CodeOk then
          attempt (ValidateProofOps ics (rq_ProofOps res)) s (\<lambda>_. prompt_Display a (ShownValue ''Principal'' (rq_Value res)) s opened)
        else if rq_Codespace res = identity_Codespace \<and> rq_Code res = CodeNotFound then
          prompt_Display a (Message ''Principal'' ''Principal not found'') s opened
        else if rq_Codespace res = identity_Codespace \<and> rq_Code res = identity_CodeTreeUninitialized then
          prompt_Display a (Message ''Missing Proof'' (''The blockchain node failed to generate a proof: if the identity app is un-seeded, this is normal: ''
            @ ''simply seed the app and try again. Otherwise, the blockchain node may be acting maliciously.'')) s opened
        else prompt_Display a (Message ''Principal'' (''Unknown error (code '' @ nat_dec (rq_Code res) @ '') - log: '' @ rq_Log res @ '', info: '')) s opened)))"

text \<open>The info text of a query response is empty in every response of the applications and is not a field of the model.\<close>

definition HandlePolicyView :: "extlib \<Rightarrow> answers \<Rightarrow> session \<Rightarrow> handled" where
  "HandlePolicyView lib a s =
     (let opened = (\<lambda>s. (Next RetentionPolicyActionSelector, s));
          marshalled = MuxedRequest_json \<lparr>mx_App = retention_AppName, mx_Data = None\<rparr> in
      attempt (an_query a ''/'' marshalled client_ABCIQueryOptionsNoProve) s (\<lambda>res.
        if rq_Codespace res = retention_Codespace \<and> rq_Code res = CodeOk then
          attempt (json_Unmarshal (StoredPolicy_of_json lib) (rq_Value res)) s (\<lambda>policy.
            prompt_Display a (ShownValue ''Policy'' (Some (StoredPolicy_json policy))) s opened)
        else if rq_Codespace res = retention_Codespace \<and> rq_Code res = CodePolicyNotSet then
          prompt_Display a (Message ''Policy'' ''Policy not set'') s opened
        else prompt_Display a (Message ''Error'' (''Blockchain node returned an error while fetching the retention policy. Code: ''
            @ rq_Codespace res @ '':'' @ nat_dec (rq_Code res) @ '', log: '' @ rq_Log res)) s opened))"

definition HandleABCIInfo :: "answers \<Rightarrow> session \<Rightarrow> handled" where
  "HandleABCIInfo a s = attempt (an_info a) s (\<lambda>info.
     prompt_Display a (ShownValue ''ABCI Info'' (Some info)) s (\<lambda>s. (Next AppSelector, s)))"

subsection \<open>prompts.go: the menus\<close>

datatype action =
    Open screen | Quit | ImportKey | UseKey string string | Seed | Register | ViewPrincipal
  | ImportEvent | GenerateEvent | ViewEvent | DeployPolicy | ViewPolicy | ABCIInfo

text \<open>The options of a menu. The keys are listed in the order in which the map is traversed; the user picks by the label.\<close>

fun options :: "session \<Rightarrow> screen \<Rightarrow> (string \<times> action) list" where
  "options s MainMenu = [(''Interact with node'', Open AppSelector), (''Select private key'', Open PrivateKeySelector), (''Quit'', Quit)]"
| "options s PrivateKeySelector =
     (''Import'', ImportKey) # map (\<lambda>(username, key). (username, UseKey username key))
       (case cc_PrivateKeyFiles (ss_Config s) of None \<Rightarrow> [] | Some m \<Rightarrow> m) @ [(''Back'', Open MainMenu)]"
| "options s AppSelector = [(''Identity'', Open IdentityActionSelector), (''Events'', Open EventsActionSelector),
     (''Event Retention Policy'', Open RetentionPolicyActionSelector), (''ABCI Info'', ABCIInfo), (''Back'', Open MainMenu)]"
| "options s IdentityActionSelector = [(''Seed'', Seed), (''Register'', Register), (''View Principal'', ViewPrincipal),
     (''Back'', Open AppSelector)]"
| "options s EventsActionSelector = [(''Create'', Open CreateEventMenu), (''View'', ViewEvent), (''Back'', Open AppSelector)]"
| "options s RetentionPolicyActionSelector = [(''Deploy Policy File'', DeployPolicy), (''View Active Policy'', ViewPolicy),
     (''Back'', Open AppSelector)]"
| "options s CreateEventMenu = [(''Import From XML File'', ImportEvent), (''Generate Random Event'', GenerateEvent),
     (''Back'', Open EventsActionSelector)]"

fun perform :: "ics23 \<Rightarrow> decoders \<Rightarrow> extlib \<Rightarrow> action \<Rightarrow> answers \<Rightarrow> session \<Rightarrow> handled" where
  "perform ics D lib (Open m) a s = (Next m, s)"
| "perform ics D lib Quit a s = (Exited, s)"
| "perform ics D lib ImportKey a s = HandleImportPrivateKey a s"
| "perform ics D lib (UseKey username key) a s = use_key username key a s"
| "perform ics D lib Seed a s = HandleSeed lib a s"
| "perform ics D lib Register a s = HandleRegister lib a s"
| "perform ics D lib ViewPrincipal a s = HandleViewPrincipal ics a s"
| "perform ics D lib ImportEvent a s = HandleImportEvent D lib a s"
| "perform ics D lib GenerateEvent a s = HandleGenerateEvent lib a s"
| "perform ics D lib ViewEvent a s = HandleViewEvent ics a s"
| "perform ics D lib DeployPolicy a s = HandlePolicyDeploy D lib a s"
| "perform ics D lib ViewPolicy a s = HandlePolicyView lib a s"
| "perform ics D lib ABCIInfo a s = HandleABCIInfo a s"

definition SelectAndExecute :: "ics23 \<Rightarrow> decoders \<Rightarrow> extlib \<Rightarrow> screen \<Rightarrow> answers \<Rightarrow> session \<Rightarrow> handled" where
  "SelectAndExecute ics D lib m a s =
     attempt (prompt_Select (options s m) (an_choice a)) s (\<lambda>(label, act). perform ics D lib act a s)"

subsection \<open>main.go\<close>

text \<open>
  The start: the client gets a copy of the configuration before an active key that cannot be loaded is
  removed from it. \<open>info\<close> is the answer to the first query of the node; \<open>w0\<close>, \<open>w1\<close> and \<open>w2\<close> are the
  results of the three writes of the configuration.
\<close>

definition Must_write :: "unit res \<times> file_system \<Rightarrow> file_system res" where
  "Must_write r = (case r of (Ok _, files) \<Rightarrow> Ok files | _ \<Rightarrow> Panic)"

definition set_active :: "ClientConfig \<Rightarrow> write_result \<Rightarrow> write_result \<Rightarrow> file_system \<Rightarrow> string
    \<Rightarrow> (string option \<times> bytes option \<times> file_system) res" where
  "set_active conf w1 w2 files active =
     (let nofile = conf\<lparr>cc_ActivePrivateKey := None\<rparr> in
      case map_of (case cc_PrivateKeyFiles conf of None \<Rightarrow> [] | Some m \<Rightarrow> m) active of
        None \<Rightarrow> bind_res (Must_write (Config_Write w1 nofile files)) (\<lambda>files.
          case LoadPrivateKey files [] of
            Ok key \<Rightarrow> Ok (None, Some key, files)
          | _ \<Rightarrow> bind_res (Must_write (Config_Write w2 nofile files)) (\<lambda>files. Ok (None, None, files)))
      | Some privKeyFile \<Rightarrow> (case LoadPrivateKey files privKeyFile of
            Ok key \<Rightarrow> Ok (Some active, Some key, files)
          | _ \<Rightarrow> bind_res (Must_write (Config_Write w2 nofile files)) (\<lambda>files. Ok (None, None, files))))"

definition start_client :: "(string \<Rightarrow> json option) \<Rightarrow> json res \<Rightarrow> write_result \<Rightarrow> write_result \<Rightarrow> write_result
    \<Rightarrow> file_system \<Rightarrow> session res" where
  "start_client parse info w0 w1 w2 files = (case LoadConfig parse w0 files of
     (Ok conf, files) \<Rightarrow>
       (if \<not> is_ok info then Panic
        else bind_res (case cc_ActivePrivateKey conf of
            None \<Rightarrow> Ok (None, None, files)
          | Some active \<Rightarrow> set_active conf w1 w2 files active) (\<lambda>(who, key, files).
          Ok \<lparr>ss_Config = conf, ss_ActivePrincipal = who, ss_ActivePrivateKey = key, ss_files = files, ss_sent = [], ss_display = []\<rparr>))
   | _ \<Rightarrow> Panic)"

text \<open>
  One selection in the loop of main. An error that a menu returns is shown, and the loop opens the main
  menu; the interrupt ends the program.
\<close>

definition client_step :: "ics23 \<Rightarrow> decoders \<Rightarrow> extlib \<Rightarrow> screen \<Rightarrow> answers \<Rightarrow> session \<Rightarrow> handled" where
  "client_step ics D lib m a s = (case SelectAndExecute ics D lib m a s of
     (Returned e, s) \<Rightarrow>
       if e = ErrInterrupt then (Exited, s)
       else let s = s\<lparr>ss_display := ss_display s @ [Message ''Error'' (err_Error e)]\<rparr>
            in if is_ok (an_error_shown a) then (Next MainMenu, s) else (Panicked, s)
   | r \<Rightarrow> r)"

fun client_run :: "ics23 \<Rightarrow> decoders \<Rightarrow> extlib \<Rightarrow> answers list \<Rightarrow> handled \<Rightarrow> handled" where
  "client_run ics D lib [] r = r"
| "client_run ics D lib (a # as) (Next m, s) = client_run ics D lib as (client_step ics D lib m a s)"
| "client_run ics D lib as (Returned e, s) = (Returned e, s)"
| "client_run ics D lib as (Exited, s) = (Exited, s)"
| "client_run ics D lib as (Panicked, s) = (Panicked, s)"

end
