(* ===== verification/ClientSession.thy ===== *)
theory ClientSession
  imports ChainClient
begin

section \<open>Sessions of the chain client\<close>

text \<open>
  What the handlers of \<^verbatim>\<open>ChainClient\<close> guarantee: key files and configurations survive a restart, every
  request is signed with the active key in the name of the active principal, and a client brings up a
  chain that nobody has seeded. Two errors of the code are theorems too: the choice of a key file that
  cannot be read leaves a principal with the key of another one, and deploying a policy without an active
  principal ends the program.
\<close>

subsection \<open>Key files\<close>

lemma b64_value_char [simp]: "n < 64 \<Longrightarrow> b64_value (b64_char n) = Some n"
  by (auto simp: b64_value_def b64_char_def Let_def)

lemma b64_char_plain [simp]: "n < 64 \<Longrightarrow> b64_char n \<noteq> CHR ''=''" "n < 64 \<Longrightarrow> \<not> is_newline (b64_char n)"
proof -
  assume n: "n < 64"
  have "\<not> is_b64 (CHR ''='')" "\<And>c. is_newline c \<Longrightarrow> \<not> is_b64 c" by (auto simp: is_b64_def is_newline_def Let_def)
  with is_b64_char [OF n] show "b64_char n \<noteq> CHR ''=''" "\<not> is_newline (b64_char n)" by metis+
qed

lemma b64_bytes [simp]:
  "b64_first (unat a div 4) (unat a mod 4 * 16 + unat (b :: byte) div 16) = a"
  "b64_first (unat a div 4) (unat a mod 4 * 16) = a"
  "b64_second (unat a mod 4 * 16 + unat b div 16) (unat b mod 16 * 4 + unat (c :: byte) div 64) = b"
  "b64_second (unat a mod 4 * 16 + unat b div 16) (unat b mod 16 * 4) = b"
  "b64_third (unat b mod 16 * 4 + unat c div 64) (unat c mod 64) = c"
proof -
  have u: "unat a < 256" "unat b < 256" "unat c < 256" by (simp_all add: unat_word_bounds)
  have r: "word_of_nat n = x" if "n = unat x" for n and x :: byte using that by simp
  have d: "unat b div 16 < 16" "unat c div 64 < 4" using u by linarith+
  show "b64_first (unat a div 4) (unat a mod 4 * 16 + unat (b :: byte) div 16) = a"
    "b64_first (unat a div 4) (unat a mod 4 * 16) = a"
    "b64_second (unat a mod 4 * 16 + unat b div 16) (unat b mod 16 * 4 + unat (c :: byte) div 64) = b"
    "b64_second (unat a mod 4 * 16 + unat b div 16) (unat b mod 16 * 4) = b"
    "b64_third (unat b mod 16 * 4 + unat c div 64) (unat c mod 64) = c"
    unfolding b64_first_def b64_second_def b64_third_def using d by (intro r; simp)+
qed

lemma b64_quads_roundtrip: "b64_quads (b64_EncodeToString key) = Ok key"
  by (induction key rule: b64_EncodeToString.induct) simp_all

lemma b64_newlines: "filter (\<lambda>c. \<not> is_newline c) (b64_EncodeToString key) = b64_EncodeToString key"
proof -
  have "\<not> is_newline (CHR ''='')" by (simp add: is_newline_def)
  then show ?thesis by (induction key rule: b64_EncodeToString.induct) simp_all
qed

interpretation key_text: codec b64_EncodeToString b64_DecodeString "\<lambda>_. True"
  by unfold_locales (simp add: b64_DecodeString_def b64_newlines b64_quads_roundtrip)

lemma LoadPrivateKey_written: "path \<noteq> [] \<Longrightarrow> files path = Some (File (b64_EncodeToString key)) \<Longrightarrow> LoadPrivateKey files path = Ok key"
  by (simp add: LoadPrivateKey_def ReadFile_def key_text.dec_enc)

lemma LoadPrivateKey_other [simp]: "path \<noteq> q \<Longrightarrow> LoadPrivateKey (files(q \<mapsto> c)) path = LoadPrivateKey files path"
  by (simp add: LoadPrivateKey_def ReadFile_def)

lemma write_file_Ok:
  "write_file w path c files = (Ok (), files') \<longleftrightarrow> path \<noteq> [] \<and> files path \<noteq> Some Directory \<and> w = Written \<and> files' = files(path \<mapsto> c)"
  by (cases w) (auto simp: write_file_def)

subsection \<open>Configurations\<close>

lemma string_map_into_strings:
  "string_map_into m (map (\<lambda>(k, v). (k, JStr v)) es) = Ok (fold (\<lambda>(k, v). AList.update k v) es m)"
  by (induction es arbitrary: m) auto

lemma map_of_fold_AList_update:
  "map_of (fold (\<lambda>(k, v). AList.update k v) es m) = map_of m ++ map_of (rev es)"
  by (induction es arbitrary: m) (auto simp: update_conv' map_add_def fun_eq_iff split: option.split)

text \<open>The map of key files is read back as it was written.\<close>

lemma Config_json_roundtrip:
  assumes "cc_PrivateKeyFiles c = Some m" "distinct (map fst m)"
  shows "\<exists>m'. Config_of_json (Config_json c) = Ok (c\<lparr>cc_PrivateKeyFiles := Some m'\<rparr>) \<and> map_of m' = map_of m"
proof -
  let ?es = "sort_key fst m"
  have "distinct (map fst ?es)" using assms(2) by (simp add: distinct_map)
  then have "map_of (rev ?es) = map_of ?es" by (rule map_of_distinct_rev)
  also have "\<dots> = map_of m" using \<open>distinct (map fst ?es)\<close> assms(2) by (simp add: map_of_inject_set)
  finally have "map_of (fold (\<lambda>(k, v). AList.update k v) ?es []) = map_of m" by (simp add: map_of_fold_AList_update)
  moreover have "Config_of_json (Config_json c) = Ok (c\<lparr>cc_PrivateKeyFiles := Some (fold (\<lambda>(k, v). AList.update k v) ?es [])\<rparr>)"
    using assms(1) by (cases c) (simp add: Config_of_json_def Config_json_def jstruct_def jstring_into_def jstring_ptr_def
        key_files_of_json_def jptr_def string_map_into_strings ToLower_def to_lower_char_def split: option.split)
  ultimately show ?thesis by blast
qed

subsection \<open>What a handler leaves behind\<close>

text \<open>
  Rules in the style of weakest preconditions, one for each combinator of the handlers: \<open>Q\<close> holds of the
  session that is left, whichever way the handler ends.
\<close>

definition leaves :: "(session \<Rightarrow> bool) \<Rightarrow> handled \<Rightarrow> bool" where
  "leaves Q h \<longleftrightarrow> Q (snd h)"

named_theorems leaves_intros \<open>rules for the combinators of the handlers\<close>

lemma leaves_pair [leaves_intros]: "Q s \<Longrightarrow> leaves Q (out, s)"
  by (simp add: leaves_def)

lemma leaves_attempt [leaves_intros]: "Q s \<Longrightarrow> (\<And>v. r = Ok v \<Longrightarrow> leaves Q (k v)) \<Longrightarrow> leaves Q (attempt r s k)"
  by (cases r) (simp_all add: attempt_def leaves_def)

lemma leaves_attempt_pair [leaves_intros]:
  "Q s \<Longrightarrow> (\<And>u v. r = Ok (u, v) \<Longrightarrow> leaves Q (k u v)) \<Longrightarrow> leaves Q (attempt r s (\<lambda>(u, v). k u v))"
  by (cases r) (auto simp: attempt_def leaves_def)

lemma leaves_save [leaves_intros]:
  "(\<And>f. Q (s\<lparr>ss_files := f\<rparr>)) \<Longrightarrow> (\<And>f. leaves Q (k (s\<lparr>ss_files := f\<rparr>))) \<Longrightarrow> leaves Q (save_config a s k)"
  "(\<And>f. Q (s\<lparr>ss_files := f\<rparr>)) \<Longrightarrow> (\<And>f. leaves Q (k (s\<lparr>ss_files := f\<rparr>))) \<Longrightarrow> leaves Q (save_key a path key s k)"
  by (auto simp: save_config_def save_key_def Let_def split: prod.split intro!: leaves_attempt)

lemma leaves_put_key_file [leaves_intros]:
  "Q s \<Longrightarrow> (\<And>c. leaves Q (k (s\<lparr>ss_Config := c\<rparr>))) \<Longrightarrow> leaves Q (put_key_file who path s k)"
  by (simp add: put_key_file_def leaves_pair split: option.split)

lemma leaves_Display [leaves_intros]:
  "(\<And>d. Q (s\<lparr>ss_display := d\<rparr>)) \<Longrightarrow> (\<And>d. leaves Q (k (s\<lparr>ss_display := d\<rparr>))) \<Longrightarrow> leaves Q (prompt_Display a d s k)"
  by (auto simp: prompt_Display_def Let_def intro!: leaves_attempt)

lemma leaves_submit [leaves_intros]:
  assumes "Q s" "\<And>j. Builder_Marshal lib b = Ok j \<Longrightarrow> Q (s\<lparr>ss_sent := ss_sent s @ [j]\<rparr>)"
    and "\<And>j r. Builder_Marshal lib b = Ok j \<Longrightarrow> leaves Q (k r (s\<lparr>ss_sent := ss_sent s @ [j]\<rparr>))"
  shows "leaves Q (submit lib a b s k)"
  using assms by (auto simp: submit_def Let_def intro!: leaves_attempt)

lemma leaves_if [leaves_intros]: "(P \<Longrightarrow> leaves Q x) \<Longrightarrow> (\<not> P \<Longrightarrow> leaves Q y) \<Longrightarrow> leaves Q (if P then x else y)"
  by simp

subsection \<open>Requests\<close>

text \<open>
  A request the session may send: the unsigned seed request, or one that is signed with the active key in
  the name of the active principal.
\<close>

definition own_request :: "extlib \<Rightarrow> session \<Rightarrow> json \<Rightarrow> bool" where
  "own_request lib s j \<longleftrightarrow> (\<exists>b. Builder_Marshal lib b = Ok j \<and>
     (if b_signed b then ss_ActivePrincipal s = Some (b_principal b) \<and> ss_ActivePrivateKey s = Some (b_key b)
      else b_requestType b = RequestTypeSeed))"

definition sends :: "extlib \<Rightarrow> session \<Rightarrow> session \<Rightarrow> bool" where
  "sends lib s s' \<longleftrightarrow> ss_sent s' = ss_sent s \<or> (\<exists>j. ss_sent s' = ss_sent s @ [j] \<and> own_request lib s j)"

lemma sends_cong [simp]:
  "sends lib s (s'\<lparr>ss_files := f\<rparr>) = sends lib s s'" "sends lib s (s'\<lparr>ss_Config := c\<rparr>) = sends lib s s'"
  "sends lib s (s'\<lparr>ss_display := d\<rparr>) = sends lib s s'" "sends lib s (s'\<lparr>ss_ActivePrincipal := p\<rparr>) = sends lib s s'"
  "sends lib s (s'\<lparr>ss_ActivePrivateKey := k\<rparr>) = sends lib s s'"
  by (simp_all add: sends_def)

lemma sends_refl [simp]: "sends lib s s"
  by (simp add: sends_def)

lemma sends_own: "own_request lib s j \<Longrightarrow> sends lib s (s\<lparr>ss_sent := ss_sent s @ [j]\<rparr>)"
  by (simp add: sends_def)

lemma own_seed: "Builder_Marshal lib (seed_request who pub) = Ok j \<Longrightarrow> own_request lib s j"
  unfolding own_request_def
  by (intro exI [of _ "seed_request who pub"]) (simp add: seed_request_def Builder_Unsigned_def Builder_Data_def)

lemma own_signed:
  "Builder_Marshal lib (Builder_Signed who key b) = Ok j \<Longrightarrow> ss_ActivePrincipal s = Some who \<Longrightarrow> ss_ActivePrivateKey s = Some key
    \<Longrightarrow> own_request lib s j"
  unfolding own_request_def by (intro exI [of _ "Builder_Signed who key b"]) (simp add: Builder_Signed_def)

lemma sign_without_key: "Builder_Marshal lib (Builder_Signed who [] b) \<noteq> Ok j"
  by (auto simp: Builder_Marshal_def Build_def buildSigned_def Builder_Signed_def wrap_payload_def sign_payload_def
      split: option.split_asm if_split_asm)

lemmas handler_sends = leaves_intros sends_own

lemma submitEvent_sends: "leaves (sends lib s) (submitEvent lib a event s)"
  by (auto simp: submitEvent_def create_request_def split: option.split intro!: handler_sends intro: own_signed own_seed)

lemma own_deploy:
  "Builder_Marshal lib (Builder_Signed who (case ss_ActivePrivateKey s of None \<Rightarrow> [] | Some key \<Rightarrow> key) b) = Ok j
    \<Longrightarrow> ss_ActivePrincipal s = Some who \<Longrightarrow> own_request lib s j"
  by (cases "ss_ActivePrivateKey s") (auto simp: sign_without_key intro: own_signed)

lemma HandlePolicyDeploy_sends: "leaves (sends lib s) (HandlePolicyDeploy D lib a s)"
  unfolding HandlePolicyDeploy_def
  apply (intro leaves_intros sends_refl)
  subgoal for filePath content policy
    by (cases "RetentionPolicy_Validate policy"; cases "ss_ActivePrincipal s")
      (auto intro!: handler_sends intro: own_deploy)
  done

lemma perform_sends: "leaves (sends lib s) (perform ics D lib act a s)"
proof (cases act)
  case DeployPolicy
  then show ?thesis by (simp add: HandlePolicyDeploy_sends)
qed (auto simp: HandleImportPrivateKey_def use_key_def HandleSeed_def HandleRegister_def HandleViewPrincipal_def
    HandleImportEvent_def HandleGenerateEvent_def HandleViewEvent_def HandlePolicyView_def HandleABCIInfo_def Let_def
    split: res.split option.split intro!: handler_sends submitEvent_sends intro: own_signed own_seed)

text \<open>
  C37. Whatever the user selects and the node answers, a step of the client hands at most one transaction to
  the node, and that is the unsigned request to seed the chain or a request that is signed with the active
  private key in the name of the active principal.
\<close>

theorem client_requests_signed:
  "\<exists>js. ss_sent (snd (client_step ics D lib m a s)) = ss_sent s @ js \<and> length js \<le> 1
    \<and> (\<forall>j \<in> set js. \<exists>b. Builder_Marshal lib b = Ok j \<and>
         (if b_signed b then ss_ActivePrincipal s = Some (b_principal b) \<and> ss_ActivePrivateKey s = Some (b_key b)
          else b_requestType b = RequestTypeSeed))"
proof -
  have "leaves (sends lib s) (SelectAndExecute ics D lib m a s)"
    unfolding SelectAndExecute_def by (auto intro!: handler_sends perform_sends)
  then have "sends lib s (snd (client_step ics D lib m a s))"
    by (auto simp: client_step_def leaves_def Let_def split: prod.split outcome.split)
  then show ?thesis unfolding sends_def own_request_def
    by (elim disjE exE) (auto intro: exI [of _ "[]"])
qed

subsection \<open>Seeding and restarting\<close>

lemma prompt_valid: "prompt_TextWithDefault d vs inputs = Ok s \<Longrightarrow> is_ok (combineValidators vs s)"
  by (induction d vs inputs rule: prompt_TextWithDefault.induct) (auto simp: Let_def split: if_split_asm)

lemma prompt_path: "prompt_TextWithDefault d [MinLength 1] inputs = Ok path \<Longrightarrow> path \<noteq> []"
  using prompt_valid [of d "[MinLength 1]" inputs path] by (auto simp: MinLength_def)

text \<open>The answers of a user who enters a principal and a path, and of a node that executes the request.\<close>

definition seeding :: "answers \<Rightarrow> session \<Rightarrow> string \<Rightarrow> string \<Rightarrow> bytes \<Rightarrow> bytes \<Rightarrow> bool" where
  "seeding a s p path pub priv \<longleftrightarrow> prompt_Text [LengthBetween 1 255] (an_text 0 a) = Ok p
     \<and> prompt_TextWithDefault (''./privkey_'' @ p) [MinLength 1] (an_text 1 a) = Ok path \<and> an_key a = Ok (pub, priv)
     \<and> map_res tr_Code (BroadcastAndPoll (an_sync a) (an_polls a)) = Ok 0
     \<and> an_keyfile a = Written \<and> an_config a = Written \<and> path \<noteq> ''config.json''
     \<and> ss_files s path \<noteq> Some Directory \<and> ss_files s ''config.json'' \<noteq> Some Directory"

definition seeded_session :: "json \<Rightarrow> string \<Rightarrow> string \<Rightarrow> bytes \<Rightarrow> (string \<times> string) list \<Rightarrow> session \<Rightarrow> session" where
  "seeded_session j p path priv m s =
     (let c = (ss_Config s)\<lparr>cc_PrivateKeyFiles := Some (AList.update p path m), cc_ActivePrivateKey := Some p\<rparr>
      in s\<lparr>ss_Config := c, ss_ActivePrincipal := Some p, ss_ActivePrivateKey := Some priv, ss_sent := ss_sent s @ [j],
           ss_files := (ss_files s)(path \<mapsto> File (b64_EncodeToString priv), ''config.json'' \<mapsto> JsonFile (Config_json c))\<rparr>)"

lemma HandleSeed_accepted:
  assumes "seeding a s p path pub priv" "cc_PrivateKeyFiles (ss_Config s) = Some m" "Builder_Marshal lib (seed_request p pub) = Ok j"
  shows "HandleSeed lib a s = (Next IdentityActionSelector, seeded_session j p path priv m s)"
proof -
  have "path \<noteq> []" using assms(1) prompt_path unfolding seeding_def by blast
  with assms show ?thesis
    by (auto simp: seeding_def HandleSeed_def submit_def save_key_def put_key_file_def save_config_def attempt_def
        WritePrivateKey_def Config_Write_def write_file_def seeded_session_def Let_def)
qed

lemma seed_request_marshals:
  "Builder_Marshal lib (seed_request p pub) = Ok (MuxedRequest_json \<lparr>mx_App = identity_AppName, mx_Data = Some (UnsignedPayload_json
     \<lparr>up_Payload = \<lparr>pl_Type = RequestTypeSeed, pl_Data = Some (PayloadSeed_MarshalJSON \<lparr>ps_Principal = p, ps_Key = pub\<rparr>)\<rparr>\<rparr>)\<rparr>)"
  by (simp add: Builder_Marshal_def Build_def buildUnsigned_def unsigned_payload_def wrap_payload_def seed_request_def
      Builder_Unsigned_def Builder_Data_def Builder_App_def NewBuilder_def RequestTypeSeed_def)

text \<open>
  C38. When the node has executed the request of \<^verbatim>\<open>HandleSeed\<close>, and the key and the configuration could be
  written, the client that is started next reads both back: it has the new principal and exactly the
  generated private key as its active ones, and the same map of key files.
\<close>

theorem seeded_client_restarts:
  assumes "seeding a s p path pub priv" "cc_PrivateKeyFiles (ss_Config s) = Some m" "distinct (map fst m)"
  shows "\<exists>s' s2 m2. HandleSeed lib a s = (Next IdentityActionSelector, s')
    \<and> start_client parse (Ok info) w0 w1 w2 (ss_files s') = Ok s2
    \<and> ss_ActivePrincipal s2 = Some p \<and> ss_ActivePrivateKey s2 = Some priv
    \<and> cc_PrivateKeyFiles (ss_Config s2) = Some m2 \<and> map_of m2 = (map_of m)(p \<mapsto> path)"
proof -
  let ?m = "AList.update p path m"
  let ?c = "(ss_Config s)\<lparr>cc_PrivateKeyFiles := Some ?m, cc_ActivePrivateKey := Some p\<rparr>"
  obtain j where j: "Builder_Marshal lib (seed_request p pub) = Ok j" using seed_request_marshals by blast
  have path: "path \<noteq> []" "path \<noteq> ''config.json''" using assms(1) prompt_path unfolding seeding_def by blast+
  obtain m2 where m2: "Config_of_json (Config_json ?c) = Ok (?c\<lparr>cc_PrivateKeyFiles := Some m2\<rparr>)" "map_of m2 = map_of ?m"
    using Config_json_roundtrip [of ?c ?m] assms(3) by (auto simp: distinct_update)
  let ?files = "ss_files (seeded_session j p path priv m s)"
  have f: "?files ''config.json'' = Some (JsonFile (Config_json ?c))" "?files path = Some (File (b64_EncodeToString priv))"
    using path(2) by (simp_all add: seeded_session_def Let_def)
  have "set_active (?c\<lparr>cc_PrivateKeyFiles := Some m2\<rparr>) w1 w2 ?files p = Ok (Some p, Some priv, ?files)"
    using LoadPrivateKey_written [of path ?files priv, OF path(1) f(2)] m2(2) by (simp add: set_active_def update_conv' Let_def)
  then have "\<exists>s2. start_client parse (Ok info) w0 w1 w2 ?files = Ok s2 \<and> ss_ActivePrincipal s2 = Some p
      \<and> ss_ActivePrivateKey s2 = Some priv \<and> cc_PrivateKeyFiles (ss_Config s2) = Some m2"
    using f(1) m2(1) by (simp add: start_client_def LoadConfig_def decode_config_def)
  with HandleSeed_accepted [OF assms(1,2) j] m2(2) show ?thesis by (auto simp: update_conv')
qed

subsection \<open>A key that cannot be loaded\<close>

lemma create_request_swap:
  "create_request lib p key nonce event = Builder_Signed p key (Builder_App events_AppName (Builder_Data RequestTypeCreate
     (CreateRequest_json lib \<lparr>cr_Event = event, cr_Nonce = nonce\<rparr>) NewBuilder))"
  by (simp add: create_request_def Builder_Signed_def Builder_App_def Builder_Data_def)

lemma submitEvent_sent:
  assumes "ss_ActivePrincipal s = Some p" "ss_ActivePrivateKey s = Some key"
    "Builder_Marshal lib (create_request lib p key (an_nonce a) event) = Ok j"
  shows "ss_sent (snd (submitEvent lib a event s)) = ss_sent s @ [j]"
  using assms by (auto simp: submitEvent_def submit_def attempt_def prompt_Display_def Let_def split: res.split)

text \<open>
  C39. Choosing a principal whose key file cannot be read shows an error, but the principal is active
  afterwards while the private key is still the one of the principal chosen before: the next event that is
  submitted names the new principal, and its signature is one of the old key.
\<close>

theorem failed_selection_keeps_key:
  assumes "ss_ActivePrivateKey s = Some key" "length key = 64" "length pub = 32"
    and pair: "\<And>m. ed25519_verify lib pub m (ed25519_sign lib key m)"
    and w: "an_config a = Written" "ss_files s ''config.json'' \<noteq> Some Directory"
    and l: "keyFile \<noteq> ''config.json''" "LoadPrivateKey (ss_files s) keyFile = Err e"
  shows "\<exists>s' j inner p. use_key username keyFile a s = (Returned e, s')
    \<and> ss_sent (snd (submitEvent lib a' event s')) = ss_sent s @ [j]
    \<and> MuxedRequest_of_json j = Ok \<lparr>mx_App = events_AppName, mx_Data = Some inner\<rparr> \<and> SignedPayload_of_json inner = Ok p
    \<and> sp_Principal p = username \<and> ValidateSignature lib p pub = Ok True"
proof -
  let ?s = "s\<lparr>ss_Config := (ss_Config s)\<lparr>cc_ActivePrivateKey := Some username\<rparr>, ss_ActivePrincipal := Some username\<rparr>"
  let ?s' = "?s\<lparr>ss_files := (ss_files s)(''config.json'' \<mapsto> JsonFile (Config_json (ss_Config ?s)))\<rparr>"
  have "LoadPrivateKey (ss_files ?s') keyFile = Err e" using l by simp
  then have u: "use_key username keyFile a s = (Returned e, ?s')"
    using w by (simp add: use_key_def save_config_def Config_Write_def write_file_def attempt_def Let_def)
  let ?d = "CreateRequest_json lib \<lparr>cr_Event = event, cr_Nonce = an_nonce a'\<rparr>"
  obtain j inner p where j: "Builder_Marshal lib (create_request lib username key (an_nonce a') event) = Ok j"
      "MuxedRequest_of_json j = Ok \<lparr>mx_App = events_AppName, mx_Data = Some inner\<rparr>" "SignedPayload_of_json inner = Ok p"
      "sp_Principal p = username" "ValidateSignature lib p pub = Ok True"
    using signed_request_decodes [where d = ?d and app = events_AppName and signer = username, OF _ assms(2,3) pair,
        of RequestTypeCreate] by (auto simp: RequestTypeCreate_def create_request_swap)
  have "ss_sent (snd (submitEvent lib a' event ?s')) = ss_sent s @ [j]"
    using submitEvent_sent [of ?s' username key lib a' event j] assms(1) j(1) by simp
  with u j show ?thesis by blast
qed

text \<open>Deploying a valid policy without an active principal ends the program.\<close>

lemma deploy_without_principal_panics:
  assumes "prompt_Text [FileExists (ss_files s)] (an_text 0 a) = Ok path" "ReadFile (ss_files s) path = Ok content"
    and "dc_yaml D content = Ok policy" "RetentionPolicy_Validate policy = Ok ()" "ss_ActivePrincipal s = None"
  shows "HandlePolicyDeploy D lib a s = (Panicked, s)"
  using assms by (simp add: HandlePolicyDeploy_def attempt_def)

subsection \<open>From an empty chain to the first event\<close>

lemma unsigned_as_signed:
  "pl_Data p \<noteq> None \<Longrightarrow> SignedPayload_of_json (UnsignedPayload_json \<lparr>up_Payload = p\<rparr>) = Ok \<lparr>sp_Payload = p, sp_Principal = [], sp_Signature = []\<rparr>"
  by (simp add: SignedPayload_of_json_def UnsignedPayload_json_def Payload_json_roundtrip rpc_json_simps)

text \<open>An unsigned seed request, on an application that nobody has seeded.\<close>

lemma identity_seed_accepted:
  assumes laws: "iavl_laws T view saved latest" and total: "iavl_total T"
    and new: "\<not> id_seeded view (ia_tree app)" "\<not> ia_seeded app"
  shows "\<exists>res app'. identity_FinalizeBlock T lib (Some (UnsignedPayload_json \<lparr>up_Payload = \<lparr>pl_Type = RequestTypeSeed,
        pl_Data = Some (PayloadSeed_MarshalJSON \<lparr>ps_Principal = p, ps_Key = pub\<rparr>)\<rparr>\<rparr>)) app = Ok (res, app')
    \<and> fb_TxResult res = ok_result \<and> fb_CommitFunc res = Some (CommitSeed p \<lparr>id_PublicKey = pub, id_Role = RoleAdmin\<rparr>)
    \<and> ia_tree app' = ia_tree app"
proof -
  obtain b where "iv_Has T (ia_tree app) seeded_key = Ok b" using iavl_totalD(2) [OF total] by blast
  then have s: "id_IsSeeded T (ia_tree app) = Ok b" by (simp add: id_IsSeeded_def)
  then have b: "\<not> b" using id_repo.IsSeeded_seeded [OF laws s] new(1) by simp
  obtain h where h: "id_Hash T (ia_tree app) = Ok h" using iavl_totalD(5) [OF total] unfolding id_Hash_def by blast
  show ?thesis using s b h new(2)
    by (simp add: identity_FinalizeBlock_def identity_requester_def identity_finalize_seed_def json_Unmarshal_def
        unsigned_as_signed seed_json.dec_enc Let_def)
qed

lemma identity_commit_seed_total:
  assumes "iavl_total T"
  shows "\<exists>app'. identity_commit T (CommitSeed p d) app = Ok app'"
proof -
  obtain r1 r2 h n r3 where "id_Store T (ia_tree app) p d = Ok r1" "id_SetSeeded T r1 = Ok r2" "id_Save T r2 = Ok (h, n, r3)"
    using iavl_totalD(3,6) [OF assms] unfolding id_Store_def id_SetSeeded_def id_Save_def by metis
  then show ?thesis by (simp add: identity_commit_def id_reset_txState_def Let_def)
qed

lemma mux_block_seed:
  assumes "fr_Txs req = [t]" "tx_Unmarshal t = Ok d" "lookup_app (mx_App d) = Some Identity"
    and f: "identity_FinalizeBlock (en_T E) (en_lib E) (mx_Data d) (mx_identity app) = Ok (res, ia)"
    and c: "fb_CommitFunc res = Some (CommitSeed p x)" and e: "identity_commit (en_T E) (CommitSeed p x) ia = Ok ia'"
    and db: "\<And>d k v. is_ok (db_Set (en_D E) d k v)"
  shows "\<exists>resp app1 app'. mux_FinalizeBlock E req app = Ok (resp, app1) \<and> rf_TxResults resp = [fb_TxResult res]
    \<and> mux_block E req app = Ok app' \<and> mx_identity app' = ia' \<and> mx_events app' = mx_events app"
proof -
  define app1 where "app1 = set_hash (subapp_Name Identity) (fb_AppHash res) (app\<lparr>mx_identity := ia, mx_commitFuncs := [CommitSeed p x]\<rparr>)"
  define app2 where "app2 = app1\<lparr>mx_state := (mx_state app1)\<lparr>st_Height := fr_Height req\<rparr>\<rparr>"
  have "mux_txs E req (fr_Txs req) (app\<lparr>mx_commitFuncs := []\<rparr>) = Ok ([fb_TxResult res], app1)"
    using assms(1-5) by (simp add: mux_tx_def commit_of_def app1_def Let_def)
  then have 1: "mux_FinalizeBlock E req app = Ok (\<lparr>rf_TxResults = [fb_TxResult res],
      rf_ValidatorUpdates = punish (mx_validators app) (fr_Misbehavior req), rf_AppHash = GenerateAppHash (en_lib E) (mx_state app2)\<rparr>, app2)"
    by (simp add: mux_FinalizeBlock_def app2_def Let_def)
  have 2: "run_commits (mux_commit E) (mx_commitFuncs app2) app2 = Ok (app2\<lparr>mx_identity := ia'\<rparr>)"
    using e by (simp add: app2_def app1_def mux_commit_def set_hash_def)
  obtain db' where "saveState (en_D E) (mx_db app2) (mx_state app2) = Ok db'"
    using db unfolding is_ok_iff saveState_def Must_def by (metis on_err_simps(1))
  moreover have "mx_events app2 = mx_events app" by (simp add: app2_def app1_def set_hash_def)
  ultimately show ?thesis using 1 2 by (simp add: mux_block_def mux_Commit_def Let_def)
qed

text \<open>The block with the seed request makes the principal an administrator.\<close>

lemma seed_request_stored:
  assumes laws: "iavl_laws (en_T E) view saved latest" and total: "iavl_total (en_T E)"
    and db: "\<And>d k v. is_ok (db_Set (en_D E) d k v)"
    and g: "genesis view saved latest app" "\<not> ia_seeded (mx_identity app)"
    and j: "Builder_Marshal lib (seed_request p pub) = Ok j"
  shows "\<exists>resp app1 app'. mux_FinalizeBlock E \<lparr>fr_Txs = [TxJson j], fr_Misbehavior = [], fr_Height = h, fr_Time = t\<rparr> app = Ok (resp, app1)
    \<and> map tr_Code (rf_TxResults resp) = [CodeOk]
    \<and> mux_block E \<lparr>fr_Txs = [TxJson j], fr_Misbehavior = [], fr_Height = h, fr_Time = t\<rparr> app = Ok app'
    \<and> id_entry view (ia_tree (mx_identity app')) p = Some \<lparr>id_PublicKey = pub, id_Role = RoleAdmin\<rparr> \<and> mx_events app' = mx_events app"
proof -
  let ?inner = "UnsignedPayload_json \<lparr>up_Payload = \<lparr>pl_Type = RequestTypeSeed,
        pl_Data = Some (PayloadSeed_MarshalJSON \<lparr>ps_Principal = p, ps_Key = pub\<rparr>)\<rparr>\<rparr>"
  let ?d = "\<lparr>mx_App = identity_AppName, mx_Data = Some ?inner\<rparr>" and ?x = "\<lparr>id_PublicKey = pub, id_Role = RoleAdmin\<rparr>"
  let ?req = "\<lparr>fr_Txs = [TxJson j], fr_Misbehavior = [], fr_Height = h, fr_Time = t\<rparr>"
  have d: "tx_Unmarshal (TxJson j) = Ok ?d"
    using j seed_request_marshals [of lib p pub] muxed_json.dec_enc [of ?d] by (simp add: tx_Unmarshal_def)
  have e: "\<not> id_seeded view (ia_tree (mx_identity app))" "\<not> id_present view (ia_tree (mx_identity app)) p"
    using g(1) by (simp_all add: genesis_def id_seeded_def id_present_def)
  obtain res ia where f: "identity_FinalizeBlock (en_T E) (en_lib E) (Some ?inner) (mx_identity app) = Ok (res, ia)"
      "fb_TxResult res = ok_result" "fb_CommitFunc res = Some (CommitSeed p ?x)" "ia_tree ia = ia_tree (mx_identity app)"
    using identity_seed_accepted [OF laws total e(1) g(2)] by blast
  obtain ia' where c: "identity_commit (en_T E) (CommitSeed p ?x) ia = Ok ia'" using identity_commit_seed_total [OF total] by blast
  have "id_entry view (ia_tree ia') p = Some ?x" using identity_commit_seed [OF laws c] e(2) f(4) by simp
  moreover have "lookup_app identity_AppName = Some Identity" by (simp add: lookup_app_def)
  ultimately show ?thesis
    using mux_block_seed [OF _ d _ _ f(3) c db, of ?req app] f(1,2) by (fastforce simp: ok_result_def)
qed


subsection \<open>A session\<close>

definition demo_user :: answers where
  "demo_user = \<lparr>an_choice = Some 0, an_texts = [[Some ''root''], [None]], an_role = Some 0, an_key = Ok (replicate 32 3, replicate 64 3),
     an_nonce = replicate 16 0, an_draws = \<lparr>dr_ProviderGuid = replicate 16 1, dr_ActivityId = replicate 16 2, dr_EventId = 1,
       dr_EventRecordId = 2, dr_ProcessId = 3, dr_ThreadId = 4, dr_Now = 5\<rparr>,
     an_sync = Ok \<lparr>ck_Code = 0, ck_Log = [], ck_Codespace = []\<rparr>, an_polls = [PollRpcError ''tx not found'', PollFound ok_result],
     an_query = (\<lambda>_ _ _. Err EOF), an_info = Ok JNull, an_keyfile = Written, an_config = Written, an_shown = Ok (), an_error_shown = Ok ()\<rparr>"

definition demo_importer :: answers where
  "demo_importer = demo_user\<lparr>an_texts := [[Some ''e.xml'']]\<rparr>"

definition demo_decoders :: decoders where
  "demo_decoders = \<lparr>dc_xml = (\<lambda>_. Ok \<lparr>ed_Event = demo_event, ed_EventData = []\<rparr>), dc_yaml = (\<lambda>_. Err EOF)\<rparr>"

definition demo_session :: session where
  "demo_session = \<lparr>ss_Config = config_Default, ss_ActivePrincipal = None, ss_ActivePrivateKey = None,
     ss_files = [''e.xml'' \<mapsto> File ''event''], ss_sent = [], ss_display = []\<rparr>"

lemma demo_poll: "BroadcastAndPoll (an_sync demo_user) (an_polls demo_user) = Ok ok_result"
proof -
  have "strings_Contains ''tx not found'' ''not found''" by (simp add: strings_Contains_def upt_rec)
  then show ?thesis by (simp add: demo_user_def BroadcastAndPoll_def)
qed

lemma demo_seeding: "seeding demo_user demo_session ''root'' ''./privkey_root'' (replicate 32 3) (replicate 64 3)"
  using demo_poll by (simp add: seeding_def demo_session_def an_text_def prompt_Text_def LengthBetween_def MinLength_def ok_result_def
      CodeOk_def) (simp add: demo_user_def LengthBetween_def MinLength_def Let_def)

lemma demo_pair: "ed25519_verify demo_lib (replicate 32 3) m (ed25519_sign demo_lib (replicate 64 3) m)"
  by (simp add: demo_lib_def)

theorem client_requests_signed_witness:
  "\<exists>j b. ss_sent (snd (client_step demo_ics demo_decoders demo_lib IdentityActionSelector demo_user demo_session)) = [j]
    \<and> Builder_Marshal demo_lib b = Ok j \<and> (\<not> b_signed b \<longrightarrow> b_requestType b = RequestTypeSeed)"
proof -
  obtain j where j: "Builder_Marshal demo_lib (seed_request ''root'' (replicate 32 3)) = Ok j" using seed_request_marshals by blast
  have "cc_PrivateKeyFiles (ss_Config demo_session) = Some []" by (simp add: demo_session_def config_Default_def)
  from HandleSeed_accepted [OF demo_seeding this j]
  have "client_step demo_ics demo_decoders demo_lib IdentityActionSelector demo_user demo_session =
      (Next IdentityActionSelector, seeded_session j ''root'' ''./privkey_root'' (replicate 64 3) [] demo_session)"
    by (simp add: client_step_def SelectAndExecute_def prompt_Select_def attempt_def demo_user_def)
  then have "ss_sent (snd (client_step demo_ics demo_decoders demo_lib IdentityActionSelector demo_user demo_session)) = [j]"
    by (simp add: seeded_session_def demo_session_def Let_def)
  with client_requests_signed [of demo_ics demo_decoders demo_lib IdentityActionSelector demo_user demo_session]
  show ?thesis by (auto simp: demo_session_def)
qed

theorem seeded_client_restarts_witness:
  "\<exists>s' s2. HandleSeed demo_lib demo_user demo_session = (Next IdentityActionSelector, s')
    \<and> start_client (\<lambda>_. None) (Ok JNull) Written Written Written (ss_files s') = Ok s2
    \<and> ss_ActivePrincipal s2 = Some ''root'' \<and> ss_ActivePrivateKey s2 = Some (replicate 64 3)"
proof -
  have "cc_PrivateKeyFiles (ss_Config demo_session) = Some []" "distinct (map fst ([] :: (string \<times> string) list))"
    by (simp_all add: demo_session_def config_Default_def)
  from seeded_client_restarts [OF demo_seeding this, of demo_lib] show ?thesis by blast
qed

theorem failed_selection_keeps_key_witness:
  "\<exists>s' j inner p. use_key ''eve'' ''missing'' demo_user (demo_session\<lparr>ss_ActivePrivateKey := Some (replicate 64 3)\<rparr>)
      = (Returned (OtherError ''cannot read file''), s')
    \<and> ss_sent (snd (submitEvent demo_lib demo_user \<lparr>OffChainHash = [], sc_Event = demo_event\<rparr> s')) = [j]
    \<and> MuxedRequest_of_json j = Ok \<lparr>mx_App = events_AppName, mx_Data = Some inner\<rparr> \<and> SignedPayload_of_json inner = Ok p
    \<and> sp_Principal p = ''eve'' \<and> ValidateSignature demo_lib p (replicate 32 3) = Ok True"
proof -
  let ?s = "demo_session\<lparr>ss_ActivePrivateKey := Some (replicate 64 3)\<rparr>"
  have "ss_ActivePrivateKey ?s = Some (replicate 64 3)" "length (replicate 64 (3 :: byte)) = 64" "length (replicate 32 (3 :: byte)) = 32"
    "an_config demo_user = Written" "ss_files ?s ''config.json'' \<noteq> Some Directory" "''missing'' \<noteq> ''config.json''"
    "LoadPrivateKey (ss_files ?s) ''missing'' = Err (OtherError ''cannot read file'')" "ss_sent ?s = []"
    by (simp_all add: demo_user_def demo_session_def LoadPrivateKey_def ReadFile_def)
  with failed_selection_keeps_key [of ?s "replicate 64 3" "replicate 32 3" demo_lib demo_user "''missing''"
      "OtherError ''cannot read file''" "''eve''" demo_user] demo_pair
  show ?thesis by (metis append_Nil)
qed


end
